(* ===== verification/Prelude.thy ===== *)
theory Prelude
  imports Main "HOL-Library.Word"
begin

text \<open>
  Shared vocabulary of the development: the machine integer types of the ATmega328P
  target (8-bit bytes, 16-bit data pointers, 32-bit time stamps), the outcome of a C
  function that may dereference a bad pointer or never return, the byte order of 16-bit
  values, and the generic lemmas on words, functions and lists that the components use.
\<close>

unbundle bit_operations_syntax

section \<open>Types\<close>

type_synonym u8 = "8 word"
type_synonym u16 = "16 word"
type_synonym u32 = "32 word"

text \<open>A data-space pointer; the null pointer is the address 0.\<close>

type_synonym ptr = "16 word"

abbreviation nullptr :: ptr where
  "nullptr \<equiv> 0"

named_theorems cpu_simps \<open>rewrite rules of the processor model\<close>
named_theorems c_simps \<open>rewrite rules of the C outcome monad\<close>
named_theorems hw_frame \<open>what an operation leaves unchanged\<close>

section \<open>Outcomes of C functions\<close>

text \<open>
  A C function either never returns (\<^term>\<open>None\<close>), or stops at an operation the C
  standard leaves undefined (\<^term>\<open>Some (Inl f)\<close>), or returns a value
  (\<^term>\<open>Some (Inr v)\<close>).
\<close>

datatype fault = Null_deref | Out_of_bounds | Div_by_zero

type_synonym 'a outcome = "(fault + 'a) option"

definition ret :: "'a \<Rightarrow> 'a outcome" where
  "ret x = Some (Inr x)"

definition fail :: "fault \<Rightarrow> 'a outcome" where
  "fail e = Some (Inl e)"

definition obind :: "'a outcome \<Rightarrow> ('a \<Rightarrow> 'b outcome) \<Rightarrow> 'b outcome" where
  "obind m f =
     (case m of
        None \<Rightarrow> None
      | Some (Inl e) \<Rightarrow> Some (Inl e)
      | Some (Inr x) \<Rightarrow> f x)"

section \<open>Byte order of 16-bit values\<close>

definition lo8 :: "u16 \<Rightarrow> u8" where
  "lo8 w = ucast w"

definition hi8 :: "u16 \<Rightarrow> u8" where
  "hi8 w = ucast (drop_bit 8 w)"

definition join16 :: "u8 \<Rightarrow> u8 \<Rightarrow> u16" where
  "join16 h l = word_cat h l"

section \<open>Lemmas on outcomes\<close>

lemma obind_ret [simp]: "obind (ret x) f = f x"
  by (simp add: obind_def ret_def)

lemma obind_fail [simp]: "obind (fail e) f = fail e"
  by (simp add: obind_def fail_def)

lemma obind_None [simp]: "obind None f = None"
  by (simp add: obind_def)

lemma obind_assoc: "obind (obind m f) g = obind m (\<lambda>x. obind (f x) g)"
  by (auto simp: obind_def split: option.splits sum.splits)

lemma ret_inject [simp]: "ret x = ret y \<longleftrightarrow> x = y"
  by (simp add: ret_def)

lemma ret_neq_fail [simp]: "ret x \<noteq> fail e" "fail e \<noteq> ret x"
  by (simp_all add: ret_def fail_def)

lemma ret_neq_None [simp]: "ret x \<noteq> None" "None \<noteq> ret x"
  by (simp_all add: ret_def)

lemma fail_inject [simp]: "fail e = fail e' \<longleftrightarrow> e = e'"
  by (simp add: fail_def)

lemma obind_eq_ret: "obind m f = ret y \<longleftrightarrow> (\<exists>x. m = ret x \<and> f x = ret y)"
  by (auto simp: obind_def ret_def split: option.splits sum.splits)

section \<open>Lemmas on bytes and words\<close>

lemma join16_split [simp]: "join16 (hi8 w) (lo8 w) = w"
  by (rule bit_word_eqI) (auto simp: join16_def hi8_def lo8_def bit_simps)

lemma lo8_join16 [simp]: "lo8 (join16 h l) = l"
  by (rule bit_word_eqI) (auto simp: join16_def lo8_def bit_simps)

lemma hi8_join16 [simp]: "hi8 (join16 h l) = h"
  by (rule bit_word_eqI) (auto simp: join16_def hi8_def bit_simps)

lemma join16_inject: "join16 h l = join16 h' l' \<longleftrightarrow> h = h' \<and> l = l'"
  by (metis hi8_join16 lo8_join16)

lemma u8_bit_eqI:
  fixes a b :: u8
  assumes "bit a 0 = bit b 0" "bit a 1 = bit b 1" "bit a 2 = bit b 2" "bit a 3 = bit b 3"
    and "bit a 4 = bit b 4" "bit a 5 = bit b 5" "bit a 6 = bit b 6" "bit a 7 = bit b 7"
  shows "a = b"
proof (rule bit_word_eqI)
  fix n
  assume "n < LENGTH(8)"
  then consider "n = 0" | "n = 1" | "n = 2" | "n = 3" | "n = 4" | "n = 5" | "n = 6" | "n = 7"
    by force
  then show "bit a n = bit b n"
    using assms by cases simp_all
qed

lemma u8_inc_eq_0: "x + 1 = 0 \<longleftrightarrow> x = 255" for x :: u8
  by unat_arith auto

lemma u8_less_255: "x < 255 \<longleftrightarrow> x \<noteq> 255" for x :: u8
  by unat_arith auto

lemma unat_u8_less [simp]: "unat (x :: u8) < 256"
  using unsigned_less [of x] by simp

lemma unat_u16_less [simp]: "unat (x :: u16) < 65536"
  using unsigned_less [of x] by simp

lemma unat_u32_less [simp]: "unat (x :: u32) < 4294967296"
  using unsigned_less [of x] by simp

lemma join16_sum: "join16 h l = ucast h * 256 + ucast l"
proof -
  have "join16 h l = push_bit 8 (ucast h) OR ucast l"
    by (rule bit_word_eqI) (auto simp: join16_def bit_simps dest: bit_imp_le_length)
  also have "\<dots> = push_bit 8 (ucast h) + ucast l"
    proof (rule disjunctive_add_eq_or [symmetric], rule bit_word_eqI)
    fix n
    have "bit l n \<Longrightarrow> n < 8" using bit_imp_le_length [of l n] by simp
    then show "bit (push_bit 8 (ucast h :: u16) AND ucast l) n = bit (0 :: u16) n"
      by (auto simp: bit_simps)
  qed
  finally show ?thesis by (simp add: push_bit_eq_mult)
qed

lemma uint_ucast_u8 [simp]: "uint (ucast x :: u16) = uint x" for x :: u8
  using uint_bounded [of x] by (simp add: unsigned_ucast_eq take_bit_int_eq_self)

lemma ucast_minus_256: "(ucast (a - b) :: u16) * 256 = (ucast a - ucast b) * 256" for a b :: u8
proof -
  have "((uint a - uint b) mod 256 * 256) mod 65536 = ((uint a - uint b) * 256) mod 65536"
    using mult_mod_left [of "uint a - uint b" 256 256] by simp
  then have "uint ((ucast (a - b) :: u16) * 256) = uint ((ucast a - ucast b :: u16) * 256)"
    by (simp add: uint_word_ariths mod_mult_left_eq mod_diff_eq)
  then show ?thesis by (rule unsigned_word_eqI)
qed

lemma ucast_minus_borrow:
  "(ucast (a - b) :: u16) = ucast a - ucast b + (if a < b then 256 else 0)" for a b :: u8
proof -
  have ab: "0 \<le> uint a" "0 \<le> uint b" "uint a < 256" "uint b < 256"
    using uint_bounded [of a] uint_bounded [of b] by simp_all
  let ?d = "if a < b then uint a - uint b + 256 else uint a - uint b"
  have d: "0 \<le> ?d" "?d < 256" unfolding word_less_def using ab by (simp_all only: split: if_split) linarith+
  have "(uint a - uint b) mod 256 = ?d mod 256" by simp
  also have "\<dots> = ?d mod 65536"
    using mod_pos_pos_trivial [OF d] mod_pos_pos_trivial [OF d(1), of 65536] d(2) by linarith
  finally have "uint (ucast (a - b) :: u16) = uint (ucast a - ucast b + (if a < b then 256 else 0) :: u16)"
    by (simp add: uint_word_ariths mod_simps)
  then show ?thesis by (rule unsigned_word_eqI)
qed

lemma u8_dec_less: "x \<noteq> 1 \<Longrightarrow> unat (x - 2) < unat (x - 1)" for x :: u8
  using measure_unat [of "x - 1"] by simp

text \<open>A counter below a bound is incremented without wrapping.\<close>

lemma unat_inc_less: "i < n \<Longrightarrow> unat (i + 1) = unat i + 1" for i n :: "'a::len word"
proof -
  assume "i < n"
  then have "i \<noteq> - 1" using word_order.extremum_strict by blast
  then have "1 + i \<noteq> 0" by (metis add.commute add_eq_0_iff)
  then show ?thesis using unatSuc [of i] by (simp add: add.commute)
qed

lemma unat_inc_measure: "i < n \<Longrightarrow> unat n - unat (i + 1) < unat n - unat i" for i n :: "'a::len word"
  using unat_inc_less [of i n] by (simp add: word_less_nat_alt)

section \<open>Lemmas on cyclic indices\<close>

text \<open>Among \<open>n\<close> consecutive numbers exactly one has a given residue modulo \<open>n\<close>.\<close>

lemma unique_offset:
  fixes j n m :: nat
  assumes "j < n"
  shows "\<exists>!d. 1 \<le> d \<and> d \<le> n \<and> (m + d) mod n = j"
proof -
  define r where "r = m mod n"
  have r: "r < n" unfolding r_def by (rule mod_less_divisor) (use assms in linarith)
  define e where "e = (if r < j then j - r else n + j - r)"
  have e: "1 \<le> e" "e \<le> n" using r assms by (auto simp: e_def)
  have step: "(m + d) mod n = (if r + d < n then r + d else r + d - n)" if "d \<le> n" for d
  proof -
    have "(m + d) mod n = (r + d) mod n" by (simp add: r_def mod_add_left_eq)
    also have "\<dots> = (if r + d < n then r + d else r + d - n)"
      using r that by (simp add: mod_if)
    finally show ?thesis .
  qed
  have eq: "(m + d) mod n = j \<longleftrightarrow> d = e" if "1 \<le> d" "d \<le> n" for d
    unfolding step [OF that(2)] e_def using r that assms by (simp split: if_split) linarith
  with e show ?thesis by (intro ex1I [of _ e]) auto
qed

end
