(* ===== verification/AVR.thy ===== *)
theory AVR
  imports Prelude
begin

text \<open>
  The part of the AVR processor that the kernel and the serial driver touch directly: the
  register file, the status register SREG with its global interrupt flag, the stack
  pointer, the program counter and the SRAM bytes the stacks live in; the instructions of
  the two inline assembly blocks of \<^verbatim>\<open>src/kernel.cpp\<close>; and what the hardware does on a
  call, a return and an interrupt. Accesses to data outside the stacks go through a bus
  that the program using the instructions supplies.
\<close>

section \<open>Processor state\<close>

record avr =
  R :: "nat \<Rightarrow> u8"
  SREG :: u8
  SP :: u16
  PC :: u16
  SRAM :: "ptr \<Rightarrow> u8"

definition irq_enabled :: "'z avr_scheme \<Rightarrow> bool" where
  "irq_enabled s \<longleftrightarrow> bit (SREG s) 7"

definition cli :: "'z avr_scheme \<Rightarrow> 'z avr_scheme" where
  "cli s = s\<lparr>SREG := SREG s AND 0x7F\<rparr>"

definition sei :: "'z avr_scheme \<Rightarrow> 'z avr_scheme" where
  "sei s = s\<lparr>SREG := SREG s OR 0x80\<rparr>"

section \<open>Stack\<close>

text \<open>The stack grows downwards and SP points at the next free byte.\<close>

definition push_byte :: "u8 \<Rightarrow> 'z avr_scheme \<Rightarrow> 'z avr_scheme" where
  "push_byte v s = s\<lparr>SRAM := (SRAM s)(SP s := v), SP := SP s - 1\<rparr>"

definition pop_byte :: "'z avr_scheme \<Rightarrow> u8 \<times> 'z avr_scheme" where
  "pop_byte s = (SRAM s (SP s + 1), s\<lparr>SP := SP s + 1\<rparr>)"

text \<open>
  A call or an interrupt pushes the low byte of the return address first, so the high
  byte ends up at the lower address; a return pops them in the opposite order.
\<close>

definition push_pc :: "u16 \<Rightarrow> 'z avr_scheme \<Rightarrow> 'z avr_scheme" where
  "push_pc a s = push_byte (hi8 a) (push_byte (lo8 a) s)"

definition do_ret :: "'z avr_scheme \<Rightarrow> 'z avr_scheme" where
  "do_ret s =
     (let (h, s1) = pop_byte s; (l, s2) = pop_byte s1
      in s2\<lparr>PC := join16 h l\<rparr>)"

definition do_reti :: "'z avr_scheme \<Rightarrow> 'z avr_scheme" where
  "do_reti s = sei (do_ret s)"

definition irq_enter :: "u16 \<Rightarrow> 'z avr_scheme \<Rightarrow> 'z avr_scheme" where
  "irq_enter vect s = cli (push_pc (PC s) s)\<lparr>PC := vect\<rparr>"

definition do_call :: "u16 \<Rightarrow> u16 \<Rightarrow> 'z avr_scheme \<Rightarrow> 'z avr_scheme" where
  "do_call target return_addr s = push_pc return_addr s\<lparr>PC := target\<rparr>"

section \<open>Instructions\<close>

datatype io_reg = IO_SREG | IO_SPL | IO_SPH

text \<open>
  \<open>LDS r g k\<close> reads the byte \<open>k\<close> of a global variable; \<open>LDDZ r q\<close> and
  \<open>STDZ q r\<close> access the byte at displacement \<open>q\<close> of the object that Z points at.
\<close>

datatype 'sym instr =
    CLI
  | SEI
  | PUSH nat
  | POP nat
  | IN_IO nat io_reg
  | OUT_IO io_reg nat
  | LDS nat 'sym nat
  | LDDZ nat nat
  | STDZ nat nat
  | CLR nat

record ('sym, 's) bus =
  sym_rd :: "'sym \<Rightarrow> nat \<Rightarrow> 's \<Rightarrow> u8 option"
  ptr_rd :: "ptr \<Rightarrow> nat \<Rightarrow> 's \<Rightarrow> u8 option"
  ptr_wr :: "ptr \<Rightarrow> nat \<Rightarrow> u8 \<Rightarrow> 's \<Rightarrow> 's option"

definition Z_reg :: "'z avr_scheme \<Rightarrow> ptr" where
  "Z_reg s = join16 (R s 31) (R s 30)"

definition set_reg :: "nat \<Rightarrow> u8 \<Rightarrow> 'z avr_scheme \<Rightarrow> 'z avr_scheme" where
  "set_reg r v s = s\<lparr>R := (R s)(r := v)\<rparr>"

fun io_in :: "io_reg \<Rightarrow> 'z avr_scheme \<Rightarrow> u8" where
  "io_in IO_SREG s = SREG s"
| "io_in IO_SPL s = lo8 (SP s)"
| "io_in IO_SPH s = hi8 (SP s)"

fun io_out :: "io_reg \<Rightarrow> u8 \<Rightarrow> 'z avr_scheme \<Rightarrow> 'z avr_scheme" where
  "io_out IO_SREG v s = s\<lparr>SREG := v\<rparr>"
| "io_out IO_SPL v s = s\<lparr>SP := join16 (hi8 (SP s)) v\<rparr>"
| "io_out IO_SPH v s = s\<lparr>SP := join16 v (lo8 (SP s))\<rparr>"

text \<open>\<open>CLR\<close> is an exclusive or of a register with itself: Z is set, S, V and N cleared.\<close>

fun exec_instr ::
  "('sym, 'z avr_scheme) bus \<Rightarrow> 'sym instr \<Rightarrow> 'z avr_scheme \<Rightarrow> 'z avr_scheme option" where
  "exec_instr b CLI s = Some (cli s)"
| "exec_instr b SEI s = Some (sei s)"
| "exec_instr b (PUSH r) s = Some (push_byte (R s r) s)"
| "exec_instr b (POP r) s = (let (v, s') = pop_byte s in Some (set_reg r v s'))"
| "exec_instr b (IN_IO r io) s = Some (set_reg r (io_in io s) s)"
| "exec_instr b (OUT_IO io r) s = Some (io_out io (R s r) s)"
| "exec_instr b (LDS r g k) s = map_option (\<lambda>v. set_reg r v s) (sym_rd b g k s)"
| "exec_instr b (LDDZ r q) s = map_option (\<lambda>v. set_reg r v s) (ptr_rd b (Z_reg s) q s)"
| "exec_instr b (STDZ q r) s = ptr_wr b (Z_reg s) q (R s r) s"
| "exec_instr b (CLR r) s =
     Some (set_reg r 0 (s\<lparr>SREG := (SREG s AND NOT 0x1C) OR 0x02\<rparr>))"

fun exec ::
  "('sym, 'z avr_scheme) bus \<Rightarrow> 'sym instr list \<Rightarrow> 'z avr_scheme \<Rightarrow> 'z avr_scheme option" where
  "exec b [] s = Some s"
| "exec b (i # is) s = Option.bind (exec_instr b i s) (exec b is)"

section \<open>Interrupt flag\<close>

lemma irq_enabled_cli [simp]: "\<not> irq_enabled (cli s)"
  by (simp add: irq_enabled_def cli_def bit_simps)

lemma irq_enabled_sei [simp]: "irq_enabled (sei s)"
  by (simp add: irq_enabled_def sei_def bit_simps)

lemma cli_sels [simp]:
  "R (cli s) = R s" "SP (cli s) = SP s" "PC (cli s) = PC s" "SRAM (cli s) = SRAM s"
  "avr.more (cli s) = avr.more s" "SREG (cli s) = SREG s AND 0x7F"
  by (simp_all add: cli_def)

lemma sei_sels [simp]:
  "R (sei s) = R s" "SP (sei s) = SP s" "PC (sei s) = PC s" "SRAM (sei s) = SRAM s"
  "avr.more (sei s) = avr.more s" "SREG (sei s) = SREG s OR 0x80"
  by (simp_all add: sei_def)

text \<open>A critical section: SREG is saved, interrupts are masked, SREG is written back.\<close>

lemma SREG_restore_cli [simp]: "cli s\<lparr>SREG := SREG s\<rparr> = s"
  by (simp add: cli_def)

section \<open>Composition of instruction sequences\<close>

lemma exec_append: "exec b (is @ js) s = Option.bind (exec b is s) (exec b js)"
  by (induction "is" arbitrary: s) (auto split: Option.bind_splits)

lemma exec_Cons_Some:
  "exec_instr b i s = Some s' \<Longrightarrow> exec b (i # is) s = exec b is s'"
  by simp

section \<open>Calls and returns\<close>

lemma push_pc_sels [simp]:
  "R (push_pc a s) = R s" "SREG (push_pc a s) = SREG s" "SP (push_pc a s) = SP s - 2"
  "PC (push_pc a s) = PC s" "avr.more (push_pc a s) = avr.more s"
  by (simp_all add: push_pc_def push_byte_def)

lemma SRAM_push_pc:
  "SRAM (push_pc a s) = (SRAM s)(SP s := lo8 a, SP s - 1 := hi8 a)"
  by (simp add: push_pc_def push_byte_def)

lemma do_ret_sels [simp]:
  "R (do_ret s) = R s" "SREG (do_ret s) = SREG s" "SP (do_ret s) = SP s + 2"
  "SRAM (do_ret s) = SRAM s" "avr.more (do_ret s) = avr.more s"
  "PC (do_ret s) = join16 (SRAM s (SP s + 1)) (SRAM s (SP s + 2))"
  by (simp_all add: do_ret_def pop_byte_def add.commute)

lemma do_ret_push_pc:
  "do_ret (push_pc a s) = s\<lparr>PC := a, SRAM := (SRAM s)(SP s := lo8 a, SP s - 1 := hi8 a)\<rparr>"
  by (simp add: do_ret_def push_pc_def push_byte_def pop_byte_def)

end
