(* ===== verification/MCU.thy ===== *)
theory MCU
  imports AVR
begin

text \<open>
  The peripherals of the ATmega328P that the scheduler programs: timer/counter 0 and the
  power reduction register, with the bit positions of the data sheet, and the free-running
  counter itself. \<open>timer0_advance d\<close> is the hardware running for \<open>d\<close> timer ticks
  between two accesses of the program.
\<close>

section \<open>Registers\<close>

record mcu = avr +
  TCCR0A :: u8
  TCCR0B :: u8
  TCNT0 :: u8
  OCR0B :: u8
  TIMSK0 :: u8
  TIFR0 :: u8
  PRR :: u8

abbreviation (input) WGM00 :: nat where "WGM00 \<equiv> 0"
abbreviation (input) WGM01 :: nat where "WGM01 \<equiv> 1"
abbreviation (input) WGM02 :: nat where "WGM02 \<equiv> 3"
abbreviation (input) CS00 :: nat where "CS00 \<equiv> 0"
abbreviation (input) CS01 :: nat where "CS01 \<equiv> 1"
abbreviation (input) CS02 :: nat where "CS02 \<equiv> 2"
abbreviation (input) TOIE0 :: nat where "TOIE0 \<equiv> 0"
abbreviation (input) OCIE0A :: nat where "OCIE0A \<equiv> 1"
abbreviation (input) OCIE0B :: nat where "OCIE0B \<equiv> 2"
abbreviation (input) TOV0 :: nat where "TOV0 \<equiv> 0"
abbreviation (input) OCF0A :: nat where "OCF0A \<equiv> 1"
abbreviation (input) OCF0B :: nat where "OCF0B \<equiv> 2"
abbreviation (input) PRTIM0 :: nat where "PRTIM0 \<equiv> 5"

text \<open>The C expression \<open>1 << n\<close> in a byte.\<close>

abbreviation (input) bv :: "nat \<Rightarrow> u8" where
  "bv n \<equiv> push_bit n 1"

section \<open>Behaviour of the hardware\<close>

text \<open>
  One tick in normal mode: the counter is incremented, the overflow flag is set when it
  wraps from 255 to 0 and the compare flag when it reaches OCR0B.
\<close>

definition timer0_tick :: "'z mcu_scheme \<Rightarrow> 'z mcu_scheme" where
  "timer0_tick s =
     (let t = TCNT0 s + 1;
          f1 = (if t = 0 then TIFR0 s OR bv TOV0 else TIFR0 s);
          f2 = (if t = OCR0B s then f1 OR bv OCF0B else f1)
      in s\<lparr>TCNT0 := t, TIFR0 := f2\<rparr>)"

primrec timer0_advance :: "nat \<Rightarrow> 'z mcu_scheme \<Rightarrow> 'z mcu_scheme" where
  "timer0_advance 0 s = s"
| "timer0_advance (Suc n) s = timer0_advance n (timer0_tick s)"

text \<open>Writing a one to a flag of TIFR0 clears it, writing a zero leaves it.\<close>

definition TIFR0_write :: "u8 \<Rightarrow> 'z mcu_scheme \<Rightarrow> 'z mcu_scheme" where
  "TIFR0_write v s = s\<lparr>TIFR0 := TIFR0 s AND NOT v\<rparr>"

section \<open>Lemmas\<close>

lemma cli_mcu_sels [hw_frame, simp]:
  "TCCR0A (cli s) = TCCR0A s" "TCCR0B (cli s) = TCCR0B s" "TCNT0 (cli s) = TCNT0 s"
  "OCR0B (cli s) = OCR0B s" "TIMSK0 (cli s) = TIMSK0 s" "TIFR0 (cli s) = TIFR0 s"
  "PRR (cli s) = PRR s" "mcu.more (cli s) = mcu.more s"
  by (simp_all add: cli_def)

lemma sei_mcu_sels [hw_frame, simp]:
  "TCCR0A (sei s) = TCCR0A s" "TCCR0B (sei s) = TCCR0B s" "TCNT0 (sei s) = TCNT0 s"
  "OCR0B (sei s) = OCR0B s" "TIMSK0 (sei s) = TIMSK0 s" "TIFR0 (sei s) = TIFR0 s"
  "PRR (sei s) = PRR s" "mcu.more (sei s) = mcu.more s"
  by (simp_all add: sei_def)

lemma timer0_tick_sels [hw_frame, simp]:
  "R (timer0_tick s) = R s" "SREG (timer0_tick s) = SREG s" "SP (timer0_tick s) = SP s"
  "PC (timer0_tick s) = PC s" "SRAM (timer0_tick s) = SRAM s"
  "TCCR0A (timer0_tick s) = TCCR0A s" "TCCR0B (timer0_tick s) = TCCR0B s"
  "OCR0B (timer0_tick s) = OCR0B s" "TIMSK0 (timer0_tick s) = TIMSK0 s"
  "PRR (timer0_tick s) = PRR s" "mcu.more (timer0_tick s) = mcu.more s"
  "TCNT0 (timer0_tick s) = TCNT0 s + 1"
  by (simp_all add: timer0_tick_def Let_def)

lemma timer0_advance_sels [hw_frame, simp]:
  "R (timer0_advance n s) = R s" "SREG (timer0_advance n s) = SREG s"
  "SP (timer0_advance n s) = SP s" "PC (timer0_advance n s) = PC s"
  "SRAM (timer0_advance n s) = SRAM s" "TCCR0A (timer0_advance n s) = TCCR0A s"
  "TCCR0B (timer0_advance n s) = TCCR0B s" "OCR0B (timer0_advance n s) = OCR0B s"
  "TIMSK0 (timer0_advance n s) = TIMSK0 s" "PRR (timer0_advance n s) = PRR s"
  "mcu.more (timer0_advance n s) = mcu.more s"
  by (induction n arbitrary: s) simp_all

lemma TCNT0_advance [simp]: "TCNT0 (timer0_advance n s) = TCNT0 s + of_nat n"
  by (induction n arbitrary: s) (simp_all add: algebra_simps)

lemma timer0_advance_add:
  "timer0_advance (m + n) s = timer0_advance n (timer0_advance m s)"
  by (induction m arbitrary: s) simp_all

lemma TOV0_tick:
  "bit (TIFR0 (timer0_tick s)) TOV0 \<longleftrightarrow> bit (TIFR0 s) TOV0 \<or> TCNT0 s = 255"
  by (auto simp: timer0_tick_def Let_def bit_simps u8_inc_eq_0)

end
