(* ===== verification/Timer.thy ===== *)
theory Timer
  imports MCU
begin

text \<open>
  The timer driver of \<^verbatim>\<open>src/drivers/timer/timer.h\<close> and \<^verbatim>\<open>timer.cpp\<close>: the enumerations
  with their register encodings and the read-modify-write operations on the timer 0
  control registers. The lemmas show that each operation changes exactly the bits of its
  field and that the field reads back as written.
\<close>

section \<open>Configuration constants\<close>

definition F_CPU :: nat where
  "F_CPU = 16000000"

definition clock_cycles_per_us :: nat where
  "clock_cycles_per_us = F_CPU div 1000000"

definition clock_cycles_to_us :: "nat \<Rightarrow> nat" where
  "clock_cycles_to_us a = a div clock_cycles_per_us"

definition MICROSECONDS_PER_TIMER0_OVERFLOW :: nat where
  "MICROSECONDS_PER_TIMER0_OVERFLOW = clock_cycles_to_us (64 * 256)"

definition MS_INC :: nat where
  "MS_INC = MICROSECONDS_PER_TIMER0_OVERFLOW div 1000"

definition FRACT_INC :: nat where
  "FRACT_INC = drop_bit 3 (MICROSECONDS_PER_TIMER0_OVERFLOW mod 1000)"

definition FRACT_MAX :: nat where
  "FRACT_MAX = drop_bit 3 1000"

section \<open>Enumerations\<close>

datatype timer0_2_waveform_generation_mode_t =
    NORMAL
  | PWM_PHASE_CORRECT
  | CTC
  | FAST_PWM
  | PWM_PHASE_CORRECT_OCRA
  | FAST_PWM_OCRA

fun wgm_value :: "timer0_2_waveform_generation_mode_t \<Rightarrow> u8" where
  "wgm_value NORMAL = 0"
| "wgm_value PWM_PHASE_CORRECT = bv WGM00"
| "wgm_value CTC = bv WGM01"
| "wgm_value FAST_PWM = bv WGM01 OR bv WGM00"
| "wgm_value PWM_PHASE_CORRECT_OCRA = bv WGM02 OR bv WGM00"
| "wgm_value FAST_PWM_OCRA = bv WGM02 OR bv WGM01 OR bv WGM00"

datatype timer0_compare_unit_t = Unit_A | Unit_B

fun compare_unit_value :: "timer0_compare_unit_t \<Rightarrow> u8" where
  "compare_unit_value Unit_A = 0"
| "compare_unit_value Unit_B = 1"

datatype timer0_interrupt_t = COMPA_INTERRUPT | COMPB_INTERRUPT | OVERFLOW_INTERRUPT

fun interrupt_value :: "timer0_interrupt_t \<Rightarrow> u8" where
  "interrupt_value COMPA_INTERRUPT = bv OCIE0A"
| "interrupt_value COMPB_INTERRUPT = bv OCIE0B"
| "interrupt_value OVERFLOW_INTERRUPT = bv TOIE0"

datatype timer0_clock_select_t =
    NO_CLOCK_SOURCE
  | NO_PRESCALER
  | PRESCALER_8
  | PRESCALER_64
  | PRESCALER_256
  | PRESCALER_1024
  | EXTERNAL_CLOCK_SOURCE_FALLING
  | EXTERNAL_CLOCK_SOURCE_RISING

fun clock_select_value :: "timer0_clock_select_t \<Rightarrow> u8" where
  "clock_select_value NO_CLOCK_SOURCE = 0"
| "clock_select_value NO_PRESCALER = bv CS00"
| "clock_select_value PRESCALER_8 = bv CS01"
| "clock_select_value PRESCALER_64 = bv CS01 OR bv CS00"
| "clock_select_value PRESCALER_256 = bv CS02"
| "clock_select_value PRESCALER_1024 = bv CS02 OR bv CS00"
| "clock_select_value EXTERNAL_CLOCK_SOURCE_FALLING = bv CS02 OR bv CS01"
| "clock_select_value EXTERNAL_CLOCK_SOURCE_RISING = bv CS02 OR bv CS01 OR bv CS00"

section \<open>Operations\<close>

definition timer0_set_waveform_generation_mode ::
  "timer0_2_waveform_generation_mode_t \<Rightarrow> 'z mcu_scheme \<Rightarrow> 'z mcu_scheme" where
  "timer0_set_waveform_generation_mode mode s =
     (let s1 = s\<lparr>TCCR0A := (TCCR0A s AND NOT (bv WGM01 OR bv WGM00))
                            OR (wgm_value mode AND (bv WGM01 OR bv WGM00))\<rparr>
      in s1\<lparr>TCCR0B := (TCCR0B s1 AND NOT (bv WGM02)) OR (wgm_value mode AND bv WGM02)\<rparr>)"

definition timer0_set_clock_source ::
  "timer0_clock_select_t \<Rightarrow> 'z mcu_scheme \<Rightarrow> 'z mcu_scheme" where
  "timer0_set_clock_source clock_source s =
     (let s1 = s\<lparr>TCCR0B := TCCR0B s AND NOT (bv CS02 OR bv CS01 OR bv CS00)\<rparr>
      in s1\<lparr>TCCR0B := TCCR0B s1 OR clock_select_value clock_source\<rparr>)"

definition enable_timer0_interrupt ::
  "timer0_interrupt_t \<Rightarrow> 'z mcu_scheme \<Rightarrow> 'z mcu_scheme" where
  "enable_timer0_interrupt interrupt s = s\<lparr>TIMSK0 := TIMSK0 s OR interrupt_value interrupt\<rparr>"

definition disable_timer0_interrupt ::
  "timer0_interrupt_t \<Rightarrow> 'z mcu_scheme \<Rightarrow> 'z mcu_scheme" where
  "disable_timer0_interrupt interrupt s =
     s\<lparr>TIMSK0 := TIMSK0 s AND NOT (interrupt_value interrupt)\<rparr>"

definition enable_timer0 :: "'z mcu_scheme \<Rightarrow> 'z mcu_scheme" where
  "enable_timer0 s = s\<lparr>PRR := PRR s AND NOT (bv PRTIM0)\<rparr>"

definition disable_timer0 :: "'z mcu_scheme \<Rightarrow> 'z mcu_scheme" where
  "disable_timer0 s = s\<lparr>PRR := PRR s OR bv PRTIM0\<rparr>"

section \<open>The register fields as the hardware reads them\<close>

definition wgm_field :: "'z mcu_scheme \<Rightarrow> u8" where
  "wgm_field s = (TCCR0A s AND 0x03) OR (TCCR0B s AND 0x08)"

definition cs_field :: "'z mcu_scheme \<Rightarrow> u8" where
  "cs_field s = TCCR0B s AND 0x07"

definition irq_unmasked :: "timer0_interrupt_t \<Rightarrow> 'z mcu_scheme \<Rightarrow> bool" where
  "irq_unmasked i s \<longleftrightarrow>
     (case i of
        COMPA_INTERRUPT \<Rightarrow> bit (TIMSK0 s) OCIE0A
      | COMPB_INTERRUPT \<Rightarrow> bit (TIMSK0 s) OCIE0B
      | OVERFLOW_INTERRUPT \<Rightarrow> bit (TIMSK0 s) TOIE0)"

section \<open>Constants evaluated\<close>

lemma timer_constants [simp]:
  "clock_cycles_per_us = 16" "MICROSECONDS_PER_TIMER0_OVERFLOW = 1024"
  "MS_INC = 1" "FRACT_INC = 3" "FRACT_MAX = 125"
  by (simp_all add: clock_cycles_per_us_def F_CPU_def MICROSECONDS_PER_TIMER0_OVERFLOW_def
      clock_cycles_to_us_def MS_INC_def FRACT_INC_def FRACT_MAX_def drop_bit_eq_div)

section \<open>Frames\<close>

lemmas timer_op_defs =
  timer0_set_waveform_generation_mode_def timer0_set_clock_source_def
  enable_timer0_interrupt_def disable_timer0_interrupt_def enable_timer0_def disable_timer0_def

text \<open>
  setting the waveform generation mode writes exactly the three WGM bits, which are
  split over two registers: the mode reads back as written, every other bit of TCCR0A and
  TCCR0B keeps its value and no other part of the machine changes.
\<close>

lemma timer0_set_waveform_generation_mode_correct:
  "wgm_field (timer0_set_waveform_generation_mode m s) = wgm_value m
   \<and> TCCR0A (timer0_set_waveform_generation_mode m s) AND 0xFC = TCCR0A s AND 0xFC
   \<and> TCCR0B (timer0_set_waveform_generation_mode m s) AND 0xF7 = TCCR0B s AND 0xF7
   \<and> (timer0_set_waveform_generation_mode m s)\<lparr>TCCR0A := TCCR0A s, TCCR0B := TCCR0B s\<rparr> = s"
proof (intro conjI)
  show "wgm_field (timer0_set_waveform_generation_mode m s) = wgm_value m"
    unfolding wgm_field_def timer_op_defs Let_def
    by (cases m; rule u8_bit_eqI; simp add: bit_simps)
  show "TCCR0A (timer0_set_waveform_generation_mode m s) AND 0xFC = TCCR0A s AND 0xFC"
    unfolding timer_op_defs Let_def by (cases m; rule u8_bit_eqI; simp add: bit_simps)
  show "TCCR0B (timer0_set_waveform_generation_mode m s) AND 0xF7 = TCCR0B s AND 0xF7"
    unfolding timer_op_defs Let_def by (cases m; rule u8_bit_eqI; simp add: bit_simps)
  show "(timer0_set_waveform_generation_mode m s)\<lparr>TCCR0A := TCCR0A s, TCCR0B := TCCR0B s\<rparr> = s"
    by (simp add: timer_op_defs Let_def)
qed

lemma cs_field_set_clock_source:
  "cs_field (timer0_set_clock_source c s) = clock_select_value c"
  unfolding cs_field_def timer_op_defs Let_def
  by (cases c; rule u8_bit_eqI; simp add: bit_simps)

lemma timer0_set_clock_source_frame:
  "TCCR0B (timer0_set_clock_source c s) AND 0xF8 = TCCR0B s AND 0xF8"
  "(timer0_set_clock_source c s)\<lparr>TCCR0B := TCCR0B s\<rparr> = s"
  subgoal
    unfolding timer_op_defs Let_def by (cases c; rule u8_bit_eqI; simp add: bit_simps)
  subgoal by (simp add: timer_op_defs Let_def)
  done

text \<open>
  enabling one timer interrupt unmasks that interrupt and no other, disabling it masks
  it and no other, and neither touches anything but TIMSK0.
\<close>

lemma timer0_interrupt_masking:
  "(irq_unmasked j (enable_timer0_interrupt i s) \<longleftrightarrow> j = i \<or> irq_unmasked j s)
   \<and> (irq_unmasked j (disable_timer0_interrupt i s) \<longleftrightarrow> j \<noteq> i \<and> irq_unmasked j s)
   \<and> (enable_timer0_interrupt i s)\<lparr>TIMSK0 := TIMSK0 s\<rparr> = s
   \<and> (disable_timer0_interrupt i s)\<lparr>TIMSK0 := TIMSK0 s\<rparr> = s"
  by (cases i; cases j; simp add: irq_unmasked_def timer_op_defs bit_simps)

end
