(* ===== verification/Clock.thy ===== *)
theory Clock
  imports Timer
begin

text \<open>
  The timekeeping driver of \<^verbatim>\<open>src/drivers/clock/clock.cpp\<close>: the timer 0 overflow
  interrupt that maintains the millisecond and overflow counters, the two readers and the
  initialisation. The lemmas relate the counters to the number of elapsed timer ticks.
\<close>

section \<open>State\<close>

record clock = mcu +
  timer0_overflow_count :: u32
  timer0_ms :: u32
  timer0_fractional_ms :: u8

section \<open>Operations\<close>

text \<open>The body of \<open>ISR(TIMER0_OVF_vect)\<close>.\<close>

definition TIMER0_OVF_vect :: "'z clock_scheme \<Rightarrow> 'z clock_scheme" where
  "TIMER0_OVF_vect s =
     (let ms = timer0_ms s;
          fract = timer0_fractional_ms s;
          ms = ms + of_nat MS_INC;
          fract = fract + of_nat FRACT_INC;
          (fract, ms) =
            (if fract \<ge> of_nat FRACT_MAX then (fract - of_nat FRACT_MAX, ms + 1)
             else (fract, ms))
      in s\<lparr>timer0_fractional_ms := fract, timer0_ms := ms,
           timer0_overflow_count := timer0_overflow_count s + 1\<rparr>)"

definition get_ms :: "'z clock_scheme \<Rightarrow> u32 \<times> 'z clock_scheme" where
  "get_ms s =
     (let sreg = SREG s;
          s1 = cli s;
          ms = timer0_ms s1
      in (ms, s1\<lparr>SREG := sreg\<rparr>))"

definition get_us :: "'z clock_scheme \<Rightarrow> u32 \<times> 'z clock_scheme" where
  "get_us s =
     (let sreg = SREG s;
          s1 = cli s;
          ms = timer0_overflow_count s1;
          t = TCNT0 s1;
          ms = (if TIFR0 s1 AND bv TOV0 \<noteq> 0 \<and> t < 255 then ms + 1 else ms);
          s2 = s1\<lparr>SREG := sreg\<rparr>
      in ((push_bit 8 ms + ucast t) * of_nat (64 div clock_cycles_per_us), s2))"

definition initialize_clock :: "'z clock_scheme \<Rightarrow> 'z clock_scheme" where
  "initialize_clock s =
     (let sreg = SREG s;
          s1 = cli s;
          s2 = timer0_set_waveform_generation_mode NORMAL s1;
          s3 = timer0_set_clock_source PRESCALER_64 s2;
          s4 = enable_timer0_interrupt OVERFLOW_INTERRUPT s3;
          s5 = enable_timer0 s4
      in s5\<lparr>SREG := sreg\<rparr>)"

text \<open>
  The hardware enters the overflow interrupt when its flag is set and clears the flag on
  the way in.
\<close>

definition take_overflow_irq :: "'z clock_scheme \<Rightarrow> 'z clock_scheme" where
  "take_overflow_irq s = TIMER0_OVF_vect (TIFR0_write (bv TOV0) s)"

primrec overflows :: "nat \<Rightarrow> 'z clock_scheme \<Rightarrow> 'z clock_scheme" where
  "overflows 0 s = s"
| "overflows (Suc n) s = TIMER0_OVF_vect (overflows n s)"

text \<open>
  Runs of the counter and the overflow interrupt: \<open>clock_run s0 n s\<close> says that \<open>s\<close> is
  reached from \<open>s0\<close> after \<open>n\<close> timer ticks, in any interleaving with the interrupt in
  which no second overflow happens while one is still pending.
\<close>

inductive clock_run :: "'z clock_scheme \<Rightarrow> nat \<Rightarrow> 'z clock_scheme \<Rightarrow> bool"
  for s0 :: "'z clock_scheme" where
  start: "clock_run s0 0 s0"
| tick: "clock_run s0 n s \<Longrightarrow> \<not> (bit (TIFR0 s) TOV0 \<and> TCNT0 s = 255) \<Longrightarrow>
    clock_run s0 (Suc n) (timer0_tick s)"
| overflow: "clock_run s0 n s \<Longrightarrow> bit (TIFR0 s) TOV0 \<Longrightarrow> clock_run s0 n (take_overflow_irq s)"

section \<open>Lemmas\<close>

lemma cli_clock_sels [hw_frame, simp]:
  "timer0_overflow_count (cli s) = timer0_overflow_count s" "timer0_ms (cli s) = timer0_ms s"
  "timer0_fractional_ms (cli s) = timer0_fractional_ms s" "clock.more (cli s) = clock.more s"
  by (simp_all add: cli_def)

lemma sei_clock_sels [hw_frame, simp]:
  "timer0_overflow_count (sei s) = timer0_overflow_count s" "timer0_ms (sei s) = timer0_ms s"
  "timer0_fractional_ms (sei s) = timer0_fractional_ms s" "clock.more (sei s) = clock.more s"
  by (simp_all add: sei_def)

lemma TIMER0_OVF_vect_sels [simp]:
  "timer0_overflow_count (TIMER0_OVF_vect s) = timer0_overflow_count s + 1"
  "TCNT0 (TIMER0_OVF_vect s) = TCNT0 s" "TIFR0 (TIMER0_OVF_vect s) = TIFR0 s"
  "SREG (TIMER0_OVF_vect s) = SREG s"
  by (simp_all add: TIMER0_OVF_vect_def Let_def)

lemma get_us_state [simp]: "snd (get_us s) = s"
  by (simp add: get_us_def Let_def)

lemma get_us_value:
  "fst (get_us s) =
     4 * (256 * (timer0_overflow_count s
                 + (if bit (TIFR0 s) TOV0 \<and> TCNT0 s < 255 then 1 else 0))
          + ucast (TCNT0 s))"
  by (simp add: get_us_def Let_def bit_iff_and_push_bit_not_eq_0 push_bit_eq_mult mult.commute)

lemma clock_more_tick [simp]:
  "timer0_overflow_count (timer0_tick s) = timer0_overflow_count s"
  "timer0_ms (timer0_tick s) = timer0_ms s"
  "timer0_fractional_ms (timer0_tick s) = timer0_fractional_ms s"
  by (simp_all add: timer0_tick_def Let_def)

lemma clock_more_advance [simp]:
  "timer0_overflow_count (timer0_advance n s) = timer0_overflow_count s"
  "timer0_ms (timer0_advance n s) = timer0_ms s"
  "timer0_fractional_ms (timer0_advance n s) = timer0_fractional_ms s"
  "clock.more (timer0_advance n s) = clock.more s"
  by (induction n arbitrary: s) (simp_all add: timer0_tick_def Let_def)

text \<open>
  The number of timer ticks that the counters stand for, modulo the width of the
  microsecond counter: a pending overflow stands for 256 ticks.
\<close>

definition elapsed_ticks :: "'z clock_scheme \<Rightarrow> u32" where
  "elapsed_ticks s =
     256 * timer0_overflow_count s + (if bit (TIFR0 s) TOV0 then 256 else 0) + ucast (TCNT0 s)"

lemma ucast_u8_inc: "t \<noteq> 255 \<Longrightarrow> ucast (t + 1) = (ucast t :: u32) + 1" for t :: u8
proof -
  assume "t \<noteq> 255"
  then have "unat t \<noteq> 255"
    by (simp add: word_unat_eq_iff)
  with unat_u8_less [of t] have "unat t + 1 < 256" by linarith
  then show ?thesis
    by (simp add: word_unat_eq_iff unat_word_ariths unsigned_ucast_eq take_bit_eq_mod)
qed

lemma elapsed_ticks_tick:
  assumes "\<not> (bit (TIFR0 s) TOV0 \<and> TCNT0 s = 255)"
  shows "elapsed_ticks (timer0_tick s) = elapsed_ticks s + 1"
proof (cases "TCNT0 s = 255")
  case True
  with assms show ?thesis
    by (simp add: elapsed_ticks_def TOV0_tick)
next
  case False
  then show ?thesis
    by (simp add: elapsed_ticks_def TOV0_tick ucast_u8_inc)
qed

lemma elapsed_ticks_overflow:
  "bit (TIFR0 s) TOV0 \<Longrightarrow> elapsed_ticks (take_overflow_irq s) = elapsed_ticks s"
  by (simp add: elapsed_ticks_def take_overflow_irq_def TIFR0_write_def bit_simps algebra_simps)

lemma clock_run_elapsed:
  "clock_run s0 n s \<Longrightarrow> elapsed_ticks s = elapsed_ticks s0 + of_nat n"
  by (induction rule: clock_run.induct)
    (simp_all add: elapsed_ticks_tick elapsed_ticks_overflow)

lemma get_us_elapsed:
  "fst (get_us s) =
     4 * (elapsed_ticks s - (if bit (TIFR0 s) TOV0 \<and> TCNT0 s = 255 then 256 else 0))"
  by (auto simp: get_us_value elapsed_ticks_def u8_less_255 algebra_simps)

text \<open>The fractional part and the carry of one interrupt, as numbers.\<close>

lemma fract_step:
  assumes "fr < 125"
  shows "(let f = (of_nat fr :: u8) + 3 in
            if f \<ge> 125 then (f - 125, m + 1) else (f, m)) =
         (of_nat ((fr + 3) mod 125), m + of_nat ((fr + 3) div 125))"
proof -
  have u: "unat ((of_nat fr :: u8) + 3) = fr + 3"
    using assms by (simp add: unat_word_ariths unat_of_nat)
  show ?thesis
  proof (cases "fr + 3 < 125")
    case True
    then have "\<not> (of_nat fr :: u8) + 3 \<ge> 125"
      by (simp add: word_le_nat_alt u)
    with True show ?thesis by (simp add: Let_def)
  next
    case False
    with assms have d: "(fr + 3) div 125 = 1" and m: "(fr + 3) mod 125 = fr + 3 - 125"
      by (simp_all add: div_nat_eqI mod_if)
    from False have "(of_nat fr :: u8) + 3 \<ge> 125"
      by (simp add: word_le_nat_alt u)
    moreover have "(of_nat fr :: u8) + 3 - 125 = of_nat (fr + 3 - 125)"
      using False by (simp add: of_nat_diff)
    ultimately show ?thesis by (simp add: Let_def d m)
  qed
qed

lemma TIMER0_OVF_vect_fract:
  assumes "timer0_fractional_ms s = of_nat fr" "fr < 125"
  shows "timer0_fractional_ms (TIMER0_OVF_vect s) = of_nat ((fr + 3) mod 125)"
    and "timer0_ms (TIMER0_OVF_vect s) = timer0_ms s + 1 + of_nat ((fr + 3) div 125)"
  using fract_step [OF assms(2), of "timer0_ms s + 1"] assms(1)
  by (simp_all add: TIMER0_OVF_vect_def Let_def split: if_splits)

text \<open>1024 microseconds are one millisecond and three units of 8 microseconds.\<close>

lemma overflow_us:
  "n * 1024 div 1000 = n + 3 * n div 125"
  "n * 1024 mod 1000 div 8 = 3 * n mod 125" for n :: nat
proof -
  have e: "n * 1024 = 8 * (3 * n) + n * (8 * 125)"
    by simp
  have "n * 1024 div (8 * 125) = n + 8 * (3 * n) div (8 * 125)"
    unfolding e by (subst div_mult_self1) simp_all
  also have "8 * (3 * n) div (8 * 125) = 3 * n div 125"
    by (rule div_mult_mult1) simp
  finally show "n * 1024 div 1000 = n + 3 * n div 125"
    by simp
  have "n * 1024 mod (8 * 125) = 8 * (3 * n) mod (8 * 125)"
    unfolding e by (rule mod_mult_self1)
  also have "\<dots> = 8 * (3 * n mod 125)"
    by (rule mult_mod_right [symmetric])
  finally show "n * 1024 mod 1000 div 8 = 3 * n mod 125"
    by simp
qed

section \<open>Properties\<close>

text \<open>
  C13: the millisecond counter does not drift. After any number of timer overflows (1024
  microseconds each) from a reset clock, \<open>get_ms\<close> is the exact number of whole
  milliseconds elapsed and the fractional counter holds the rest in units of 8
  microseconds, both modulo the width of the variables; the overflow counter counts the
  overflows.
\<close>

theorem clock_no_drift:
  assumes "timer0_ms s = 0" "timer0_fractional_ms s = 0" "timer0_overflow_count s = 0"
  shows "fst (get_ms (overflows n s)) = of_nat (n * 1024 div 1000)
    \<and> timer0_fractional_ms (overflows n s) = of_nat (n * 1024 mod 1000 div 8)
    \<and> timer0_overflow_count (overflows n s) = of_nat n"
proof -
  have "timer0_ms (overflows n s) = of_nat (n + 3 * n div 125)
    \<and> timer0_fractional_ms (overflows n s) = of_nat (3 * n mod 125)
    \<and> timer0_overflow_count (overflows n s) = of_nat n"
  proof (induction n)
    case 0
    with assms show ?case by simp
  next
    case (Suc n)
    have e: "3 * Suc n = (3 * n mod 125 + 3) + 125 * (3 * n div 125)"
      by simp
    have c: "3 * Suc n div 125 = 3 * n div 125 + (3 * n mod 125 + 3) div 125"
      unfolding e by (subst div_mult_self2) simp_all
    have m: "3 * Suc n mod 125 = (3 * n mod 125 + 3) mod 125"
      unfolding e by (rule mod_mult_self2)
    show ?case
      using Suc TIMER0_OVF_vect_fract [of "overflows n s" "3 * n mod 125"]
      by (simp add: c m del: mult_Suc_right)
  qed
  moreover have "n * 1024 div 1000 = n + 3 * n div 125" "n * 1024 mod 1000 div 8 = 3 * n mod 125"
    by (simp_all only: overflow_us)
  ultimately show ?thesis by (simp add: get_ms_def Let_def)
qed

lemma clock_no_drift_witness:
  "\<exists>s :: clock. timer0_ms s = 0 \<and> timer0_fractional_ms s = 0 \<and> timer0_overflow_count s = 0
    \<and> fst (get_ms (overflows 1000 s)) = 1024"
proof -
  let ?s = "\<lparr>R = \<lambda>_. 0, SREG = 0, SP = 0, PC = 0, SRAM = \<lambda>_. 0, TCCR0A = 0, TCCR0B = 0,
      TCNT0 = 0, OCR0B = 0, TIMSK0 = 0, TIFR0 = 0, PRR = 0, timer0_overflow_count = 0,
      timer0_ms = 0, timer0_fractional_ms = 0\<rparr> :: clock"
  show ?thesis
    using clock_no_drift [of ?s 1000] by (intro exI [of _ ?s]) simp
qed


text \<open>A reset machine, and 256 ticks of it: an overflow is pending and not yet serviced.\<close>

definition clock_reset :: clock where
  "clock_reset = \<lparr>R = \<lambda>_. 0, SREG = 0x80, SP = 0x08FF, PC = 0, SRAM = \<lambda>_. 0, TCCR0A = 0,
     TCCR0B = 0, TCNT0 = 0, OCR0B = 0, TIMSK0 = 0, TIFR0 = 0, PRR = 0,
     timer0_overflow_count = 0, timer0_ms = 0, timer0_fractional_ms = 0\<rparr>"

lemma clock_run_advance:
  assumes "\<not> bit (TIFR0 s0) TOV0" "TCNT0 s0 = 0" "n \<le> 256"
  shows "clock_run s0 n (timer0_advance n s0) \<and> (bit (TIFR0 (timer0_advance n s0)) TOV0 \<longleftrightarrow> n = 256)"
  using \<open>n \<le> 256\<close>
proof (induction n)
  case 0
  with assms show ?case by (simp add: clock_run.start)
next
  case (Suc n)
  have a: "timer0_advance (Suc n) s0 = timer0_tick (timer0_advance n s0)"
    using timer0_advance_add [of n 1 s0] by simp
  from Suc have IH: "clock_run s0 n (timer0_advance n s0)"
    and nb: "\<not> bit (TIFR0 (timer0_advance n s0)) TOV0"
    by auto
  have "TCNT0 (timer0_advance n s0) = 255 \<longleftrightarrow> n = 255"
    using Suc.prems assms(2) word_unat_eq_iff [of "of_nat n :: u8" 255]
    by (simp add: unat_of_nat)
  with IH nb Suc.prems show ?case
    unfolding a by (auto intro: clock_run.tick simp: TOV0_tick)
qed


text \<open>
  \<open>initialize_clock\<close> leaves timer 0 powered, in normal mode, counting with prescaler
  64 and with its overflow interrupt unmasked, masks no interrupt that was unmasked, and
  leaves the global interrupt flag as it was.
\<close>

lemma initialize_clock_correct:
  "wgm_field (initialize_clock s) = wgm_value NORMAL
   \<and> cs_field (initialize_clock s) = clock_select_value PRESCALER_64
   \<and> (irq_unmasked i (initialize_clock s) \<longleftrightarrow> i = OVERFLOW_INTERRUPT \<or> irq_unmasked i s)
   \<and> \<not> bit (PRR (initialize_clock s)) PRTIM0
   \<and> (initialize_clock s)\<lparr>TCCR0A := TCCR0A s, TCCR0B := TCCR0B s, TIMSK0 := TIMSK0 s,
       PRR := PRR s\<rparr> = s"
proof (intro conjI)
  show "wgm_field (initialize_clock s) = wgm_value NORMAL"
    unfolding wgm_field_def initialize_clock_def timer_op_defs Let_def
    by (rule u8_bit_eqI; simp add: bit_simps)
  show "cs_field (initialize_clock s) = clock_select_value PRESCALER_64"
    unfolding cs_field_def initialize_clock_def timer_op_defs Let_def
    by (rule u8_bit_eqI; simp add: bit_simps)
  show "irq_unmasked i (initialize_clock s) \<longleftrightarrow> i = OVERFLOW_INTERRUPT \<or> irq_unmasked i s"
    by (cases i; simp add: irq_unmasked_def initialize_clock_def timer_op_defs Let_def bit_simps)
  show "\<not> bit (PRR (initialize_clock s)) PRTIM0"
    by (simp add: initialize_clock_def timer_op_defs Let_def bit_simps)
  show "(initialize_clock s)\<lparr>TCCR0A := TCCR0A s, TCCR0B := TCCR0B s, TIMSK0 := TIMSK0 s,
       PRR := PRR s\<rparr> = s"
    by (simp add: initialize_clock_def timer_op_defs Let_def cli_def)
qed

end
