(* ===== verification/Task.thy ===== *)
theory Task
  imports Clock
begin

text \<open>
  The task structures and the ready list of \<^verbatim>\<open>src/task.h\<close>, \<^verbatim>\<open>src/cpu.h\<close> and
  \<^verbatim>\<open>src/task.cpp\<close>. Task objects live in a store from addresses to records; a C access
  through a pointer that names no task object is a fault. The ready list is the chain of
  \<open>next_node\<close> fields that starts at \<open>ready_list_head\<close>; \<open>ready_list s ps\<close> says that
  this chain visits exactly the tasks \<open>ps\<close>, in this order. Leading underscores of C
  names are dropped.
\<close>

section \<open>Data\<close>

record cpu_registers =
  regs :: "nat \<Rightarrow> u8"
  sp :: u16
  sreg :: u8

datatype task_state_t = READY | RUNNING | BLOCKED | SLEEP | UNDEFINED

record task_stack_t =
  memory_ptr :: ptr
  stack_size :: u16

definition CONF_TASK_NAME_MAX_LENGTH :: nat where
  "CONF_TASK_NAME_MAX_LENGTH = 15"

record task_data_t =
  next_node :: ptr
  name :: "char list"
  state :: task_state_t
  stack :: task_stack_t
  cpu_state :: cpu_registers
  exec_time_us :: u32
  exec_time_overflow_count :: u8
  exec_start_time_us :: u32
  time_slice_ms :: u8

text \<open>
  The byte offsets of the packed structure (\<^verbatim>\<open>-fpack-struct -fshort-enums\<close>), in the
  order of its fields.
\<close>

definition off_next_node :: nat where "off_next_node = 0"
definition off_name :: nat where "off_name = off_next_node + 2"
definition off_state :: nat where "off_state = off_name + CONF_TASK_NAME_MAX_LENGTH"
definition off_stack :: nat where "off_stack = off_state + 1"
definition off_cpu_state :: nat where "off_cpu_state = off_stack + 4"
definition off_regs :: nat where "off_regs = off_cpu_state"
definition off_sp :: nat where "off_sp = off_regs + 32"
definition off_sreg :: nat where "off_sreg = off_sp + 2"

record kernel = clock +
  c_task :: ptr
  ready_list_head :: ptr
  tasks :: "ptr \<rightharpoonup> task_data_t"

definition deref :: "'z kernel_scheme \<Rightarrow> ptr \<Rightarrow> task_data_t outcome" where
  "deref s p = (case tasks s p of None \<Rightarrow> fail Null_deref | Some t \<Rightarrow> ret t)"

definition put_task :: "ptr \<Rightarrow> task_data_t \<Rightarrow> 'z kernel_scheme \<Rightarrow> 'z kernel_scheme" where
  "put_task p t s = s\<lparr>tasks := (tasks s)(p \<mapsto> t)\<rparr>"

section \<open>Operations\<close>

definition get_current_task :: "'z kernel_scheme \<Rightarrow> ptr \<times> 'z kernel_scheme" where
  "get_current_task s =
     (let saved = SREG s; s1 = cli s; task = c_task s1 in (task, s1\<lparr>SREG := saved\<rparr>))"

definition get_task_stack_size :: "'z kernel_scheme \<Rightarrow> ptr \<Rightarrow> u16 outcome" where
  "get_task_stack_size s task = obind (deref s task) (\<lambda>t. ret (stack_size (stack t)))"

definition get_task_stack_usage :: "'z kernel_scheme \<Rightarrow> ptr \<Rightarrow> u16 outcome" where
  "get_task_stack_usage s task =
     obind (deref s task)
       (\<lambda>t. ret (memory_ptr (stack t) + (stack_size (stack t) - 1) - sp (cpu_state t)))"

definition get_head_task :: "'z kernel_scheme \<Rightarrow> ptr" where
  "get_head_task s = ready_list_head s"

definition get_next_task :: "'z kernel_scheme \<Rightarrow> ptr \<Rightarrow> ptr outcome" where
  "get_next_task s task =
     (if task = nullptr then ret nullptr
      else obind (deref s task) (\<lambda>t. ret (next_node t)))"

text \<open>
  The loop reads \<open>seek_head->next_node\<close> before it tests \<open>seek_head\<close> itself. A cyclic
  list makes it run forever, which is the value \<^term>\<open>None\<close>.
\<close>

partial_function (option) find_preceding_loop ::
  "'z kernel_scheme \<Rightarrow> ptr \<Rightarrow> ptr \<Rightarrow> ptr outcome" where
  "find_preceding_loop s target_node seek_head =
     (case deref s seek_head of
        None \<Rightarrow> None
      | Some (Inl e) \<Rightarrow> Some (Inl e)
      | Some (Inr t) \<Rightarrow>
          (if next_node t \<noteq> target_node \<and> seek_head \<noteq> nullptr
           then (case get_next_task s seek_head of
                   None \<Rightarrow> None
                 | Some (Inl e) \<Rightarrow> Some (Inl e)
                 | Some (Inr n) \<Rightarrow> find_preceding_loop s target_node n)
           else Some (Inr seek_head)))"

definition find_preceding_task :: "'z kernel_scheme \<Rightarrow> ptr \<Rightarrow> ptr outcome" where
  "find_preceding_task s target_node =
     (let seek_head = get_head_task s
      in if seek_head = nullptr then ret seek_head
         else find_preceding_loop s target_node seek_head)"

definition get_tail :: "'z kernel_scheme \<Rightarrow> ptr outcome" where
  "get_tail s = find_preceding_task s nullptr"

partial_function (option) find_task_loop ::
  "'z kernel_scheme \<Rightarrow> ptr \<Rightarrow> ptr \<Rightarrow> ptr outcome" where
  "find_task_loop s target_node seek_node =
     (if seek_node \<noteq> nullptr
      then (if seek_node = target_node then Some (Inr seek_node)
            else (case get_next_task s seek_node of
                    None \<Rightarrow> None
                  | Some (Inl e) \<Rightarrow> Some (Inl e)
                  | Some (Inr n) \<Rightarrow> find_task_loop s target_node n))
      else Some (Inr seek_node))"

definition find_task :: "'z kernel_scheme \<Rightarrow> ptr \<Rightarrow> ptr outcome" where
  "find_task s target_node =
     (let seek_node = get_head_task s
      in if seek_node = target_node then ret seek_node
         else find_task_loop s target_node seek_node)"

definition set_next_node :: "ptr \<Rightarrow> ptr \<Rightarrow> 'z kernel_scheme \<Rightarrow> 'z kernel_scheme outcome" where
  "set_next_node p n s = obind (deref s p) (\<lambda>t. ret (put_task p (t\<lparr>next_node := n\<rparr>) s))"

definition add_task :: "ptr \<Rightarrow> 'z kernel_scheme \<Rightarrow> 'z kernel_scheme outcome" where
  "add_task new_node s =
     (if get_head_task s = nullptr then ret (s\<lparr>ready_list_head := new_node\<rparr>)
      else obind (get_tail s) (\<lambda>p. set_next_node p new_node s))"

text \<open>The result is the C return value, \<^term>\<open>False\<close> (0) for success, with the new state.\<close>

definition remove_task_from_ready_list ::
  "ptr \<Rightarrow> 'z kernel_scheme \<Rightarrow> (bool \<times> 'z kernel_scheme) outcome" where
  "remove_task_from_ready_list task s =
     (if task = nullptr then ret (True, s)
      else if task = get_head_task s
      then obind (get_next_task s task) (\<lambda>n. ret (False, s\<lparr>ready_list_head := n\<rparr>))
      else
        obind (find_preceding_task s task) (\<lambda>preceding_task.
        obind (get_next_task s task) (\<lambda>next_task.
        obind (set_next_node preceding_task next_task s) (\<lambda>s1.
        obind (set_next_node task nullptr s1) (\<lambda>s2. ret (False, s2))))))"

definition set_task_state :: "ptr \<Rightarrow> task_state_t \<Rightarrow> 'z kernel_scheme \<Rightarrow> 'z kernel_scheme outcome" where
  "set_task_state task st s =
     (if task = nullptr then ret s
      else obind (deref s task) (\<lambda>t. ret (put_task task (t\<lparr>state := st\<rparr>) s)))"

section \<open>The ready list as a sequence of tasks\<close>

fun task_path :: "(ptr \<rightharpoonup> task_data_t) \<Rightarrow> ptr \<Rightarrow> ptr list \<Rightarrow> ptr \<Rightarrow> bool" where
  "task_path h p [] q \<longleftrightarrow> p = q"
| "task_path h p (x # xs) q \<longleftrightarrow>
     p = x \<and> x \<noteq> nullptr \<and>
     (case h x of None \<Rightarrow> False | Some t \<Rightarrow> task_path h (next_node t) xs q)"

definition ready_list :: "'z kernel_scheme \<Rightarrow> ptr list \<Rightarrow> bool" where
  "ready_list s ps \<longleftrightarrow> distinct ps \<and> task_path (tasks s) (ready_list_head s) ps nullptr"

lemma task_path_append:
  "task_path h p (xs @ ys) q \<longleftrightarrow> (\<exists>r. task_path h p xs r \<and> task_path h r ys q)"
  by (induction xs arbitrary: p) (auto split: option.splits)

lemma task_path_upd [simp]:
  "x \<notin> set ps \<Longrightarrow> task_path (h(x := v)) p ps q = task_path h p ps q"
  by (induction ps arbitrary: p) (auto split: option.splits)

lemma task_path_nonnull: "task_path h p ps q \<Longrightarrow> x \<in> set ps \<Longrightarrow> x \<noteq> nullptr \<and> h x \<noteq> None"
  by (induction ps arbitrary: p) (auto split: option.splits)

lemma task_path_eq_heap:
  "(\<And>x. x \<in> set ps \<Longrightarrow> map_option next_node (h x) = map_option next_node (h' x)) \<Longrightarrow>
   task_path h p ps q = task_path h' p ps q"
  by (induction ps arbitrary: p) (force split: option.splits)+

lemma ready_list_member:
  "ready_list s ps \<Longrightarrow> p \<in> set ps \<Longrightarrow> p \<noteq> nullptr \<and> (\<exists>t. tasks s p = Some t)"
  unfolding ready_list_def using task_path_nonnull [of "tasks s" _ ps _ p] by auto

lemma ready_list_distinct: "ready_list s ps \<Longrightarrow> distinct ps"
  by (simp add: ready_list_def)

lemma ready_list_Nil [simp]: "ready_list s [] \<longleftrightarrow> ready_list_head s = nullptr"
  by (simp add: ready_list_def)

lemma ready_list_Cons_head: "ready_list s (p # ps) \<Longrightarrow> ready_list_head s = p"
  by (simp add: ready_list_def)

text \<open>The node after \<open>p\<close> in the chain is what its \<open>next_node\<close> field says.\<close>

lemma ready_list_next:
  assumes "ready_list s (xs @ p # ys)"
  shows "\<exists>t. tasks s p = Some t \<and> next_node t = (case ys of [] \<Rightarrow> nullptr | y # _ \<Rightarrow> y)"
  using assms unfolding ready_list_def
  by (cases ys) (auto simp: task_path_append split: option.splits)

lemma get_next_task_ready:
  "ready_list s (xs @ p # ys) \<Longrightarrow>
   get_next_task s p = ret (case ys of [] \<Rightarrow> nullptr | y # _ \<Rightarrow> y)"
  using ready_list_next [of s xs p ys] ready_list_member [of s "xs @ p # ys" p]
  by (auto simp: get_next_task_def deref_def)

section \<open>The interface of the ready list\<close>

text \<open>
  What a scheduling algorithm may rely on: the first task, the successor of a task, and
  that the null pointer marks the end.
\<close>

locale task_sequence =
  fixes repr :: "'s \<Rightarrow> ptr list \<Rightarrow> bool"
    and first :: "'s \<Rightarrow> ptr"
    and succ_of :: "'s \<Rightarrow> ptr \<Rightarrow> ptr outcome"
  assumes first_Cons: "repr s (p # ps) \<Longrightarrow> first s = p"
    and succ_of_mid: "repr s (xs @ p # q # ys) \<Longrightarrow> succ_of s p = ret q"
    and succ_of_last: "repr s (xs @ [p]) \<Longrightarrow> succ_of s p = ret nullptr"
    and repr_nonnull: "repr s ps \<Longrightarrow> p \<in> set ps \<Longrightarrow> p \<noteq> nullptr"
begin

lemma succ_of_nth:
  assumes "repr s ps" "Suc i < length ps"
  shows "succ_of s (ps ! i) = ret (ps ! Suc i)"
proof (rule succ_of_mid)
  have "ps = take i ps @ ps ! i # ps ! Suc i # drop (Suc (Suc i)) ps"
    using assms(2) by (metis Cons_nth_drop_Suc Suc_lessD append_take_drop_id)
  with assms(1) show "repr s (take i ps @ ps ! i # ps ! Suc i # drop (Suc (Suc i)) ps)"
    by simp
qed

text \<open>The successor, with the first task after the last one, cycles through the tasks.\<close>

lemma cyclic_successor:
  assumes r: "repr s ps" and i: "i < length ps"
  shows "obind (succ_of s (ps ! i)) (\<lambda>n. ret (if n = nullptr then first s else n)) =
         ret (ps ! (Suc i mod length ps))"
proof (cases "Suc i = length ps")
  case True
  then have split: "ps = take i ps @ [ps ! i]"
    using i by (metis lessI take_Suc_conv_app_nth take_all_iff order_refl)
  have "succ_of s (ps ! i) = ret nullptr"
    using r split by (metis succ_of_last)
  moreover from i have "ps = ps ! 0 # tl ps"
    by (cases ps) auto
  then have "first s = ps ! 0"
    using r by (metis first_Cons)
  ultimately show ?thesis using True by simp
next
  case False
  with i have "Suc i < length ps" by simp
  with succ_of_nth [OF r this] repr_nonnull [OF r, of "ps ! Suc i"] show ?thesis
    by simp
qed

end

interpretation ready: task_sequence ready_list get_head_task get_next_task
proof
  fix s :: "'z kernel_scheme" and p q :: ptr and xs ys ps :: "ptr list"
  show "get_head_task s = p" if "ready_list s (p # ps)"
    using that by (simp add: get_head_task_def ready_list_def)
  show "get_next_task s p = ret q" if "ready_list s (xs @ p # q # ys)"
    using get_next_task_ready [OF that] by simp
  show "get_next_task s p = ret nullptr" if "ready_list s (xs @ [p])"
    using get_next_task_ready [OF that] by simp
  show "p \<noteq> nullptr" if "ready_list s ps" "p \<in> set ps"
    using ready_list_member [OF that] by simp
qed

section \<open>Walking the list\<close>

lemma find_preceding_loop_at:
  "tasks s p = Some t \<Longrightarrow> next_node t = target \<Longrightarrow> find_preceding_loop s target p = ret p"
  by (subst find_preceding_loop.simps) (simp add: deref_def ret_def)

lemma find_preceding_loop_next:
  "tasks s p = Some t \<Longrightarrow> next_node t \<noteq> target \<Longrightarrow> p \<noteq> nullptr \<Longrightarrow>
   find_preceding_loop s target p = find_preceding_loop s target (next_node t)"
  by (subst find_preceding_loop.simps) (simp add: deref_def get_next_task_def ret_def obind_def)

lemma find_preceding_loop_null:
  "tasks s p = None \<Longrightarrow> find_preceding_loop s target p = fail Null_deref"
  by (subst find_preceding_loop.simps) (simp add: deref_def fail_def)

lemma find_preceding_loop_found:
  assumes "task_path (tasks s) p (xs @ [a]) target" "target \<notin> set (xs @ [a])"
  shows "find_preceding_loop s target p = ret a"
  using assms
proof (induction xs arbitrary: p)
  case Nil
  then show ?case by (auto simp: find_preceding_loop_at split: option.splits)
next
  case (Cons x xs)
  then obtain t where t: "tasks s x = Some t" "p = x" "x \<noteq> nullptr"
    and path: "task_path (tasks s) (next_node t) (xs @ [a]) target"
    by (auto split: option.splits)
  from path have "next_node t \<in> set (xs @ [a])"
    by (cases xs) auto
  with Cons.prems(2) have "next_node t \<noteq> target" by auto
  with t Cons.IH [OF path] Cons.prems(2) show ?case
    by (simp add: find_preceding_loop_next)
qed

lemma find_preceding_loop_missing:
  assumes "task_path (tasks s) p ps nullptr" "target \<noteq> nullptr" "target \<notin> set ps"
    and "tasks s nullptr = None"
  shows "find_preceding_loop s target p = fail Null_deref"
  using assms(1,3)
proof (induction ps arbitrary: p)
  case Nil
  with assms(4) show ?case by (simp add: find_preceding_loop_null)
next
  case (Cons x xs)
  then obtain t where t: "tasks s x = Some t" "p = x" "x \<noteq> nullptr"
    and path: "task_path (tasks s) (next_node t) xs nullptr"
    by (auto split: option.splits)
  from path assms(2) Cons.prems(2) have "next_node t \<noteq> target"
    by (cases xs) auto
  with t Cons.IH [OF path] Cons.prems(2) show ?case
    by (simp add: find_preceding_loop_next)
qed

lemma find_task_loop_eq:
  "task_path (tasks s) p ps nullptr \<Longrightarrow>
   find_task_loop s target p = ret (if target \<in> set ps then target else nullptr)"
proof (induction ps arbitrary: p)
  case Nil
  then show ?case by (subst find_task_loop.simps) (simp add: ret_def)
next
  case (Cons x xs)
  then obtain t where t: "tasks s x = Some t" "p = x" "x \<noteq> nullptr"
    and path: "task_path (tasks s) (next_node t) xs nullptr"
    by (auto split: option.splits)
  with Cons.IH [OF path] show ?case
    by (subst find_task_loop.simps) (simp add: get_next_task_def deref_def ret_def obind_def)
qed

lemma get_tail_ready:
  "ready_list s (xs @ [p]) \<Longrightarrow> get_tail s = ret p"
  using find_preceding_loop_found [of s "ready_list_head s" xs p nullptr]
    task_path_nonnull [of "tasks s" "ready_list_head s" "xs @ [p]" nullptr]
  by (cases xs) (auto simp: get_tail_def find_preceding_task_def get_head_task_def ready_list_def)

lemma find_preceding_task_ready:
  assumes "ready_list s (xs @ a # p # ys)"
  shows "find_preceding_task s p = ret a"
proof -
  have path: "task_path (tasks s) (ready_list_head s) (xs @ [a]) p"
    using assms by (auto simp: ready_list_def task_path_append split: option.splits)
  moreover have "p \<notin> set (xs @ [a])"
    using ready_list_distinct [OF assms] by auto
  moreover have "ready_list_head s \<noteq> nullptr"
    using path by (cases xs) auto
  ultimately show ?thesis
    by (simp add: find_preceding_task_def get_head_task_def find_preceding_loop_found)
qed

section \<open>Example states\<close>

text \<open>A task object with a given successor, and a kernel with three linked tasks.\<close>

definition blank_task :: "ptr \<Rightarrow> task_data_t" where
  "blank_task n = \<lparr>next_node = n, name = replicate 15 (CHR 0x00), state = READY,
     stack = \<lparr>memory_ptr = 0, stack_size = 0\<rparr>,
     cpu_state = \<lparr>regs = \<lambda>_. 0, sp = 0, sreg = 0\<rparr>,
     exec_time_us = 0, exec_time_overflow_count = 0, exec_start_time_us = 0,
     time_slice_ms = 0\<rparr>"

definition kernel_reset :: kernel where
  "kernel_reset = \<lparr>R = \<lambda>_. 0, SREG = 0x80, SP = 0x08FF, PC = 0, SRAM = \<lambda>_. 0, TCCR0A = 0,
     TCCR0B = 0, TCNT0 = 0, OCR0B = 0, TIMSK0 = 0, TIFR0 = 0, PRR = 0,
     timer0_overflow_count = 0, timer0_ms = 0, timer0_fractional_ms = 0,
     c_task = nullptr, ready_list_head = nullptr, tasks = Map.empty\<rparr>"

definition three_tasks :: kernel where
  "three_tasks = kernel_reset\<lparr>c_task := 0x200, ready_list_head := 0x100,
     tasks := [0x100 \<mapsto> blank_task 0x200, 0x200 \<mapsto> blank_task 0x300,
               0x300 \<mapsto> blank_task nullptr, 0x400 \<mapsto> blank_task nullptr]\<rparr>"

lemma ready_list_three_tasks: "ready_list three_tasks [0x100, 0x200, 0x300]"
  by (simp add: ready_list_def three_tasks_def blank_task_def)

section \<open>Properties\<close>

lemma set_next_node_Some:
  "tasks s p = Some t \<Longrightarrow> set_next_node p n s = ret (put_task p (t\<lparr>next_node := n\<rparr>) s)"
  by (simp add: set_next_node_def deref_def)

lemma put_task_sels [simp]:
  "ready_list_head (put_task p t s) = ready_list_head s" "c_task (put_task p t s) = c_task s"
  "tasks (put_task p t s) = (tasks s)(p \<mapsto> t)" "SREG (put_task p t s) = SREG s"
  "SRAM (put_task p t s) = SRAM s" "R (put_task p t s) = R s" "SP (put_task p t s) = SP s"
  by (simp_all add: put_task_def)

text \<open>
  \<open>_add_task\<close> appends. If the ready list holds \<open>ps\<close>, adding a task object that is
  not in it and ends the chain returns normally and leaves the list \<open>ps @ [p]\<close>; the only
  field written is the head pointer (empty list) or the \<open>next_node\<close> of the old tail.
\<close>

lemma add_task_appends:
  assumes r: "ready_list s ps" and t: "tasks s p = Some t" "next_node t = nullptr"
    and p: "p \<noteq> nullptr" "p \<notin> set ps"
  shows "\<exists>s'. add_task p s = ret s' \<and> ready_list s' (ps @ [p])
    \<and> s' = (if ps = [] then s\<lparr>ready_list_head := p\<rparr>
            else put_task (last ps) ((the (tasks s (last ps)))\<lparr>next_node := p\<rparr>) s)"
proof (cases ps rule: rev_cases)
  case Nil
  with r t p show ?thesis
    by (simp add: add_task_def get_head_task_def ready_list_def)
next
  case (snoc xs a)
  from r have "ready_list s (xs @ [a])" by (simp add: snoc)
  moreover from this obtain ta where ta: "tasks s a = Some ta" "next_node ta = nullptr"
    using ready_list_next [of s xs a "[]"] by auto
  moreover have "get_head_task s \<noteq> nullptr"
    using r ready_list_member [OF r]
    by (cases xs) (auto simp: snoc get_head_task_def ready_list_def)
  ultimately have eq: "add_task p s = ret (put_task a (ta\<lparr>next_node := p\<rparr>) s)"
    using get_tail_ready [of s xs a] by (simp add: add_task_def set_next_node_Some)
  have "task_path (tasks s) (ready_list_head s) xs a" "a \<noteq> nullptr" "distinct (xs @ [a])"
    using r by (auto simp: snoc ready_list_def task_path_append split: option.splits)
  with t p have "ready_list (put_task a (ta\<lparr>next_node := p\<rparr>) s) (ps @ [p])"
    by (auto simp: snoc ready_list_def task_path_append split: option.splits)
  with eq ta show ?thesis by (simp add: snoc)
qed

text \<open>
  \<open>_remove_task_from_ready_list\<close> removes. If the task is in the ready list, the call
  reports success, leaves the list without it and in the same order, and changes no field
  of any task but \<open>next_node\<close>; in particular the current task stays the current task.
\<close>

lemma remove_task_from_ready_list_removes:
  assumes r: "ready_list s ps" and p: "p \<in> set ps"
  shows "\<exists>s'. remove_task_from_ready_list p s = ret (False, s') \<and> ready_list s' (remove1 p ps)
    \<and> c_task s' = c_task s
    \<and> (\<forall>q. map_option (\<lambda>t. t\<lparr>next_node := 0\<rparr>) (tasks s' q) =
           map_option (\<lambda>t. t\<lparr>next_node := 0\<rparr>) (tasks s q))"
proof -
  from p obtain xs ys where ps: "ps = xs @ p # ys" by (meson split_list)
  note dist = ready_list_distinct [OF r]
  have rm: "remove1 p ps = xs @ ys"
    using dist by (simp add: ps remove1_append)
  let ?n = "case ys of [] \<Rightarrow> nullptr | y # _ \<Rightarrow> y"
  obtain t where t: "tasks s p = Some t" "next_node t = ?n" "p \<noteq> nullptr"
    using ready_list_next [of s xs p ys] ready_list_member [OF r p] r by (auto simp: ps)
  have nx: "get_next_task s p = ret ?n"
    using r by (simp add: ps get_next_task_ready)
  have tail: "task_path (tasks s) ?n ys nullptr"
    using r t by (auto simp: ps ready_list_def task_path_append split: option.splits)
  show ?thesis
  proof (cases xs rule: rev_cases)
    case Nil
    with r have "get_head_task s = p" by (simp add: ps get_head_task_def ready_list_def)
    with nx t have "remove_task_from_ready_list p s = ret (False, s\<lparr>ready_list_head := ?n\<rparr>)"
      by (simp add: remove_task_from_ready_list_def)
    with tail dist show ?thesis by (simp add: rm Nil ps ready_list_def)
  next
    case (snoc zs a)
    from r have ra: "ready_list s (zs @ a # p # ys)" by (simp add: ps snoc)
    obtain ta where ta: "tasks s a = Some ta" "a \<noteq> nullptr"
      using ready_list_next [OF ra] ready_list_member [OF ra, of a] by auto
    have "get_head_task s \<noteq> p"
      using ra dist by (cases zs) (auto simp: ps snoc get_head_task_def ready_list_def)
    moreover have ap: "a \<noteq> p" using dist by (auto simp: ps snoc)
    ultimately have eq: "remove_task_from_ready_list p s =
        ret (False, put_task p (t\<lparr>next_node := nullptr\<rparr>) (put_task a (ta\<lparr>next_node := ?n\<rparr>) s))"
      using t ta nx find_preceding_task_ready [OF ra]
      by (simp add: remove_task_from_ready_list_def set_next_node_Some)
    have "task_path (tasks s) (ready_list_head s) zs a"
      using ra by (auto simp: ready_list_def task_path_append split: option.splits)
    with tail dist ta have
      "ready_list (put_task p (t\<lparr>next_node := nullptr\<rparr>) (put_task a (ta\<lparr>next_node := ?n\<rparr>) s)) (xs @ ys)"
      by (auto simp: ps snoc ready_list_def task_path_append)
    with eq t ta ap show ?thesis by (auto simp: rm)
  qed
qed

text \<open>
  Removing a task that is not in the ready list never reports an error. The walk of
  \<open>_find_preceding_task\<close> reads \<open>next_node\<close> of the pointer before it tests the pointer, so
  it dereferences the null pointer at the end of the list; on an empty list the write to
  the predecessor does. Only the null task itself is refused.
\<close>

lemma remove_task_not_listed_faults:
  assumes r: "ready_list s ps" and p: "p \<notin> set ps" and null: "tasks s nullptr = None"
  shows "remove_task_from_ready_list p s =
    (if p = nullptr then ret (True, s) else fail Null_deref)"
proof (cases "p = nullptr")
  case True
  then show ?thesis by (simp add: remove_task_from_ready_list_def)
next
  case False
  have nh: "get_head_task s \<noteq> p"
    using r p False by (cases ps) (auto simp: get_head_task_def ready_list_def)
  show ?thesis
  proof (cases "ready_list_head s = nullptr")
    case True
    then have "find_preceding_task s p = ret nullptr"
      by (simp add: find_preceding_task_def get_head_task_def)
    moreover have "get_next_task s p = fail Null_deref \<or> (\<exists>n. get_next_task s p = ret n)"
      by (auto simp: get_next_task_def deref_def split: option.splits)
    ultimately show ?thesis
      using False nh null by (auto simp: remove_task_from_ready_list_def set_next_node_def deref_def)
  next
    case nonempty: False
    have "find_preceding_task s p = fail Null_deref"
      using find_preceding_loop_missing [of s "ready_list_head s" ps p] r p False null nonempty
      by (simp add: find_preceding_task_def get_head_task_def ready_list_def)
    with False nh show ?thesis by (simp add: remove_task_from_ready_list_def)
  qed
qed

lemma remove_task_not_listed_faults_example:
  "remove_task_from_ready_list 0x400 three_tasks = fail Null_deref"
  using remove_task_not_listed_faults [OF ready_list_three_tasks, of "0x400"]
  by (simp add: three_tasks_def)

text \<open>
  C23: \<open>_find_task\<close> terminates and is a membership test: it returns its argument if the
  task is in the ready list and the null pointer otherwise; \<open>_get_tail\<close> returns the last
  task, and the null pointer on an empty list.
\<close>

theorem find_task_and_tail:
  assumes "ready_list s ps"
  shows "find_task s p = ret (if p \<in> set ps then p else nullptr)
    \<and> get_tail s = ret (if ps = [] then nullptr else last ps)"
proof
  show "find_task s p = ret (if p \<in> set ps then p else nullptr)"
    using assms find_task_loop_eq [of s "ready_list_head s" ps p]
    by (cases ps) (auto simp: find_task_def get_head_task_def ready_list_def)
  show "get_tail s = ret (if ps = [] then nullptr else last ps)"
    using assms get_tail_ready [of s "butlast ps" "last ps"]
    by (cases "ps = []") (simp_all add: get_tail_def find_preceding_task_def get_head_task_def)
qed

lemma find_task_and_tail_witness:
  "find_task three_tasks 0x300 = ret 0x300 \<and> find_task three_tasks 0x400 = ret nullptr
   \<and> get_tail three_tasks = ret 0x300"
  using find_task_and_tail [OF ready_list_three_tasks, of "0x300"]
    find_task_and_tail [OF ready_list_three_tasks, of "0x400"] by simp

end
