(* ===== verification/Sched.thy ===== *)
theory Sched
  imports Task
begin

text \<open>
  The round robin algorithm of \<^verbatim>\<open>src/drivers/scheduling/sched.cpp\<close>, the only scheduling
  algorithm the build configures. The lemmas show that it cycles through the ready list.
\<close>

definition schedule_round_robin :: "'z kernel_scheme \<Rightarrow> 'z kernel_scheme outcome" where
  "schedule_round_robin s =
     obind (get_next_task s (c_task s)) (\<lambda>node.
       let node = (if node = nullptr then get_head_task s else node)
       in ret (s\<lparr>c_task := node\<rparr>))"

primrec rounds :: "nat \<Rightarrow> 'z kernel_scheme \<Rightarrow> 'z kernel_scheme outcome" where
  "rounds 0 s = ret s"
| "rounds (Suc n) s = obind (rounds n s) schedule_round_robin"

lemma schedule_round_robin_nth:
  assumes "ready_list s ps" "i < length ps" "c_task s = ps ! i"
  shows "schedule_round_robin s = ret (s\<lparr>c_task := ps ! (Suc i mod length ps)\<rparr>)"
proof -
  have "schedule_round_robin s =
      obind (obind (get_next_task s (ps ! i)) (\<lambda>n. ret (if n = nullptr then get_head_task s else n)))
        (\<lambda>n. ret (s\<lparr>c_task := n\<rparr>))"
    by (simp add: schedule_round_robin_def assms(3) obind_assoc Let_def)
  then show ?thesis
    using ready.cyclic_successor [OF assms(1,2)] by simp
qed

lemma ready_list_c_task [simp]: "ready_list (s\<lparr>c_task := p\<rparr>) ps = ready_list s ps"
  by (simp add: ready_list_def)

lemma rounds_nth:
  assumes "ready_list s ps" "i < length ps" "c_task s = ps ! i"
  shows "rounds k s = ret (s\<lparr>c_task := ps ! ((i + k) mod length ps)\<rparr>)"
proof (induction k)
  case 0
  then show ?case using assms by simp
next
  case (Suc k)
  let ?j = "(i + k) mod length ps"
  have "?j < length ps" by (rule mod_less_divisor) (use assms(2) in linarith)
  then have "schedule_round_robin (s\<lparr>c_task := ps ! ?j\<rparr>) =
      ret (s\<lparr>c_task := ps ! (Suc ?j mod length ps)\<rparr>)"
    using schedule_round_robin_nth [of "s\<lparr>c_task := ps ! ?j\<rparr>" ps ?j] assms(1) by simp
  then show ?case by (simp add: Suc.IH mod_Suc_eq)
qed

text \<open>
  C5: the scheduler is a fair round robin. With \<open>n\<close> tasks in the ready list and the
  current task among them, \<open>k\<close> scheduling decisions move the current task \<open>k\<close> places
  along the list, cyclically, and change nothing else; so every ready task is chosen
  exactly once in any \<open>n\<close> consecutive decisions.
\<close>

theorem round_robin_fair:
  assumes r: "ready_list s ps" and i: "i < length ps" "c_task s = ps ! i"
  shows "rounds k s = ret (s\<lparr>c_task := ps ! ((i + k) mod length ps)\<rparr>)
    \<and> (\<forall>p \<in> set ps. \<exists>!d. 1 \<le> d \<and> d \<le> length ps \<and> rounds (k + d) s = ret (s\<lparr>c_task := p\<rparr>))"
proof (intro conjI ballI)
  show "rounds k s = ret (s\<lparr>c_task := ps ! ((i + k) mod length ps)\<rparr>)"
    by (rule rounds_nth [OF assms])
next
  fix p
  assume "p \<in> set ps"
  then obtain j where j: "j < length ps" "p = ps ! j" by (metis in_set_conv_nth)
  have inj: "s\<lparr>c_task := a\<rparr> = s\<lparr>c_task := b\<rparr> \<longleftrightarrow> a = b" for a b
    by (metis (no_types, lifting) kernel.select_convs(1) kernel.surjective kernel.update_convs(1))
  have run: "rounds (k + d) s = ret (s\<lparr>c_task := p\<rparr>) \<longleftrightarrow> (i + k + d) mod length ps = j" for d
  proof -
    have "(i + (k + d)) mod length ps < length ps"
      by (rule mod_less_divisor) (use i in linarith)
    then show ?thesis
      using j ready_list_distinct [OF r]
      by (simp add: rounds_nth [OF assms] inj nth_eq_iff_index_eq add.assoc)
  qed
  show "\<exists>!d. 1 \<le> d \<and> d \<le> length ps \<and> rounds (k + d) s = ret (s\<lparr>c_task := p\<rparr>)"
    unfolding run by (rule unique_offset [OF j(1)])
qed

lemma round_robin_fair_witness:
  "rounds 2 three_tasks = ret (three_tasks\<lparr>c_task := 0x100\<rparr>)"
  using round_robin_fair [OF ready_list_three_tasks, of 1 2] by (simp add: three_tasks_def)

end
