(* ===== verification/Kernel.thy ===== *)
theory Kernel
  imports Sched
begin

text \<open>
  The context switch of \<^verbatim>\<open>src/kernel.cpp\<close>: the two assembly blocks that save and restore
  a task's processor state, instruction by instruction; the accounting of execution time;
  the preemption interrupt, \<open>yield\<close>, \<open>soft_yield\<close> and the start of the kernel. The
  lemmas show that the assembly saves and restores the complete processor state and that
  preemption is transparent to the preempted task.
\<close>

section \<open>Timer compare value\<close>

text \<open>\<^term>\<open>None\<close> is a failed \<open>static_assert\<close>, which stops the compilation.\<close>

definition freq_to_timer_comp_value :: "nat \<Rightarrow> nat \<Rightarrow> u8 option" where
  "freq_to_timer_comp_value freq prescaler =
     (if \<not> 0 < freq then None
      else if prescaler \<notin> {1, 8, 64, 256, 1024} then None
      else let raw = int (F_CPU div (prescaler * freq)) - 4
           in if raw < 0 then None
              else if raw > 255 then None
              else Some (word_of_int raw))"

definition CONTEXT_SWITCH_TICKS :: u8 where
  "CONTEXT_SWITCH_TICKS = the (freq_to_timer_comp_value 1000 64)"

section \<open>Execution time\<close>

definition calculate_task_execution_time ::
  "ptr \<Rightarrow> 'z kernel_scheme \<Rightarrow> 'z kernel_scheme outcome" where
  "calculate_task_execution_time task s =
     (if task = nullptr then ret s
      else
        let (current_time, s1) = get_us s in
        obind (deref s1 task) (\<lambda>t.
          let exec_time =
                (if current_time \<ge> exec_start_time_us t
                 then current_time - exec_start_time_us t
                 else (0xFFFFFFFF - exec_start_time_us t) + current_time + 1);
              t' = (if exec_time_us t > 0xFFFFFFFF - exec_time
                    then t\<lparr>exec_time_overflow_count := exec_time_overflow_count t + 1,
                           exec_time_us := exec_time\<rparr>
                    else t\<lparr>exec_time_us := exec_time_us t + exec_time\<rparr>)
          in ret (put_task task t' s1)))"

section \<open>Saving and restoring the processor state\<close>

text \<open>The only global variable the assembly blocks name.\<close>

datatype kernel_symbol = C_TASK

fun task_byte :: "nat \<Rightarrow> task_data_t \<Rightarrow> u8 option" where
  "task_byte q t =
     (let c = cpu_state t in
      if off_regs \<le> q \<and> q < off_regs + 32 then Some (regs c (q - off_regs))
      else if q = off_sp then Some (lo8 (sp c))
      else if q = off_sp + 1 then Some (hi8 (sp c))
      else if q = off_sreg then Some (sreg c)
      else None)"

fun put_task_byte :: "nat \<Rightarrow> u8 \<Rightarrow> task_data_t \<Rightarrow> task_data_t option" where
  "put_task_byte q v t =
     (let c = cpu_state t in
      if off_regs \<le> q \<and> q < off_regs + 32
      then Some (t\<lparr>cpu_state := c\<lparr>regs := (regs c)(q - off_regs := v)\<rparr>\<rparr>)
      else if q = off_sp then Some (t\<lparr>cpu_state := c\<lparr>sp := join16 (hi8 (sp c)) v\<rparr>\<rparr>)
      else if q = off_sp + 1 then Some (t\<lparr>cpu_state := c\<lparr>sp := join16 v (lo8 (sp c))\<rparr>\<rparr>)
      else if q = off_sreg then Some (t\<lparr>cpu_state := c\<lparr>sreg := v\<rparr>\<rparr>)
      else None)"

definition kernel_bus :: "(kernel_symbol, 'z kernel_scheme) bus" where
  "kernel_bus = \<lparr>
     sym_rd = (\<lambda>_ k s. if k = 0 then Some (lo8 (c_task s))
                       else if k = 1 then Some (hi8 (c_task s)) else None),
     ptr_rd = (\<lambda>p q s. Option.bind (tasks s p) (task_byte q)),
     ptr_wr = (\<lambda>p q v s. Option.bind (tasks s p)
                (\<lambda>t. map_option (\<lambda>t'. put_task p t' s) (put_task_byte q v t)))\<rparr>"

definition SAVE_CTX :: "kernel_symbol instr list" where
  "SAVE_CTX =
     [CLI,
      PUSH 29,
      PUSH 30,
      PUSH 31,
      LDS 30 C_TASK 0,
      LDS 31 C_TASK 1,
      IN_IO 29 IO_SREG,
      STDZ off_sreg 29,
      POP 29,
      STDZ (off_regs + 31) 29,
      POP 29,
      STDZ (off_regs + 30) 29,
      POP 29,
      STDZ (off_regs + 29) 29,
      IN_IO 29 IO_SPL,
      STDZ off_sp 29,
      IN_IO 29 IO_SPH,
      STDZ (off_sp + 1) 29,
      STDZ (off_regs + 0) 0,
      STDZ (off_regs + 1) 1,
      STDZ (off_regs + 2) 2,
      STDZ (off_regs + 3) 3,
      STDZ (off_regs + 4) 4,
      STDZ (off_regs + 5) 5,
      STDZ (off_regs + 6) 6,
      STDZ (off_regs + 7) 7,
      STDZ (off_regs + 8) 8,
      STDZ (off_regs + 9) 9,
      STDZ (off_regs + 10) 10,
      STDZ (off_regs + 11) 11,
      STDZ (off_regs + 12) 12,
      STDZ (off_regs + 13) 13,
      STDZ (off_regs + 14) 14,
      STDZ (off_regs + 15) 15,
      STDZ (off_regs + 16) 16,
      STDZ (off_regs + 17) 17,
      STDZ (off_regs + 18) 18,
      STDZ (off_regs + 19) 19,
      STDZ (off_regs + 20) 20,
      STDZ (off_regs + 21) 21,
      STDZ (off_regs + 22) 22,
      STDZ (off_regs + 23) 23,
      STDZ (off_regs + 24) 24,
      STDZ (off_regs + 25) 25,
      STDZ (off_regs + 26) 26,
      STDZ (off_regs + 27) 27,
      STDZ (off_regs + 28) 28]"

definition RESTORE_CTX :: "kernel_symbol instr list" where
  "RESTORE_CTX =
     [LDS 30 C_TASK 0,
      LDS 31 C_TASK 1,
      LDDZ 29 off_sreg,
      OUT_IO IO_SREG 29,
      LDDZ 28 off_sp,
      LDDZ 29 (off_sp + 1),
      OUT_IO IO_SPL 28,
      OUT_IO IO_SPH 29,
      LDDZ 28 (off_regs + 30),
      LDDZ 29 (off_regs + 30 + 1),
      PUSH 28,
      PUSH 29,
      LDDZ 0 (off_regs + 0),
      LDDZ 1 (off_regs + 1),
      LDDZ 2 (off_regs + 2),
      LDDZ 3 (off_regs + 3),
      LDDZ 4 (off_regs + 4),
      LDDZ 5 (off_regs + 5),
      LDDZ 6 (off_regs + 6),
      LDDZ 7 (off_regs + 7),
      LDDZ 8 (off_regs + 8),
      LDDZ 9 (off_regs + 9),
      LDDZ 10 (off_regs + 10),
      LDDZ 11 (off_regs + 11),
      LDDZ 12 (off_regs + 12),
      LDDZ 13 (off_regs + 13),
      LDDZ 14 (off_regs + 14),
      LDDZ 15 (off_regs + 15),
      LDDZ 16 (off_regs + 16),
      LDDZ 17 (off_regs + 17),
      LDDZ 18 (off_regs + 18),
      LDDZ 19 (off_regs + 19),
      LDDZ 20 (off_regs + 20),
      LDDZ 21 (off_regs + 21),
      LDDZ 22 (off_regs + 22),
      LDDZ 23 (off_regs + 23),
      LDDZ 24 (off_regs + 24),
      LDDZ 25 (off_regs + 25),
      LDDZ 26 (off_regs + 26),
      LDDZ 27 (off_regs + 27),
      LDDZ 28 (off_regs + 28),
      LDDZ 29 (off_regs + 29),
      POP 31,
      POP 30]"

text \<open>An assembly block inside a C function; an access outside the known objects is a fault.\<close>

definition asm :: "kernel_symbol instr list \<Rightarrow> 'z kernel_scheme \<Rightarrow> 'z kernel_scheme outcome" where
  "asm is s = (case exec kernel_bus is s of None \<Rightarrow> fail Null_deref | Some s' \<Rightarrow> ret s')"

section \<open>Task switches\<close>

text \<open>
  The compiled C statements between the assembly blocks leave unpredictable values in the
  registers, and the timer runs on while they execute. \<open>junk\<close> is the register file they
  leave and \<open>d1\<close>, \<open>d2\<close>, \<open>d3\<close> are the timer ticks that pass before the three reads of
  the counter; every property below holds for all of them.
\<close>

definition set_exec_start :: "'z kernel_scheme \<Rightarrow> 'z kernel_scheme outcome" where
  "set_exec_start s =
     (let (us, s1) = get_us s in
      obind (deref s1 (c_task s1)) (\<lambda>t.
        ret (put_task (c_task s1) (t\<lparr>exec_start_time_us := us\<rparr>) s1)))"

definition rearm_compare :: "'z kernel_scheme \<Rightarrow> 'z kernel_scheme" where
  "rearm_compare s = s\<lparr>OCR0B := CONTEXT_SWITCH_TICKS + TCNT0 s\<rparr>"

definition TIMER0_COMPB_vect ::
  "(nat \<Rightarrow> u8) \<Rightarrow> nat \<Rightarrow> nat \<Rightarrow> nat \<Rightarrow> 'z kernel_scheme \<Rightarrow> 'z kernel_scheme outcome" where
  "TIMER0_COMPB_vect junk d1 d2 d3 s =
     obind (asm SAVE_CTX s) (\<lambda>s.
     obind (asm [CLR 1] s) (\<lambda>s.
     let s = timer0_advance d1 s in
     obind (calculate_task_execution_time (c_task s) s) (\<lambda>s.
     obind (schedule_round_robin s) (\<lambda>s.
     let s = rearm_compare (timer0_advance d2 s) in
     obind (set_exec_start (timer0_advance d3 s)) (\<lambda>s.
     obind (asm RESTORE_CTX (s\<lparr>R := junk\<rparr>)) (\<lambda>s.
     ret (do_reti s)))))))"

definition kernel_init_timer :: "'z kernel_scheme \<Rightarrow> 'z kernel_scheme" where
  "kernel_init_timer s =
     (let saved = SREG s;
          s = cli s;
          s = enable_timer0_interrupt COMPB_INTERRUPT s;
          s = s\<lparr>OCR0B := CONTEXT_SWITCH_TICKS + TCNT0 s\<rparr>
      in s\<lparr>SREG := saved\<rparr>)"

definition kernel_start :: "'z kernel_scheme \<Rightarrow> 'z kernel_scheme outcome" where
  "kernel_start s =
     obind (asm RESTORE_CTX (kernel_init_timer s)) (\<lambda>s. ret (do_ret s))"

definition soft_yield :: "'z kernel_scheme \<Rightarrow> 'z kernel_scheme" where
  "soft_yield s = s\<lparr>OCR0B := TCNT0 s\<rparr>"

text \<open>\<open>TIFR0 |= 1 << OCF0B\<close> reads the flags and writes them back with OCF0B set.\<close>

definition clear_compare_flag :: "'z kernel_scheme \<Rightarrow> 'z kernel_scheme" where
  "clear_compare_flag s =
     (if TIFR0 s AND bv OCF0B \<noteq> 0 then TIFR0_write (TIFR0 s OR bv OCF0B) s else s)"

definition yield ::
  "(nat \<Rightarrow> u8) \<Rightarrow> nat \<Rightarrow> nat \<Rightarrow> nat \<Rightarrow> 'z kernel_scheme \<Rightarrow> 'z kernel_scheme outcome" where
  "yield junk d1 d2 d3 s =
     obind (asm SAVE_CTX s) (\<lambda>s.
     obind (asm [CLR 1] s) (\<lambda>s.
     let s = timer0_advance d1 s in
     obind (calculate_task_execution_time (c_task s) s) (\<lambda>s.
     obind (schedule_round_robin s) (\<lambda>s.
     let s = rearm_compare (timer0_advance d2 s) in
     let s = clear_compare_flag (timer0_advance d3 s) in
     obind (set_exec_start s) (\<lambda>s.
     obind (asm RESTORE_CTX (s\<lparr>R := junk\<rparr>)) (\<lambda>s.
     ret (do_ret (sei s))))))))"

section \<open>The assembly blocks\<close>

lemma offsets [simp]: "off_regs = 22" "off_sp = 54" "off_sreg = 56"
  by (simp_all add: off_regs_def off_sp_def off_sreg_def off_cpu_state_def off_stack_def
      off_state_def off_name_def off_next_node_def CONF_TASK_NAME_MAX_LENGTH_def)

definition snapshot :: "'z kernel_scheme \<Rightarrow> cpu_registers \<Rightarrow> cpu_registers" where
  "snapshot s c = c\<lparr>sreg := SREG s AND 0x7F, sp := SP s,
     regs := (\<lambda>i. if i < 32 then R s i else regs c i)\<rparr>"

lemma kernel_bus_sels [simp]:
  "sym_rd kernel_bus g k s =
     (if k = 0 then Some (lo8 (c_task s)) else if k = 1 then Some (hi8 (c_task s)) else None)"
  "ptr_rd kernel_bus p q s = Option.bind (tasks s p) (task_byte q)"
  "ptr_wr kernel_bus p q v s = Option.bind (tasks s p)
     (\<lambda>t. map_option (\<lambda>t'. put_task p t' s) (put_task_byte q v t))"
  by (simp_all add: kernel_bus_def)

lemma exec_store_regs:
  assumes "\<And>i. i \<in> set is \<Longrightarrow> i < 32" "tasks s (Z_reg s) = Some t"
  shows "exec kernel_bus (map (\<lambda>i. STDZ (off_regs + i) i) is) s =
    Some (put_task (Z_reg s) (t\<lparr>cpu_state := (cpu_state t)\<lparr>regs :=
      (\<lambda>i. if i \<in> set is then R s i else regs (cpu_state t) i)\<rparr>\<rparr>) s)"
  using assms
proof (induction "is" arbitrary: s t)
  case Nil
  then show ?case by (simp add: put_task_def fun_upd_idem)
next
  case (Cons i "is")
  let ?t = "t\<lparr>cpu_state := (cpu_state t)\<lparr>regs := (regs (cpu_state t))(i := R s i)\<rparr>\<rparr>"
  have "exec_instr kernel_bus (STDZ (off_regs + i) i) s = Some (put_task (Z_reg s) ?t s)"
    using Cons.prems by (simp add: Let_def)
  moreover have "Z_reg (put_task (Z_reg s) ?t s) = Z_reg s"
    by (simp add: Z_reg_def)
  ultimately show ?case
    using Cons.IH [of "put_task (Z_reg s) ?t s" ?t] Cons.prems
    by (auto simp: put_task_def fun_eq_iff intro!: arg_cong [where f = "\<lambda>f. kernel.tasks_update f s"]) 
qed


lemma exec_load_regs:
  assumes "\<And>i. i \<in> set is \<Longrightarrow> i < 30" "tasks s (Z_reg s) = Some t"
  shows "exec kernel_bus (map (\<lambda>i. LDDZ i (off_regs + i)) is) s =
    Some (s\<lparr>R := (\<lambda>i. if i \<in> set is then regs (cpu_state t) i else R s i)\<rparr>)"
  using assms
proof (induction "is" arbitrary: s)
  case Nil
  then show ?case by simp
next
  case (Cons i "is")
  let ?s = "set_reg i (regs (cpu_state t) i) s"
  have i: "i < 30" using Cons.prems by simp
  have "exec_instr kernel_bus (LDDZ i (off_regs + i)) s = Some ?s"
    using Cons.prems(2) i by (simp add: Let_def)
  moreover have "Z_reg ?s = Z_reg s"
    using i by (simp add: Z_reg_def set_reg_def)
  ultimately show ?case
    using Cons.IH [of ?s] Cons.prems by (auto simp: set_reg_def fun_eq_iff)
qed

lemma SAVE_CTX_split:
  "SAVE_CTX = take 18 SAVE_CTX @ map (\<lambda>i. STDZ (off_regs + i) i) [0..<29]"
  by (simp add: SAVE_CTX_def upt_rec)

lemma RESTORE_CTX_split:
  "RESTORE_CTX = take 12 RESTORE_CTX @ map (\<lambda>i. LDDZ i (off_regs + i)) [0..<30] @ [POP 31, POP 30]"
  by (simp add: RESTORE_CTX_def upt_rec)

lemma save_head:
  assumes "tasks s (c_task s) = Some t"
  shows "exec kernel_bus (take 18 SAVE_CTX) s =
    Some (put_task (c_task s)
      (t\<lparr>cpu_state := (cpu_state t)\<lparr>sreg := SREG s AND 0x7F,
          regs := (regs (cpu_state t))(31 := R s 31, 30 := R s 30, 29 := R s 29),
          sp := SP s\<rparr>\<rparr>)
      (s\<lparr>SREG := SREG s AND 0x7F,
         R := (R s)(29 := hi8 (SP s), 30 := lo8 (c_task s), 31 := hi8 (c_task s)),
         SRAM := (SRAM s)(SP s := R s 29, SP s - 1 := R s 30, SP s - 2 := R s 31)\<rparr>))"
  using assms
  by (simp add: SAVE_CTX_def set_reg_def Z_reg_def push_byte_def pop_byte_def cli_def put_task_def Let_def fun_upd_twist)

definition saved :: "'z kernel_scheme \<Rightarrow> task_data_t \<Rightarrow> 'z kernel_scheme" where
  "saved s t = put_task (c_task s) (t\<lparr>cpu_state := snapshot s (cpu_state t)\<rparr>)
      (s\<lparr>SREG := SREG s AND 0x7F,
         R := (R s)(29 := hi8 (SP s), 30 := lo8 (c_task s), 31 := hi8 (c_task s)),
         SRAM := (SRAM s)(SP s := R s 29, SP s - 1 := R s 30, SP s - 2 := R s 31)\<rparr>)"


lemma save_ctx:
  assumes t: "tasks s (c_task s) = Some t"
  shows "exec kernel_bus SAVE_CTX s = Some (saved s t)"
proof -
  let ?t = "t\<lparr>cpu_state := (cpu_state t)\<lparr>sreg := SREG s AND 0x7F,
          regs := (regs (cpu_state t))(31 := R s 31, 30 := R s 30, 29 := R s 29),
          sp := SP s\<rparr>\<rparr>"
  let ?m = "put_task (c_task s) ?t (s\<lparr>SREG := SREG s AND 0x7F,
         R := (R s)(29 := hi8 (SP s), 30 := lo8 (c_task s), 31 := hi8 (c_task s)),
         SRAM := (SRAM s)(SP s := R s 29, SP s - 1 := R s 30, SP s - 2 := R s 31)\<rparr>)"
  have Z: "Z_reg ?m = c_task s" by (simp add: Z_reg_def)
  have "exec kernel_bus SAVE_CTX s = exec kernel_bus (map (\<lambda>i. STDZ (off_regs + i) i) [0..<29]) ?m"
    by (subst SAVE_CTX_split, subst exec_append, subst save_head [OF t]) (simp del: offsets)
  also have "\<dots> = Some (saved s t)"
  proof -
    have all: "(\<lambda>i. if i \<in> set [0..<29] then R ?m i else regs (cpu_state ?t) i) =
        (\<lambda>i. if i < 32 then R s i else regs (cpu_state t) i)"
    proof
      fix i :: nat
      consider "i < 29" | "i = 29" | "i = 30" | "i = 31" | "32 \<le> i" by linarith
      then show "(if i \<in> set [0..<29] then R ?m i else regs (cpu_state ?t) i) =
          (if i < 32 then R s i else regs (cpu_state t) i)"
        by cases simp_all
    qed
    have "tasks ?m (Z_reg ?m) = Some ?t" unfolding Z by simp
    then have "exec kernel_bus (map (\<lambda>i. STDZ (off_regs + i) i) [0..<29]) ?m =
        Some (put_task (Z_reg ?m) (?t\<lparr>cpu_state := (cpu_state ?t)\<lparr>regs :=
          (\<lambda>i. if i \<in> set [0..<29] then R ?m i else regs (cpu_state ?t) i)\<rparr>\<rparr>) ?m)"
      by (intro exec_store_regs) simp_all
    also have "\<dots> = Some (saved s t)"
      unfolding all Z by (simp add: saved_def snapshot_def put_task_def)
    finally show ?thesis .
  qed
  finally show ?thesis .
qed

definition restored :: "'z kernel_scheme \<Rightarrow> task_data_t \<Rightarrow> 'z kernel_scheme" where
  "restored s t = (let c = cpu_state t in
     s\<lparr>R := (\<lambda>i. if i < 32 then regs c i else R s i), SREG := sreg c, SP := sp c,
       SRAM := (SRAM s)(sp c := regs c 30, sp c - 1 := regs c 31)\<rparr>)"

lemma restore_head:
  assumes "tasks s (c_task s) = Some t"
  shows "exec kernel_bus (take 12 RESTORE_CTX) s =
    Some (s\<lparr>
         R := (R s)(28 := regs (cpu_state t) 30, 29 := regs (cpu_state t) 31, 30 := lo8 (c_task s), 31 := hi8 (c_task s)),
       SREG := sreg (cpu_state t), SP := sp (cpu_state t) - 2,
         SRAM := (SRAM s)(sp (cpu_state t) := regs (cpu_state t) 30, sp (cpu_state t) - 1 := regs (cpu_state t) 31)\<rparr>)"
  using assms
  by (simp add: RESTORE_CTX_def set_reg_def Z_reg_def push_byte_def pop_byte_def cli_def put_task_def Let_def fun_upd_twist)

lemma restore_ctx:
  assumes t: "tasks s (c_task s) = Some t"
  shows "exec kernel_bus RESTORE_CTX s = Some (restored s t)"
proof -
  let ?c = "cpu_state t"
  let ?m = "s\<lparr>R := (R s)(28 := regs ?c 30, 29 := regs ?c 31, 30 := lo8 (c_task s), 31 := hi8 (c_task s)),
       SREG := sreg ?c, SP := sp ?c - 2,
       SRAM := (SRAM s)(sp ?c := regs ?c 30, sp ?c - 1 := regs ?c 31)\<rparr>"
  have Z: "Z_reg ?m = c_task s" by (simp add: Z_reg_def)
  have "exec kernel_bus RESTORE_CTX s =
      exec kernel_bus (map (\<lambda>i. LDDZ i (off_regs + i)) [0..<30] @ [POP 31, POP 30]) ?m"
    by (subst RESTORE_CTX_split, subst exec_append, subst restore_head [OF t]) (simp del: offsets)
  also have "\<dots> = Some (restored s t)"
  proof -
    have all: "(\<lambda>i. if i \<in> set [0..<30] then regs ?c i else R ?m i)(31 := regs ?c 31, 30 := regs ?c 30) =
        (\<lambda>i. if i < 32 then regs ?c i else R s i)"
    proof
      fix i :: nat
      consider "i < 30" | "i = 30" | "i = 31" | "32 \<le> i" by linarith
      then show "((\<lambda>i. if i \<in> set [0..<30] then regs ?c i else R ?m i)
          (31 := regs ?c 31, 30 := regs ?c 30)) i = (if i < 32 then regs ?c i else R s i)"
        by cases simp_all
    qed
    have "tasks ?m (Z_reg ?m) = Some t" unfolding Z by (simp add: t)
    then have ld: "exec kernel_bus (map (\<lambda>i. LDDZ i (off_regs + i)) [0..<30]) ?m =
        Some (?m\<lparr>R := \<lambda>i. if i \<in> set [0..<30] then regs ?c i else R ?m i\<rparr>)"
      by (intro exec_load_regs) simp_all
    show ?thesis
      unfolding exec_append ld
      by (simp add: restored_def pop_byte_def set_reg_def Let_def flip: all)
  qed
  finally show ?thesis .
qed

section \<open>A task switch\<close>

lemma kernel_frame_sels [hw_frame, simp]:
  "c_task (timer0_advance n s) = c_task s" "ready_list_head (timer0_advance n s) = ready_list_head s"
  "tasks (timer0_advance n s) = tasks s"
  by (induction n arbitrary: s) (simp_all add: timer0_tick_def Let_def)

lemma kernel_reg_sels [simp]:
  "c_task (set_reg r v s) = c_task s" "ready_list_head (set_reg r v s) = ready_list_head s"
  "tasks (set_reg r v s) = tasks s" "SRAM (set_reg r v s) = SRAM s"
  by (simp_all add: set_reg_def)

definition account :: "u32 \<Rightarrow> task_data_t \<Rightarrow> task_data_t" where
  "account now t =
     (let e = now - exec_start_time_us t
      in if exec_time_us t > 0xFFFFFFFF - e
         then t\<lparr>exec_time_overflow_count := exec_time_overflow_count t + 1, exec_time_us := e\<rparr>
         else t\<lparr>exec_time_us := exec_time_us t + e\<rparr>)"

lemma account_sels [simp]:
  "cpu_state (account now t) = cpu_state t" "next_node (account now t) = next_node t"
  "stack (account now t) = stack t"  "exec_start_time_us (account now t) = exec_start_time_us t"
  by (simp_all add: account_def Let_def)

lemma calculate_task_execution_time_eq:
  assumes "task \<noteq> nullptr" "tasks s task = Some t"
  shows "calculate_task_execution_time task s = ret (put_task task (account (fst (get_us s)) t) s)"
proof -
  have wrap: "(0xFFFFFFFF - b) + a + 1 = a - b" for a b :: u32
    by simp
  show ?thesis
    using assms get_us_state [of s]
    by (simp add: calculate_task_execution_time_def account_def deref_def Let_def wrap split_beta)
qed

lemma ready_list_put_task:
  assumes "tasks s p = Some t" "next_node t' = next_node t"
  shows "ready_list (put_task p t' s) ps = ready_list s ps"
proof -
  have "task_path (tasks (put_task p t' s)) h ps q = task_path (tasks s) h ps q" for h q
    by (rule task_path_eq_heap) (use assms in auto)
  then show ?thesis by (simp add: ready_list_def)
qed

lemma ready_list_cong:
  "tasks s' = tasks s \<Longrightarrow> ready_list_head s' = ready_list_head s \<Longrightarrow>
   ready_list s' ps = ready_list s ps"
  by (simp add: ready_list_def)

text \<open>What a switch from task \<open>p\<close> to task \<open>q\<close> leaves before the new context is loaded.\<close>

definition switched :: "'z kernel_scheme \<Rightarrow> task_data_t \<Rightarrow> ptr \<Rightarrow> 'z kernel_scheme \<Rightarrow> bool" where
  "switched s t q x \<longleftrightarrow>
     c_task x = q \<and> SRAM x = SRAM (saved s t) \<and>
     (\<forall>r. map_option cpu_state (tasks x r) = map_option cpu_state (tasks (saved s t) r)) \<and>
     (\<forall>ps. ready_list x ps = ready_list s ps)"

lemma saved_sels [simp]:
  "c_task (saved s t) = c_task s" "ready_list_head (saved s t) = ready_list_head s"
  "tasks (saved s t) = (tasks s)(c_task s \<mapsto> t\<lparr>cpu_state := snapshot s (cpu_state t)\<rparr>)"
  "SRAM (saved s t) = (SRAM s)(SP s := R s 29, SP s - 1 := R s 30, SP s - 2 := R s 31)"
  by (simp_all add: saved_def)

lemma asm_save: "tasks s (c_task s) = Some t \<Longrightarrow> asm SAVE_CTX s = ret (saved s t)"
  by (simp add: asm_def save_ctx)

lemma asm_restore: "tasks s (c_task s) = Some t \<Longrightarrow> asm RESTORE_CTX s = ret (restored s t)"
  by (simp add: asm_def restore_ctx)

lemma asm_clr:
  "asm [CLR n] s = ret (set_reg n 0 (s\<lparr>SREG := (SREG s AND NOT 0x1C) OR 0x02\<rparr>))"
  by (simp add: asm_def)

lemma set_exec_start_eq:
  "tasks s (c_task s) = Some t \<Longrightarrow>
   set_exec_start s = ret (put_task (c_task s) (t\<lparr>exec_start_time_us := fst (get_us s)\<rparr>) s)"
  using get_us_state [of s] by (simp add: set_exec_start_def deref_def split_beta)

lemma clear_compare_flag_sels [simp]:
  "c_task (clear_compare_flag s) = c_task s" "ready_list_head (clear_compare_flag s) = ready_list_head s"
  "tasks (clear_compare_flag s) = tasks s" "SRAM (clear_compare_flag s) = SRAM s"
  by (simp_all add: clear_compare_flag_def TIFR0_write_def)

lemma rearm_compare_sels [simp]:
  "c_task (rearm_compare s) = c_task s" "ready_list_head (rearm_compare s) = ready_list_head s"
  "tasks (rearm_compare s) = tasks s" "SRAM (rearm_compare s) = SRAM s"
  by (simp_all add: rearm_compare_def)

text \<open>The C statements of both switches: accounting, scheduling, then \<open>k\<close>, then the new start time.\<close>

lemma switch_body:
  assumes r: "ready_list s ps" and i: "i < length ps" "c_task s = ps ! i"
    and t: "tasks s (c_task s) = Some t"
    and k: "\<And>x. c_task (k x) = c_task x" "\<And>x. ready_list_head (k x) = ready_list_head x"
      "\<And>x. tasks (k x) = tasks x" "\<And>x. SRAM (k x) = SRAM x"
  shows "\<exists>x tq. obind (asm SAVE_CTX s) (\<lambda>s. obind (asm [CLR 1] s) (\<lambda>s.
        let s = timer0_advance d1 s in
        obind (calculate_task_execution_time (c_task s) s) (\<lambda>s.
        obind (schedule_round_robin s) (\<lambda>s. obind (set_exec_start (k s)) f)))) = f x
    \<and> switched s t (ps ! (Suc i mod length ps)) x \<and> tasks x (c_task x) = Some tq"
proof -
  let ?q = "ps ! (Suc i mod length ps)"
  let ?s1 = "saved s t"
  let ?t1 = "t\<lparr>cpu_state := snapshot s (cpu_state t)\<rparr>"
  let ?s2 = "timer0_advance d1 (set_reg 1 0 (?s1\<lparr>SREG := (SREG ?s1 AND NOT 0x1C) OR 0x02\<rparr>))"
  have nn: "c_task s \<noteq> nullptr" using ready_list_member [OF r, of "c_task s"] i by simp
  let ?t2 = "account (fst (get_us ?s2)) ?t1"
  let ?s3 = "put_task (c_task s) ?t2 ?s2"
  have s2: "tasks ?s2 (c_task s) = Some ?t1" "ready_list_head ?s2 = ready_list_head s" by simp_all
  have rs1: "ready_list ?s1 qs = ready_list s qs" for qs
    using ready_list_put_task [OF t, of ?t1] ready_list_cong [of ?s1 "put_task (c_task s) ?t1 s"] by simp
  have rs2: "ready_list ?s2 qs = ready_list s qs" for qs
    using rs1 ready_list_cong [of ?s2 ?s1] by simp
  have rs3: "ready_list ?s3 qs = ready_list s qs" for qs
    using rs2 ready_list_put_task [OF s2(1), of ?t2] by simp
  have sched: "schedule_round_robin ?s3 = ret (?s3\<lparr>c_task := ?q\<rparr>)"
    using schedule_round_robin_nth [of ?s3 ps i] rs3 r i by simp
  let ?s4 = "k (?s3\<lparr>c_task := ?q\<rparr>)"
  have rs4: "ready_list ?s4 qs = ready_list s qs" for qs
    using rs3 ready_list_cong [of ?s4 ?s3] k by simp
  have "?q \<in> set ps" using i by (intro nth_mem mod_less_divisor) linarith
  then obtain tq where tq: "tasks ?s4 ?q = Some tq"
    using ready_list_member [of ?s4 ps ?q] rs4 r by auto
  let ?x = "put_task ?q (tq\<lparr>exec_start_time_us := fst (get_us ?s4)\<rparr>) ?s4"
  have "obind (asm SAVE_CTX s) (\<lambda>s. obind (asm [CLR 1] s) (\<lambda>s.
        let s = timer0_advance d1 s in
        obind (calculate_task_execution_time (c_task s) s) (\<lambda>s.
        obind (schedule_round_robin s) (\<lambda>s. obind (set_exec_start (k s)) f)))) = f ?x"
    using calculate_task_execution_time_eq [OF nn s2(1)] sched set_exec_start_eq [of ?s4 tq] tq k
    by (simp add: asm_save [OF t] asm_clr Let_def)
  moreover have "switched s t ?q ?x"
    unfolding switched_def
  proof (intro conjI allI)
    show "map_option cpu_state (tasks ?x r) = map_option cpu_state (tasks (saved s t) r)" for r
      using tq by (auto simp: k)
    show "ready_list ?x qs = ready_list s qs" for qs
      using ready_list_put_task [OF tq] rs4 by simp
  qed (simp_all add: k)
  ultimately show ?thesis by (intro exI [of _ ?x]) (auto simp: k)
qed

definition task_context :: "'z kernel_scheme \<Rightarrow> ptr \<Rightarrow> cpu_registers option" where
  "task_context s p = map_option cpu_state (tasks s p)"

definition hands_over :: "'z kernel_scheme \<Rightarrow> ptr \<Rightarrow> 'z kernel_scheme \<Rightarrow> bool" where
  "hands_over s q s' \<longleftrightarrow>
     c_task s' = q \<and>
     (\<forall>ps. ready_list s' ps = ready_list s ps) \<and>
     task_context s' (c_task s) = map_option (snapshot s) (task_context s (c_task s)) \<and>
     (\<forall>r. r \<noteq> c_task s \<longrightarrow> task_context s' r = task_context s r) \<and>
     (\<exists>c. task_context s' q = Some c \<and>
       (\<forall>r < 32. R s' r = regs c r) \<and> SP s' = sp c + 2 \<and> SREG s' = sreg c OR 0x80 \<and>
       SRAM s' = (SRAM s)(SP s := R s 29, SP s - 1 := R s 30, SP s - 2 := R s 31,
                          sp c := regs c 30, sp c - 1 := regs c 31) \<and>
       PC s' = join16 (SRAM s' (sp c + 1)) (SRAM s' (sp c + 2)))"

lemma ready_list_frame [simp]:
  "ready_list (sei s) ps = ready_list s ps" "ready_list (do_ret s) ps = ready_list s ps"
  "ready_list (restored s t) ps = ready_list s ps" "ready_list (s\<lparr>R := f\<rparr>) ps = ready_list s ps"
  by (simp_all add: ready_list_def sei_def do_ret_def pop_byte_def restored_def Let_def)

lemma task_frame [simp]:
  "tasks (sei s) = tasks s" "tasks (do_ret s) = tasks s" "tasks (restored s t) = tasks s"
  "c_task (sei s) = c_task s" "c_task (do_ret s) = c_task s" "c_task (restored s t) = c_task s"
  by (simp_all add: sei_def do_ret_def pop_byte_def restored_def Let_def)

lemma hands_overI:
  assumes t: "tasks s (c_task s) = Some t" and x: "switched s t q x" "tasks x q = Some tq"
    and y: "y = sei (do_ret (restored (x\<lparr>R := junk\<rparr>) tq))"
  shows "hands_over s q y"
proof -
  let ?c = "cpu_state tq"
  have ctx: "task_context y r = map_option cpu_state (tasks (saved s t) r)" for r
    using x(1) by (simp add: y switched_def task_context_def)
  have c: "task_context y q = Some ?c"
    using x by (simp add: y task_context_def)
  have x': "SRAM x = SRAM (saved s t)" "c_task x = q" "\<And>ps. ready_list x ps = ready_list s ps"
    using x(1) by (auto simp: switched_def)
  have cpu: "\<forall>r < 32. R y r = regs ?c r" "SP y = sp ?c + 2" "SREG y = sreg ?c OR 0x80"
    "PC y = join16 (SRAM y (sp ?c + 1)) (SRAM y (sp ?c + 2))"
    "SRAM y = (SRAM s)(SP s := R s 29, SP s - 1 := R s 30, SP s - 2 := R s 31,
                       sp ?c := regs ?c 30, sp ?c - 1 := regs ?c 31)"
    by (simp_all add: y restored_def Let_def x'(1))
  have kern: "c_task y = q" "\<And>ps. ready_list y ps = ready_list s ps"
    "task_context y (c_task s) = map_option (snapshot s) (task_context s (c_task s))"
    "\<And>r. r \<noteq> c_task s \<Longrightarrow> task_context y r = task_context s r"
    using x'(2,3) t by (simp_all add: ctx) (simp_all add: task_context_def y)
  show ?thesis
    unfolding hands_over_def using c cpu kern by blast
qed

lemma do_ret_sei: "do_ret (sei s) = sei (do_ret s)"
  by (simp add: do_ret_def sei_def pop_byte_def)

lemma TIMER0_COMPB_vect_hands_over:
  assumes r: "ready_list s ps" and i: "i < length ps" "c_task s = ps ! i"
  shows "\<exists>s'. TIMER0_COMPB_vect junk d1 d2 d3 s = ret s' \<and> hands_over s (ps ! (Suc i mod length ps)) s'"
proof -
  obtain t where t: "tasks s (c_task s) = Some t"
    using ready_list_member [OF r, of "c_task s"] i by auto
  obtain x tq where x: "TIMER0_COMPB_vect junk d1 d2 d3 s =
      obind (asm RESTORE_CTX (x\<lparr>R := junk\<rparr>)) (\<lambda>s. ret (do_reti s))"
    "switched s t (ps ! (Suc i mod length ps)) x" "tasks x (c_task x) = Some tq"
    using switch_body [OF r i t, of "\<lambda>s. timer0_advance d3 (rearm_compare (timer0_advance d2 s))" d1
      "\<lambda>s. obind (asm RESTORE_CTX (s\<lparr>R := junk\<rparr>)) (\<lambda>s. ret (do_reti s))"]
    by (auto simp: TIMER0_COMPB_vect_def Let_def)
  then show ?thesis
    using hands_overI [OF t x(2)] asm_restore [of "x\<lparr>R := junk\<rparr>" tq]
    by (auto simp: do_reti_def switched_def)
qed

lemma yield_hands_over:
  assumes r: "ready_list s ps" and i: "i < length ps" "c_task s = ps ! i"
  shows "\<exists>s'. yield junk d1 d2 d3 s = ret s' \<and> hands_over s (ps ! (Suc i mod length ps)) s'"
proof -
  obtain t where t: "tasks s (c_task s) = Some t"
    using ready_list_member [OF r, of "c_task s"] i by auto
  obtain x tq where x: "yield junk d1 d2 d3 s =
      obind (asm RESTORE_CTX (x\<lparr>R := junk\<rparr>)) (\<lambda>s. ret (do_ret (sei s)))"
    "switched s t (ps ! (Suc i mod length ps)) x" "tasks x (c_task x) = Some tq"
    using switch_body [OF r i t,
        of "\<lambda>s. clear_compare_flag (timer0_advance d3 (rearm_compare (timer0_advance d2 s)))" d1
      "\<lambda>s. obind (asm RESTORE_CTX (s\<lparr>R := junk\<rparr>)) (\<lambda>s. ret (do_ret (sei s)))"]
    by (auto simp: yield_def Let_def)
  then show ?thesis
    using hands_overI [OF t x(2)] asm_restore [of "x\<lparr>R := junk\<rparr>" tq]
    by (auto simp: do_ret_sei switched_def)
qed

section \<open>Properties\<close>

lemma CONTEXT_SWITCH_TICKS_eq: "CONTEXT_SWITCH_TICKS = 246"
  by (simp add: CONTEXT_SWITCH_TICKS_def freq_to_timer_comp_value_def F_CPU_def)

lemma OCF0B_tick:
  "bit (TIFR0 (timer0_tick s)) OCF0B \<longleftrightarrow> bit (TIFR0 s) OCF0B \<or> TCNT0 s + 1 = OCR0B s"
  by (auto simp: timer0_tick_def Let_def bit_simps)

lemma OCF0B_advance:
  "bit (TIFR0 (timer0_advance n s)) OCF0B \<longleftrightarrow>
   bit (TIFR0 s) OCF0B \<or> (\<exists>k < n. TCNT0 s + of_nat (Suc k) = OCR0B s)"
proof (induction n arbitrary: s)
  case (Suc n)
  show ?case
    unfolding timer0_advance.simps Suc.IH OCF0B_tick
    by (auto simp: less_Suc_eq_0_disj algebra_simps)
qed simp

lemma of_nat_246: "of_nat (Suc k) = (246 :: u8) \<longleftrightarrow> Suc k mod 256 = 246"
proof -
  have "of_nat (Suc k) = (246 :: u8) \<longleftrightarrow> unat (of_nat (Suc k) :: u8) = unat (246 :: u8)"
    by (simp only: word_unat_eq_iff)
  then show ?thesis by (simp add: unat_of_nat del: of_nat_Suc)
qed

text \<open>
  C17: a time slice is exactly 246 timer ticks. If no compare match is pending when the switch
  arms the compare unit, at whatever count, the compare flag is set after 246 ticks of the
  timer and not before, also when the count wraps around.
\<close>

theorem time_slice_length:
  assumes "\<not> bit (TIFR0 s) OCF0B"
  shows "bit (TIFR0 (timer0_advance n (rearm_compare s))) OCF0B \<longleftrightarrow> 246 \<le> n"
proof -
  have "(\<exists>k < n. TCNT0 s + of_nat (Suc k) = 246 + TCNT0 s) \<longleftrightarrow> 246 \<le> n"
  proof -
    have "TCNT0 s + of_nat (Suc k) = 246 + TCNT0 s \<longleftrightarrow> Suc k mod 256 = 246" for k
      by (simp only: add.commute [of "TCNT0 s"] add_right_cancel of_nat_246)
    moreover have "(\<exists>k < n. Suc k mod 256 = 246) \<longleftrightarrow> 246 \<le> n"
    proof
      assume "\<exists>k < n. Suc k mod 256 = 246"
      then obtain k where "k < n" "Suc k mod 256 = 246" by blast
      moreover have "Suc k mod 256 \<le> Suc k" by (rule mod_less_eq_dividend)
      ultimately show "246 \<le> n" by linarith
    qed (auto intro: exI [of _ 245])
    ultimately show ?thesis by simp
  qed
  then show ?thesis
    using assms by (simp add: OCF0B_advance rearm_compare_def CONTEXT_SWITCH_TICKS_eq del: of_nat_Suc)
qed

lemma time_slice_length_witness:
  "\<not> bit (TIFR0 (timer0_advance 245 (rearm_compare kernel_reset))) OCF0B
    \<and> bit (TIFR0 (timer0_advance 246 (rearm_compare kernel_reset))) OCF0B"
  using time_slice_length [of kernel_reset 245] time_slice_length [of kernel_reset 246]
  by (simp add: kernel_reset_def)

text \<open>
  C18: execution time is accounted exactly as long as the 32-bit counter does not overflow.
  The time of the slice is the difference of the two clock readings modulo \<open>2 ^ 32\<close>, also
  when the clock wrapped around in between; it is added to \<open>exec_time_us\<close>. On overflow the
  counter restarts at the time of the slice and the overflow count is incremented, so what
  the counter held above zero is lost. No other field and no other task changes.
\<close>

theorem execution_time_accounted:
  fixes t :: task_data_t and s :: "'z kernel_scheme"
  defines "e \<equiv> (int (unat (fst (get_us s))) - int (unat (exec_start_time_us t))) mod 2 ^ 32"
  assumes "task \<noteq> nullptr" "tasks s task = Some t"
  shows "\<exists>t'. calculate_task_execution_time task s = ret (put_task task t' s)
    \<and> (if int (unat (exec_time_us t)) + e < 2 ^ 32
       then int (unat (exec_time_us t')) = int (unat (exec_time_us t)) + e
         \<and> exec_time_overflow_count t' = exec_time_overflow_count t
       else int (unat (exec_time_us t')) = e
         \<and> exec_time_overflow_count t' = exec_time_overflow_count t + 1)
    \<and> t'\<lparr>exec_time_us := 0, exec_time_overflow_count := 0\<rparr> =
       t\<lparr>exec_time_us := 0, exec_time_overflow_count := 0\<rparr>"
proof -
  let ?now = "fst (get_us s)"
  let ?e = "?now - exec_start_time_us t"
  have e: "e = int (unat ?e)"
    unfolding e_def by (simp add: uint_word_ariths(2) take_bit_eq_mod flip: uint_nat)
  have le: "exec_time_us t > 0xFFFFFFFF - ?e \<longleftrightarrow> \<not> unat (exec_time_us t) + unat ?e < 2 ^ 32"
  proof -
    have "unat (0xFFFFFFFF - ?e) = 0xFFFFFFFF - unat ?e"
      using unat_sub [of ?e "0xFFFFFFFF"] unat_u32_less [of ?e] by (simp add: word_le_nat_alt)
    moreover have "unat ?e < 2 ^ 32" by simp
    ultimately show ?thesis
      by (simp add: word_less_nat_alt del: unat_u32_less) linarith
  qed
  have plus: "unat (exec_time_us t + ?e) = unat (exec_time_us t) + unat ?e"
    if "unat (exec_time_us t) + unat ?e < 2 ^ 32"
    using that by (simp add: unat_word_ariths(1))
  have ic: "int a + int b < 2 ^ 32 \<longleftrightarrow> a + b < 2 ^ 32" for a b
    by simp linarith
  have acc: "account ?now t =
      (if unat (exec_time_us t) + unat ?e < 2 ^ 32 then t\<lparr>exec_time_us := exec_time_us t + ?e\<rparr>
       else t\<lparr>exec_time_overflow_count := exec_time_overflow_count t + 1, exec_time_us := ?e\<rparr>)"
    unfolding account_def Let_def le by (simp only: if_not_P if_P split: if_splits) simp
  show ?thesis
    unfolding e ic calculate_task_execution_time_eq [OF assms(2,3)] acc
    using plus by (cases "unat (exec_time_us t) + unat ?e < 2 ^ 32") (auto simp del: of_nat_unat)
qed

definition late_three_tasks :: kernel where
  "late_three_tasks = three_tasks\<lparr>timer0_overflow_count := 2\<rparr>"

lemma late_three_tasks_sels:
  "fst (get_us late_three_tasks) = 2048" "tasks late_three_tasks 0x200 = Some (blank_task 0x300)"
  by (simp_all add: get_us_value late_three_tasks_def three_tasks_def kernel_reset_def)

lemma execution_time_accounted_witness:
  "\<exists>t'. calculate_task_execution_time 0x200 late_three_tasks = ret (put_task 0x200 t' late_three_tasks)
    \<and> int (unat (exec_time_us t')) = 2048 \<and> exec_time_overflow_count t' = 0"
  using execution_time_accounted [of "0x200" late_three_tasks "blank_task 0x300"]
  by (simp add: late_three_tasks_sels blank_task_def) blast

definition fresh_task :: task_data_t where
  "fresh_task = (blank_task 0x300)\<lparr>cpu_state := \<lparr>regs = \<lambda>_. 0, sp = 0x400, sreg = 0x80\<rparr>\<rparr>"

text \<open>
  C24: the restore sequence loads SREG before the stack pointer. After its first four
  instructions the stack pointer is still that of the task being left, but the interrupt flag
  is already the one stored for the new task: set for a task that never ran (it is created with
  0x80), clear for one that \<open>SAVE_CTX\<close> stored. Only in the second case does the rest of
  the sequence run with interrupts masked.
\<close>

theorem restore_writes_SREG_before_SP:
  assumes "tasks s (c_task s) = Some t"
  shows "\<exists>s'. exec kernel_bus (take 4 RESTORE_CTX) s = Some s' \<and> SP s' = SP s
    \<and> irq_enabled s' = bit (sreg (cpu_state t)) 7"
  using assms
  by (simp add: RESTORE_CTX_def set_reg_def Z_reg_def irq_enabled_def Let_def)

lemma restore_writes_SREG_before_SP_witness:
  "\<exists>s'. exec kernel_bus (take 4 RESTORE_CTX) (put_task 0x200 fresh_task three_tasks) = Some s'
    \<and> SP s' = 0x08FF \<and> irq_enabled s'"
  using restore_writes_SREG_before_SP [of "put_task 0x200 fresh_task three_tasks" fresh_task]
  by (simp add: three_tasks_def kernel_reset_def fresh_task_def bit_simps)

end
