(* ===== verification/Preemption.thy ===== *)
theory Preemption
  imports Kernel
begin

text \<open>
  The kernel of \<^verbatim>\<open>src/kernel.cpp\<close> running: tasks execute arbitrary code that leaves the
  stacks of other tasks alone, and are left through the compare interrupt or through
  \<open>yield\<close>. \<open>system_ok\<close> is the invariant of the running system; \<open>others_run\<close> is the system
  while one task waits for its turn.
\<close>

section \<open>Running the system\<close>

text \<open>
  The memory of task \<open>q\<close>'s stack is \<open>stk q\<close>. A task that is not running has, at its saved
  stack pointer, its return address and the two bytes the restore sequence writes, all inside
  its own stack; no two ready tasks share stack bytes.
\<close>

type_synonym stacks = "ptr \<Rightarrow> ptr set"

definition suspended_ok :: "stacks \<Rightarrow> ptr \<Rightarrow> 'z kernel_scheme \<Rightarrow> bool" where
  "suspended_ok stk q s \<longleftrightarrow>
     (\<exists>c. task_context s q = Some c \<and> {sp c + 2, sp c + 1, sp c, sp c - 1} \<subseteq> stk q)"

definition system_ok :: "stacks \<Rightarrow> ptr list \<Rightarrow> 'z kernel_scheme \<Rightarrow> bool" where
  "system_ok stk ps s \<longleftrightarrow>
     ready_list s ps \<and> c_task s \<in> set ps \<and>
     (\<forall>p \<in> set ps. \<forall>q \<in> set ps. p \<noteq> q \<longrightarrow> stk p \<inter> stk q = {}) \<and>
     (\<forall>q \<in> set ps. q \<noteq> c_task s \<longrightarrow> suspended_ok stk q s)"

text \<open>The running task has the five stack bytes a switch needs.\<close>

definition stack_room :: "stacks \<Rightarrow> 'z kernel_scheme \<Rightarrow> bool" where
  "stack_room stk s \<longleftrightarrow>
     {SP s, SP s - 1, SP s - 2, SP s - 3, SP s - 4} \<subseteq> stk (c_task s)"

text \<open>
  What the code of the running task may do between two switches: anything to the processor,
  to the peripherals, to the clock and to memory that is not the stack of another ready task.
\<close>

definition task_code :: "stacks \<Rightarrow> ptr list \<Rightarrow> 'z kernel_scheme \<Rightarrow> 'z kernel_scheme \<Rightarrow> bool" where
  "task_code stk ps s s' \<longleftrightarrow>
     c_task s' = c_task s \<and> ready_list s' ps \<and>
     (\<forall>q. task_context s' q = task_context s q) \<and>
     (\<forall>q \<in> set ps. q \<noteq> c_task s \<longrightarrow> (\<forall>a \<in> stk q. SRAM s' a = SRAM s a))"

text \<open>The two ways out of a running task: the compare interrupt and a call of \<open>yield\<close>.\<close>

inductive switch_step :: "stacks \<Rightarrow> 'z kernel_scheme \<Rightarrow> 'z kernel_scheme \<Rightarrow> bool" for stk where
  preempt:
    "irq_enabled s \<Longrightarrow> stack_room stk s \<Longrightarrow>
     TIMER0_COMPB_vect junk d1 d2 d3 (irq_enter vect s) = ret s' \<Longrightarrow> switch_step stk s s'"
| yields:
    "stack_room stk s \<Longrightarrow>
     yield junk d1 d2 d3 (do_call target (PC s) s) = ret s' \<Longrightarrow> switch_step stk s s'"

text \<open>The tasks other than \<open>p\<close> running, until \<open>p\<close> is chosen again.\<close>

inductive others_run :: "stacks \<Rightarrow> ptr list \<Rightarrow> ptr \<Rightarrow> 'z kernel_scheme \<Rightarrow> 'z kernel_scheme \<Rightarrow> bool"
  for stk ps p s where
  start: "others_run stk ps p s s"
| code: "others_run stk ps p s x \<Longrightarrow> c_task x \<noteq> p \<Longrightarrow> task_code stk ps x y \<Longrightarrow> others_run stk ps p s y"
| switch: "others_run stk ps p s x \<Longrightarrow> c_task x \<noteq> p \<Longrightarrow> switch_step stk x y \<Longrightarrow> others_run stk ps p s y"

inductive_cases switch_stepE: "switch_step stk s s'"

definition called_from :: "'z kernel_scheme \<Rightarrow> 'z kernel_scheme \<Rightarrow> bool" where
  "called_from s e \<longleftrightarrow>
     R e = R s \<and> SP e = SP s - 2 \<and> SREG e AND 0x7F = SREG s AND 0x7F \<and>
     SRAM e = (SRAM s)(SP s := lo8 (PC s), SP s - 1 := hi8 (PC s)) \<and>
     c_task e = c_task s \<and> tasks e = tasks s \<and> ready_list_head e = ready_list_head s"

lemma kernel_push_pc [simp]:
  "c_task (push_pc a s) = c_task s" "tasks (push_pc a s) = tasks s"
  "ready_list_head (push_pc a s) = ready_list_head s"
  "c_task (cli s) = c_task s" "tasks (cli s) = tasks s" "ready_list_head (cli s) = ready_list_head s"
  by (simp_all add: push_pc_def push_byte_def cli_def)

lemma called_from_irq_enter: "called_from s (irq_enter vect s)"
  by (simp add: called_from_def irq_enter_def SRAM_push_pc and.assoc)

lemma called_from_do_call: "called_from s (do_call target (PC s) s)"
  by (simp add: called_from_def do_call_def SRAM_push_pc)

definition successor :: "ptr list \<Rightarrow> ptr \<Rightarrow> ptr \<Rightarrow> bool" where
  "successor ps p q \<longleftrightarrow> (\<exists>i < length ps. p = ps ! i \<and> q = ps ! (Suc i mod length ps))"

lemma successor_mem: "successor ps p q \<Longrightarrow> q \<in> set ps"
  by (auto simp: successor_def intro!: nth_mem mod_less_divisor)

lemma switch_step_hands_over:
  assumes "switch_step stk s s'" "ready_list s ps" "c_task s \<in> set ps"
  shows "\<exists>e q. called_from s e \<and> successor ps (c_task s) q \<and> hands_over e q s'"
proof -
  obtain i where i: "i < length ps" "c_task s = ps ! i" using assms(3) by (metis in_set_conv_nth)
  have r: "ready_list e ps" "c_task e = ps ! i" if "called_from s e" for e
    using that assms(2) i by (simp_all add: called_from_def ready_list_def)
  let ?q = "ps ! (Suc i mod length ps)"
  have q: "successor ps (c_task s) ?q" using i by (auto simp: successor_def)
  from assms(1) show ?thesis
  proof cases
    case (preempt junk d1 d2 d3 vect)
    then show ?thesis
      using TIMER0_COMPB_vect_hands_over [OF r(1) i(1) r(2)] called_from_irq_enter [of s vect] q
      by (metis ret_inject)
  next
    case (yields junk d1 d2 d3 target)
    then show ?thesis
      using yield_hands_over [OF r(1) i(1) r(2)] called_from_do_call [of s target] q
      by (metis ret_inject)
  qed
qed

lemma switch_step_exists:
  assumes "ready_list s ps" "c_task s \<in> set ps" "stack_room stk s"
  shows "\<exists>s'. yield junk d1 d2 d3 (do_call target (PC s) s) = ret s' \<and> switch_step stk s s'"
    "irq_enabled s \<Longrightarrow> \<exists>s'. TIMER0_COMPB_vect junk d1 d2 d3 (irq_enter vect s) = ret s' \<and> switch_step stk s s'"
proof -
  obtain i where i: "i < length ps" "c_task s = ps ! i" using assms(2) by (metis in_set_conv_nth)
  have r: "ready_list e ps" "c_task e = ps ! i" if "called_from s e" for e
    using that assms(1) i by (simp_all add: called_from_def ready_list_def)
  show "\<exists>s'. yield junk d1 d2 d3 (do_call target (PC s) s) = ret s' \<and> switch_step stk s s'"
    using yield_hands_over [OF r(1) i(1) r(2), OF called_from_do_call called_from_do_call]
      switch_step.yields [OF assms(3)] by meson
  show "\<exists>s'. TIMER0_COMPB_vect junk d1 d2 d3 (irq_enter vect s) = ret s' \<and> switch_step stk s s'"
    if "irq_enabled s"
    using TIMER0_COMPB_vect_hands_over [OF r(1) i(1) r(2), OF called_from_irq_enter called_from_irq_enter]
      switch_step.preempt [OF that assms(3)] by meson
qed

lemma called_from_kernel:
  assumes "called_from s e"
  shows "task_context e r = task_context s r" "c_task e = c_task s" "ready_list e ps = ready_list s ps"
  using assms by (simp_all add: called_from_def task_context_def ready_list_def)

lemma snapshot_called_from:
  assumes "called_from s e"
  shows "sp (snapshot e c) = SP s - 2" "sreg (snapshot e c) = SREG s AND 0x7F"
    "r < 32 \<Longrightarrow> regs (snapshot e c) r = R s r"
  using assms by (auto simp: snapshot_def called_from_def)

text \<open>After a switch every ready task's saved context lies inside its own stack.\<close>

lemma hands_over_suspended:
  assumes sys: "system_ok stk ps s" and room: "stack_room stk s" and e: "called_from s e"
    and h: "hands_over e q s'" and p: "p \<in> set ps"
  shows "suspended_ok stk p s'"
proof (cases "p = c_task s")
  case True
  obtain c where c: "task_context s p = Some c"
    using ready_list_member [of s ps p] sys p by (auto simp: system_ok_def task_context_def)
  have "task_context s' p = Some (snapshot e c)"
    using h c True by (simp add: hands_over_def called_from_kernel [OF e])
  moreover have "SP s - 2 + 2 = SP s" "SP s - 2 + 1 = SP s - 1" "SP s - 2 - 1 = SP s - 3" by simp_all
  ultimately show ?thesis
    using room True by (auto simp: suspended_ok_def stack_room_def snapshot_called_from [OF e])
next
  case False
  then have "task_context s' p = task_context s p"
    using h by (simp add: hands_over_def called_from_kernel [OF e])
  then show ?thesis using sys False p by (simp add: system_ok_def suspended_ok_def)
qed

lemma hands_over_system_ok:
  assumes "system_ok stk ps s" "stack_room stk s" "called_from s e" "hands_over e q s'" "q \<in> set ps"
  shows "system_ok stk ps s'"
  using assms hands_over_suspended [OF assms(1-4)]
  by (auto simp: system_ok_def hands_over_def called_from_kernel [OF assms(3)])

text \<open>A switch writes to the stacks of the running and of the chosen task only.\<close>

lemma hands_over_stack:
  assumes sys: "system_ok stk ps s" and room: "stack_room stk s" and e: "called_from s e"
    and h: "hands_over e q s'" and q: "q \<in> set ps" and p: "p \<in> set ps" "p \<noteq> c_task s" 
    and c: "task_context s' q = Some c" and a: "a \<in> stk p" "p = q \<Longrightarrow> a \<notin> {sp c, sp c - 1}"
  shows "SRAM s' a = SRAM s a"
proof -
  have "a \<notin> {SP s, SP s - 1, SP s - 2, SP s - 3, SP s - 4}"
    using sys room p a(1) by (auto simp: system_ok_def stack_room_def)
  moreover have "a \<notin> {sp c, sp c - 1}"
  proof (cases "p = q")
    case False
    then have "a \<notin> stk q" using sys p q a(1) by (auto simp: system_ok_def)
    moreover have "{sp c, sp c - 1} \<subseteq> stk q"
      using hands_over_suspended [OF sys room e h q] c by (auto simp: suspended_ok_def)
    ultimately show ?thesis by blast
  qed (use a in auto)
  ultimately show ?thesis using h e c
    by (auto simp: hands_over_def called_from_def)
qed

text \<open>
  The state of task \<open>p\<close>, interrupted or yielding in state \<open>s\<close>, while other tasks run, and when
  it has been chosen again. The bytes \<open>A\<close> are those of its stack above the stack pointer.
\<close>

definition parked :: "ptr set \<Rightarrow> ptr \<Rightarrow> 'z kernel_scheme \<Rightarrow> 'z kernel_scheme \<Rightarrow> bool" where
  "parked A p s x \<longleftrightarrow>
     (\<exists>c. task_context x p = Some c \<and> sp c = SP s - 2 \<and> sreg c = SREG s AND 0x7F \<and>
       (\<forall>r < 32. regs c r = R s r)) \<and>
     SRAM x (SP s) = lo8 (PC s) \<and> SRAM x (SP s - 1) = hi8 (PC s) \<and>
     (\<forall>a \<in> A. SRAM x a = SRAM s a)"

definition resumed :: "ptr set \<Rightarrow> 'z kernel_scheme \<Rightarrow> 'z kernel_scheme \<Rightarrow> bool" where
  "resumed A s x \<longleftrightarrow>
     (\<forall>r < 32. R x r = R s r) \<and> SP x = SP s \<and> PC x = PC s \<and> SREG x = SREG s OR 0x80 \<and>
     (\<forall>a \<in> A. SRAM x a = SRAM s a)"

definition live_stack :: "stacks \<Rightarrow> 'z kernel_scheme \<Rightarrow> ptr set" where
  "live_stack stk s = stk (c_task s) - {SP s, SP s - 1, SP s - 2, SP s - 3, SP s - 4}"

lemma parked_resumed:
  assumes h: "hands_over e p s'" and pk: "parked A p s s'"
  shows "resumed A s s'"
proof -
  obtain c where c: "task_context s' p = Some c" "sp c = SP s - 2" "sreg c = SREG s AND 0x7F"
    "\<forall>r < 32. regs c r = R s r" using pk by (auto simp: parked_def)
  have [simp]: "SP s - 2 + 2 = SP s" "SP s - 2 + 1 = SP s - 1" by simp_all
  have "SREG s AND 0x7F OR 0x80 = SREG s OR 0x80" by (rule u8_bit_eqI) (simp_all add: bit_simps)
  then show ?thesis
    using h pk c by (auto simp: resumed_def hands_over_def parked_def)
qed


lemma hands_over_parked:
  assumes sys: "system_ok stk ps s" and room: "stack_room stk s" and e: "called_from s e"
    and h: "hands_over e q s'" and q: "q \<in> set ps"
  shows "parked (live_stack stk s) (c_task s) s s'"
proof -
  have p: "c_task s \<in> set ps" using sys by (simp add: system_ok_def)
  obtain c where c: "task_context s (c_task s) = Some c"
    using ready_list_member [of s ps "c_task s"] sys p by (auto simp: system_ok_def task_context_def)
  have ctx: "task_context s' (c_task s) = Some (snapshot e c)"
    using h c by (simp add: hands_over_def called_from_kernel [OF e])
  obtain d where d: "task_context s' q = Some d" "SRAM s' = (SRAM e)(SP e := R e 29, SP e - 1 := R e 30,
      SP e - 2 := R e 31, sp d := regs d 30, sp d - 1 := regs d 31)"
    using h unfolding hands_over_def by blast
  have off: "a \<notin> {sp d, sp d - 1}" if "a \<in> live_stack stk s \<or> a = SP s \<or> a = SP s - 1" for a
  proof (cases "q = c_task s")
    case True
    then have "sp d = SP s - 2" using d(1) ctx snapshot_called_from(1) [OF e, of c] by simp
    then show ?thesis using that by (auto simp: live_stack_def)
  next
    case False
    have "{sp d, sp d - 1} \<subseteq> stk q"
      using hands_over_suspended [OF sys room e h q] d(1) by (auto simp: suspended_ok_def)
    moreover have "a \<in> stk (c_task s)" using that room by (auto simp: live_stack_def stack_room_def)
    moreover have "stk q \<inter> stk (c_task s) = {}" using sys q p False by (simp add: system_ok_def)
    ultimately show ?thesis by blast
  qed
  have m: "SRAM s' a = SRAM e a" if "a \<in> live_stack stk s \<or> a = SP s \<or> a = SP s - 1" for a
    using off [OF that] that e by (auto simp: d(2) live_stack_def called_from_def)
  have "SRAM e a = SRAM s a" if "a \<in> live_stack stk s" for a
    using that e by (auto simp: live_stack_def called_from_def)
  moreover have "SRAM e (SP s) = lo8 (PC s)" "SRAM e (SP s - 1) = hi8 (PC s)"
    using e by (simp_all add: called_from_def)
  ultimately show ?thesis
    unfolding parked_def using ctx m snapshot_called_from [OF e] by auto
qed

lemma parked_task_code:
  assumes "parked (live_stack stk s) p s x" "task_code stk ps x y" "p \<in> set ps" "c_task x \<noteq> p"
    "live_stack stk s \<union> {SP s, SP s - 1} \<subseteq> stk p"
  shows "parked (live_stack stk s) p s y"
  using assms unfolding parked_def task_code_def by (auto 0 4)

lemma parked_hands_over:
  assumes sys: "system_ok stk ps x" and room: "stack_room stk x" and e: "called_from x e"
    and h: "hands_over e q y" and q: "q \<in> set ps" and p: "p \<in> set ps" "p \<noteq> c_task x"
    and pk: "parked (live_stack stk s) p s x" and sub: "live_stack stk s \<union> {SP s, SP s - 1} \<subseteq> stk p"
  shows "parked (live_stack stk s) p s y"
proof -
  obtain c where c: "task_context x p = Some c" "sp c = SP s - 2" using pk by (auto simp: parked_def)
  have ctx: "task_context y p = task_context x p"
    using h p by (simp add: hands_over_def called_from_kernel [OF e])
  obtain d where d: "task_context y q = Some d" using h by (auto simp: hands_over_def)
  have m: "SRAM y a = SRAM x a" if "a \<in> live_stack stk s \<union> {SP s, SP s - 1}" for a
  proof (rule hands_over_stack [OF sys room e h q p d])
    show "a \<in> stk p" using that sub by blast
    assume "p = q"
    then have "sp d = SP s - 2" using d c ctx by simp
    then show "a \<notin> {sp d, sp d - 1}" using that by (auto simp: live_stack_def)
  qed
  then show ?thesis using pk ctx by (auto simp: parked_def)
qed


lemma system_ok_task_code:
  assumes "system_ok stk ps x" "task_code stk ps x y"
  shows "system_ok stk ps y"
  using assms by (auto simp: system_ok_def task_code_def suspended_ok_def)

lemma system_ok_switch_step:
  assumes "system_ok stk ps x" "switch_step stk x y"
  shows "system_ok stk ps y" "successor ps (c_task x) (c_task y)"
proof -
  have room: "stack_room stk x" using assms(2) by cases
  obtain e q where e: "called_from x e" "successor ps (c_task x) q" "hands_over e q y"
    using switch_step_hands_over [OF assms(2), of ps] assms(1) by (auto simp: system_ok_def)
  show "system_ok stk ps y"
    using hands_over_system_ok [OF assms(1) room e(1,3) successor_mem [OF e(2)]] .
  show "successor ps (c_task x) (c_task y)" using e by (simp add: hands_over_def)
qed

lemma others_run_parked:
  assumes "others_run stk ps (c_task s) y w" and y: "switch_step stk s y" and sys: "system_ok stk ps s"
  shows "system_ok stk ps w \<and> parked (live_stack stk s) (c_task s) s w \<and>
    (c_task w = c_task s \<longrightarrow> resumed (live_stack stk s) s w)"
  using assms(1)
proof induction
  case start
  obtain e q where e: "called_from s e" "successor ps (c_task s) q" "hands_over e q y"
    using switch_step_hands_over [OF y, of ps] sys by (auto simp: system_ok_def)
  have "stack_room stk s" using y by cases
  then have pk: "parked (live_stack stk s) (c_task s) s y"
    using hands_over_parked [OF sys _ e(1,3) successor_mem [OF e(2)]] by simp
  show ?case
    using pk parked_resumed [OF e(3)] e(3) system_ok_switch_step [OF sys y] by (auto simp: hands_over_def)
next
  case (code x z)
  have p: "c_task s \<in> set ps" using sys by (simp add: system_ok_def)
  have sub: "live_stack stk s \<union> {SP s, SP s - 1} \<subseteq> stk (c_task s)"
    using y by cases (auto simp: live_stack_def stack_room_def)
  show ?case
    using system_ok_task_code [of stk ps x z] parked_task_code [of stk s "c_task s" x ps z] code p sub
    by (auto simp: task_code_def)
next
  case (switch x z)
  have p: "c_task s \<in> set ps" using sys by (simp add: system_ok_def)
  have sub: "live_stack stk s \<union> {SP s, SP s - 1} \<subseteq> stk (c_task s)"
    using y by cases (auto simp: live_stack_def stack_room_def)
  obtain e q where e: "called_from x e" "successor ps (c_task x) q" "hands_over e q z"
    using switch_step_hands_over [OF switch.hyps(3), of ps] switch.IH by (auto simp: system_ok_def)
  have room: "stack_room stk x" using switch.hyps(3) by cases
  have pk: "parked (live_stack stk s) (c_task s) s z"
    using parked_hands_over [OF _ room e(1,3) successor_mem [OF e(2)] p _ _ sub] switch by auto
  then show ?case
    using parked_resumed [OF e(3)] e(3) system_ok_switch_step [OF _ switch.hyps(3)] switch.IH
    by (auto simp: hands_over_def)
qed

text \<open>
  C2: preemption and yielding are transparent to the task. Task \<open>c_task s\<close> is interrupted by
  the compare interrupt, or calls \<open>yield\<close>, in a state \<open>s\<close> of a well-formed system; then the
  other tasks run, with any code that leaves the stacks of the suspended tasks alone and any number of
  switches. When the task is current again, all 32 registers, the stack pointer, the program counter
  and its stack are as in \<open>s\<close>, and so is SREG, except that a switch returns with interrupts
  enabled.
\<close>

theorem preemption_transparent:
  assumes "system_ok stk ps s" "switch_step stk s y"
    and "others_run stk ps (c_task s) y w" "c_task w = c_task s"
  shows "(\<forall>r < 32. R w r = R s r) \<and> SP w = SP s \<and> PC w = PC s
    \<and> SREG w = SREG s OR 0x80 \<and> (irq_enabled s \<longrightarrow> SREG w = SREG s)
    \<and> (\<forall>a \<in> live_stack stk s. SRAM w a = SRAM s a)"
proof -
  have "SREG s OR 0x80 = SREG s" if "irq_enabled s"
    using that by (intro u8_bit_eqI) (simp_all add: irq_enabled_def bit_simps)
  then show ?thesis
    using others_run_parked [OF assms(3,2,1)] assms(4) by (simp add: resumed_def)
qed

definition two_tasks :: kernel where
  "two_tasks = kernel_reset\<lparr>SP := 0x21F, PC := 0x1234, c_task := 0x100, ready_list_head := 0x100,
     tasks := [0x100 \<mapsto> blank_task 0x180,
               0x180 \<mapsto> (blank_task nullptr)\<lparr>cpu_state := \<lparr>regs = \<lambda>_. 7, sp = 0x31D, sreg = 0\<rparr>\<rparr>]\<rparr>"

definition two_stacks :: stacks where
  "two_stacks p = (if p = 0x100 then {0x21F, 0x21E, 0x21D, 0x21C, 0x21B}
                   else {0x31F, 0x31E, 0x31D, 0x31C, 0x31B})"

lemma two_tasks_ok: "system_ok two_stacks [0x100, 0x180] two_tasks" "stack_room two_stacks two_tasks"
  by (auto simp: system_ok_def two_tasks_def two_stacks_def stack_room_def kernel_reset_def blank_task_def
      ready_list_def suspended_ok_def task_context_def)

lemma successor_two: "successor [0x100, 0x180] a b \<longleftrightarrow> (a, b) \<in> {(0x100, 0x180), (0x180, 0x100)}"
  by (auto simp: successor_def less_Suc_eq numeral_2_eq_2)

text \<open>From the first of the two tasks to the second, by \<open>yield\<close>.\<close>

lemma two_tasks_switch:
  "\<exists>y. switch_step two_stacks two_tasks y \<and> c_task y = 0x180 \<and> stack_room two_stacks y"
proof -
  have r: "ready_list two_tasks [0x100, 0x180]" "c_task two_tasks \<in> set [0x100, 0x180]"
    using two_tasks_ok(1) by (simp_all only: system_ok_def)
  obtain y where y: "switch_step two_stacks two_tasks y"
    using switch_step_exists(1) [OF r two_tasks_ok(2)] by blast
  obtain e q where e: "called_from two_tasks e" "successor [0x100, 0x180] (c_task two_tasks) q" "hands_over e q y"
    using switch_step_hands_over [OF y r] by blast
  have c: "c_task two_tasks = 0x100" by (simp add: two_tasks_def)
  have q: "q = 0x180" using e(2) by (simp add: successor_two c)
  have "task_context y 0x180 = task_context two_tasks 0x180"
    using e(3) by (simp add: hands_over_def called_from_kernel [OF e(1)] c)
  then have "SP y = 0x31F" "c_task y = 0x180"
    using e(3) q by (auto simp: hands_over_def task_context_def two_tasks_def)
  then show ?thesis
    using y by (intro exI [of _ y]) (simp add: stack_room_def two_stacks_def)
qed

lemma preemption_transparent_witness:
  "\<exists>y w. switch_step two_stacks two_tasks y \<and> others_run two_stacks [0x100, 0x180] 0x100 y w
    \<and> c_task w = 0x100 \<and> SP w = 0x21F \<and> PC w = 0x1234 \<and> R w 5 = 0"
proof -
  have c: "c_task two_tasks = 0x100" by (simp add: two_tasks_def)
  obtain y where y: "switch_step two_stacks two_tasks y" "c_task y = 0x180" "stack_room two_stacks y"
    using two_tasks_switch by blast
  have ok: "system_ok two_stacks [0x100, 0x180] y"
    using system_ok_switch_step(1) [OF two_tasks_ok(1) y(1)] .
  then have r: "ready_list y [0x100, 0x180]" "c_task y \<in> set [0x100, 0x180]"
    by (simp_all only: system_ok_def)
  obtain w where w: "switch_step two_stacks y w"
    using switch_step_exists(1) [OF r y(3)] by blast
  have cw: "c_task w = 0x100"
    using system_ok_switch_step(2) [OF ok w] by (simp add: successor_two y(2))
  have run: "others_run two_stacks [0x100, 0x180] (c_task two_tasks) y w"
    using others_run.switch [OF others_run.start _ w] y(2) c by simp
  have s: "SP two_tasks = 0x21F" "PC two_tasks = 0x1234" "R two_tasks 5 = 0"
    by (simp_all add: two_tasks_def kernel_reset_def)
  show ?thesis
    using preemption_transparent [OF two_tasks_ok(1) y(1) run] y(1) run cw
    by (intro exI [of _ y] exI [of _ w]) (simp add: c s)
qed

lemma switch_step_loads:
  assumes sys: "system_ok stk ps s" and x: "switch_step stk s x" and ne: "c_task x \<noteq> c_task s"
    and c: "task_context s (c_task x) = Some c"
  shows "(\<forall>r < 32. R x r = regs c r) \<and> SP x = sp c + 2 \<and> SREG x = sreg c OR 0x80
    \<and> PC x = join16 (SRAM s (sp c + 1)) (SRAM s (sp c + 2))"
proof -
  have room: "stack_room stk s" using x by cases
  obtain e q where e: "called_from s e" "successor ps (c_task s) q" "hands_over e q x"
    using switch_step_hands_over [OF x, of ps] sys by (auto simp: system_ok_def)
  note q = successor_mem [OF e(2)]
  have cq: "c_task x = q" "task_context x q = Some c"
    using e(3) ne c by (simp_all add: hands_over_def called_from_kernel [OF e(1)])
  have st: "{sp c + 2, sp c + 1} \<subseteq> stk q"
    using hands_over_suspended [OF sys room e(1,3) q] cq by (simp add: suspended_ok_def)
  have m: "SRAM x a = SRAM s a" if "a \<in> {sp c + 2, sp c + 1}" for a
    by (rule hands_over_stack [OF sys room e(1,3) q q _ cq(2)]) (use ne cq that st in auto)
  show ?thesis using e(3) cq m by (auto simp: hands_over_def)
qed

text \<open>
  C1: the context switch is correct. In a well-formed system whose running task has
  interrupts enabled and five bytes of stack left, the compare interrupt and a call of
  \<open>yield\<close> both return, whatever the compiled C code leaves in the registers and however many
  timer ticks it takes; the resulting system is well-formed again and the running task is
  the cyclic successor in the ready list. If that is another task, the processor holds exactly
  the context saved for it: its 32 registers, its stack pointer with the return address popped, its
  status register with interrupts enabled and the return address as program counter.
\<close>

theorem context_switch_correct:
  assumes sys: "system_ok stk ps s" and room: "stack_room stk s" and irq: "irq_enabled s"
  shows "\<exists>s1 s2. TIMER0_COMPB_vect junk d1 d2 d3 (irq_enter vect s) = ret s1
    \<and> yield junk d1 d2 d3 (do_call target (PC s) s) = ret s2
    \<and> (\<forall>x \<in> {s1, s2}. system_ok stk ps x \<and> successor ps (c_task s) (c_task x)
      \<and> (\<forall>c. c_task x \<noteq> c_task s \<longrightarrow> task_context s (c_task x) = Some c \<longrightarrow>
          (\<forall>r < 32. R x r = regs c r) \<and> SP x = sp c + 2 \<and> SREG x = sreg c OR 0x80
          \<and> PC x = join16 (SRAM s (sp c + 1)) (SRAM s (sp c + 2))))"
proof -
  have r: "ready_list s ps" "c_task s \<in> set ps" using sys by (simp_all add: system_ok_def)
  obtain s1 where s1: "TIMER0_COMPB_vect junk d1 d2 d3 (irq_enter vect s) = ret s1" "switch_step stk s s1"
    using switch_step_exists(2) [OF r room irq] by blast
  obtain s2 where s2: "yield junk d1 d2 d3 (do_call target (PC s) s) = ret s2" "switch_step stk s s2"
    using switch_step_exists(1) [OF r room] by blast
  have "\<forall>x \<in> {s1, s2}. switch_step stk s x" using s1 s2 by simp
  then show ?thesis
    using s1(1) s2(1) system_ok_switch_step [OF sys] switch_step_loads [OF sys] by meson
qed

lemma context_switch_correct_witness:
  "\<exists>s1 s2. TIMER0_COMPB_vect (\<lambda>_. 99) 1 2 3 (irq_enter 0x1E two_tasks) = ret s1
    \<and> yield (\<lambda>_. 99) 1 2 3 (do_call 0x500 (PC two_tasks) two_tasks) = ret s2
    \<and> (\<forall>x \<in> {s1, s2}. successor [0x100, 0x180] (c_task two_tasks) (c_task x))"
proof -
  have "irq_enabled two_tasks" by (simp add: irq_enabled_def two_tasks_def kernel_reset_def bit_simps)
  from context_switch_correct [OF two_tasks_ok this, of "\<lambda>_. 99" 1 2 3 "0x1E" "0x500"]
  show ?thesis by meson
qed

end
