(* ===== verification/Scheduler.thy ===== *)
theory Scheduler
  imports Preemption
begin

text \<open>
  Creating and removing tasks: \<^verbatim>\<open>src/scheduler.cpp\<close> and the template functions of
  \<^verbatim>\<open>src/scheduler.h\<close>. A task's stack is a range of SRAM bytes; a C string is a list of
  characters that ends at its first NUL; an argument of a task is the list of its bytes in
  memory order, so \<open>sizeof\<close> is the length of the list. Functions that report an error
  return \<^term>\<open>True\<close>, as in the source.
\<close>

section \<open>Operations\<close>

definition strlen :: "char list \<Rightarrow> nat" where
  "strlen str = length (takeWhile (\<lambda>c. c \<noteq> CHR 0x00) str)"

text \<open>\<open>strcpy\<close> copies the string and its NUL and leaves the rest of the destination.\<close>

definition strcpy :: "char list \<Rightarrow> char list \<Rightarrow> char list" where
  "strcpy dst src =
     takeWhile (\<lambda>c. c \<noteq> CHR 0x00) src @ CHR 0x00 # drop (Suc (strlen src)) dst"

definition poke :: "ptr \<Rightarrow> u8 \<Rightarrow> 'z avr_scheme \<Rightarrow> 'z avr_scheme" where
  "poke a v s = s\<lparr>SRAM := (SRAM s)(a := v)\<rparr>"

definition init_task_data :: "ptr \<Rightarrow> u16 \<Rightarrow> u8 \<Rightarrow> task_data_t \<Rightarrow> task_data_t" where
  "init_task_data stack_array sz slice_ms t =
     t\<lparr>time_slice_ms := slice_ms,
       exec_time_us := 0,
       exec_time_overflow_count := 0,
       exec_start_time_us := 0,
       next_node := nullptr,
       stack := \<lparr>memory_ptr = stack_array, stack_size = sz\<rparr>,
       state := READY,
       cpu_state := (cpu_state t)\<lparr>sreg := 0x80\<rparr>\<rparr>"

definition create_task ::
  "ptr \<Rightarrow> ptr \<Rightarrow> u16 \<Rightarrow> char list \<Rightarrow> u8 \<Rightarrow> u16 \<Rightarrow> 'z kernel_scheme \<Rightarrow>
   (bool \<times> 'z kernel_scheme) outcome" where
  "create_task task stack_array sz nm slice_ms entry s =
     (let saved = SREG s; s = cli s in
      obind (deref s task) (\<lambda>t.
      let t = init_task_data stack_array sz slice_ms t;
          s = put_task task t s
      in if strlen nm \<ge> CONF_TASK_NAME_MAX_LENGTH then ret (True, s\<lparr>SREG := saved\<rparr>)
         else
           let t = t\<lparr>name := strcpy (name t) nm,
                     cpu_state := (cpu_state t)\<lparr>sp := stack_array + (sz - 3)\<rparr>\<rparr>;
               s = put_task task t s;
               s = poke (stack_array + (sz - 1)) (lo8 entry) s;
               s = poke (stack_array + (sz - 2)) (hi8 entry) s
           in obind (add_task task s) (\<lambda>s.
              let s = (if c_task s = nullptr then s\<lparr>c_task := get_head_task s\<rparr> else s)
              in ret (False, s\<lparr>SREG := saved\<rparr>))))"

text \<open>The counters of the template functions: \<open>args_to_stack\<close>, \<open>regs_used\<close>, \<open>stack_used\<close>.\<close>

record arg_count =
  args_to_stack :: bool
  regs_used :: nat
  stack_used :: nat

definition calc_sizes :: "u8 list \<Rightarrow> arg_count \<Rightarrow> arg_count" where
  "calc_sizes arg n =
     (let arg_size = length arg; padding = arg_size mod 2 in
      if regs_used n + arg_size + padding < 17 \<and> \<not> args_to_stack n
      then n\<lparr>regs_used := regs_used n + (arg_size + padding)\<rparr>
      else n\<lparr>args_to_stack := True, stack_used := stack_used n + arg_size\<rparr>)"

text \<open>\<open>memcpy\<close> into the saved registers and into the stack.\<close>

definition copy_regs :: "nat \<Rightarrow> u8 list \<Rightarrow> cpu_registers \<Rightarrow> cpu_registers" where
  "copy_regs base bs c =
     c\<lparr>regs := (\<lambda>i. if base \<le> i \<and> i < base + length bs then bs ! (i - base) else regs c i)\<rparr>"

primrec copy_mem :: "ptr \<Rightarrow> u8 list \<Rightarrow> 'z avr_scheme \<Rightarrow> 'z avr_scheme" where
  "copy_mem a [] s = s"
| "copy_mem a (b # bs) s = copy_mem (a + 1) bs (poke a b s)"

definition process_arg ::
  "ptr \<Rightarrow> u8 list \<Rightarrow> arg_count \<Rightarrow> 'z kernel_scheme \<Rightarrow> (arg_count \<times> 'z kernel_scheme) outcome" where
  "process_arg task arg n s =
     obind (deref s task) (\<lambda>t.
     let arg_size = length arg; padding = arg_size mod 2 in
     if regs_used n + arg_size + padding < 17 \<and> \<not> args_to_stack n
     then
       let arg_base = 25 - regs_used n - arg_size - padding + 1
       in ret (n\<lparr>regs_used := regs_used n + (arg_size + padding)\<rparr>,
               put_task task (t\<lparr>cpu_state := copy_regs arg_base arg (cpu_state t)\<rparr>) s)
     else
       let arg_base = stack_size (stack t) - of_nat (stack_used n) - 1
       in ret (n\<lparr>args_to_stack := True, stack_used := stack_used n - arg_size\<rparr>,
               copy_mem (memory_ptr (stack t) + arg_base) arg s))"

primrec process_args ::
  "ptr \<Rightarrow> u8 list list \<Rightarrow> arg_count \<Rightarrow> 'z kernel_scheme \<Rightarrow> (arg_count \<times> 'z kernel_scheme) outcome" where
  "process_args task [] n s = ret (n, s)"
| "process_args task (a # as) n s =
     obind (process_arg task a n s) (\<lambda>(n, s). process_args task as n s)"

definition create_task_args ::
  "ptr \<Rightarrow> ptr \<Rightarrow> u16 \<Rightarrow> char list \<Rightarrow> u8 \<Rightarrow> u16 \<Rightarrow> u8 list list \<Rightarrow> 'z kernel_scheme \<Rightarrow>
   (bool \<times> 'z kernel_scheme) outcome" where
  "create_task_args task stack_array sz nm slice_ms entry args s =
     (let saved = SREG s; s = cli s in
      obind (create_task task stack_array sz nm slice_ms entry s) (\<lambda>(err, s).
      if err then ret (True, s\<lparr>SREG := saved\<rparr>)
      else
        let sizes = fold calc_sizes args \<lparr>args_to_stack = False, regs_used = 0, stack_used = 0\<rparr>;
            stack_base = stack_used sizes
        in obind (process_args task args
                    \<lparr>args_to_stack = False, regs_used = 0, stack_used = stack_base\<rparr> s) (\<lambda>(n, s).
           obind (deref s task) (\<lambda>t.
           let s = (if stack_base \<noteq> 0
                    then
                      let base = memory_ptr (stack t);
                          sp_index = stack_size (stack t) - of_nat stack_base - 6;
                          s = put_task task (t\<lparr>cpu_state := (cpu_state t)\<lparr>sp := base + sp_index\<rparr>\<rparr>) s;
                          s = poke (base + (sp_index + 2)) (lo8 entry) s
                      in poke (base + (sp_index + 1)) (hi8 entry) s
                    else s)
           in ret (False, sei (s\<lparr>SREG := saved\<rparr>))))))"

definition start_scheduler :: "'z kernel_scheme \<Rightarrow> 'z kernel_scheme outcome" where
  "start_scheduler s = kernel_start s"

definition remove_task :: "ptr \<Rightarrow> 'z kernel_scheme \<Rightarrow> (bool \<times> 'z kernel_scheme) outcome" where
  "remove_task task s =
     obind (remove_task_from_ready_list task s) (\<lambda>(err, s).
     if err then ret (True, s)
     else obind (set_task_state task UNDEFINED s) (\<lambda>s. ret (False, s)))"

section \<open>Lemmas on memory and strings\<close>

lemma poke_sels [simp]:
  "SRAM (poke a v s) = (SRAM s)(a := v)" "R (poke a v s) = R s" "SREG (poke a v s) = SREG s"
  "SP (poke a v s) = SP s" "PC (poke a v s) = PC s"
  by (simp_all add: poke_def)

lemma poke_kernel_sels [simp]:
  "tasks (poke a v s) = tasks s" "c_task (poke a v s) = c_task s"
  "ready_list_head (poke a v s) = ready_list_head s"
  by (simp_all add: poke_def)

lemma copy_mem_sels [simp]:
  "tasks (copy_mem a bs s) = tasks s" "c_task (copy_mem a bs s) = c_task s"
  "ready_list_head (copy_mem a bs s) = ready_list_head s" "SREG (copy_mem a bs s) = SREG s"
  by (induction bs arbitrary: a s) simp_all

text \<open>A string shorter than the buffer leaves a terminated string of the buffer's length.\<close>

lemma strcpy_correct:
  assumes "strlen src < length dst"
  shows "length (strcpy dst src) = length dst"
    "takeWhile (\<lambda>c. c \<noteq> CHR 0x00) (strcpy dst src) = takeWhile (\<lambda>c. c \<noteq> CHR 0x00) src"
proof -
  have "takeWhile (\<lambda>c. c \<noteq> CHR 0x00) (takeWhile (\<lambda>c. c \<noteq> CHR 0x00) src @ CHR 0x00 # xs) =
      takeWhile (\<lambda>c. c \<noteq> CHR 0x00) src" for xs
    by (subst takeWhile_append2) (auto dest: set_takeWhileD)
  then show "takeWhile (\<lambda>c. c \<noteq> CHR 0x00) (strcpy dst src) = takeWhile (\<lambda>c. c \<noteq> CHR 0x00) src"
    by (simp add: strcpy_def)
qed (use assms in \<open>simp add: strcpy_def strlen_def\<close>)

section \<open>Creating a task\<close>

text \<open>The task that a successful \<open>create_task\<close> leaves.\<close>

definition new_task :: "ptr \<Rightarrow> u16 \<Rightarrow> char list \<Rightarrow> u8 \<Rightarrow> task_data_t \<Rightarrow> task_data_t" where
  "new_task stack_array sz nm slice_ms t =
     (init_task_data stack_array sz slice_ms t)\<lparr>name := strcpy (name t) nm,
       cpu_state := (cpu_state t)\<lparr>sreg := 0x80, sp := stack_array + (sz - 3)\<rparr>\<rparr>"

lemma new_task_sels [simp]:
  "next_node (new_task a n nm ms t) = nullptr"
  "cpu_state (new_task a n nm ms t) = (cpu_state t)\<lparr>sreg := 0x80, sp := a + (n - 3)\<rparr>"
  "stack (new_task a n nm ms t) = \<lparr>memory_ptr = a, stack_size = n\<rparr>"
  by (simp_all add: new_task_def init_task_data_def)

text \<open>Fields of a task other than the link.\<close>

definition unlinked :: "task_data_t \<Rightarrow> task_data_t" where
  "unlinked t = t\<lparr>next_node := nullptr\<rparr>"

lemma ready_list_other:
  assumes "p \<notin> set ps" shows "ready_list (put_task p t s) ps = ready_list s ps"
  using assms by (simp add: ready_list_def)

lemma create_task_ok:
  assumes r: "ready_list s ps" and t: "tasks s p = Some t" and p: "p \<noteq> nullptr" "p \<notin> set ps"
    and nm: "strlen nm < CONF_TASK_NAME_MAX_LENGTH"
  shows "\<exists>s'. create_task p a n nm ms entry s = ret (False, s') \<and> ready_list s' (ps @ [p])
    \<and> c_task s' = (if c_task s = nullptr then hd (ps @ [p]) else c_task s) \<and> SREG s' = SREG s
    \<and> tasks s' p = Some (new_task a n nm ms t)
    \<and> (\<forall>q. q \<noteq> p \<longrightarrow> map_option unlinked (tasks s' q) = map_option unlinked (tasks s q))
    \<and> SRAM s' = (SRAM s)(a + (n - 1) := lo8 entry, a + (n - 2) := hi8 entry)
    \<and> R s' = R s \<and> SP s' = SP s \<and> PC s' = PC s"
proof -
  let ?t = "new_task a n nm ms t"
  let ?s = "poke (a + (n - 2)) (hi8 entry) (poke (a + (n - 1)) (lo8 entry) (put_task p ?t (cli s)))"
  have rs: "ready_list ?s ps"
    using r ready_list_other [OF p(2), of ?t s] by (simp add: ready_list_def)
  have pt: "tasks ?s p = Some ?t" by simp
  obtain s' where s': "add_task p ?s = ret s'" "ready_list s' (ps @ [p])"
    "s' = (if ps = [] then ?s\<lparr>ready_list_head := p\<rparr>
           else put_task (last ps) ((the (tasks ?s (last ps)))\<lparr>next_node := p\<rparr>) ?s)"
    using add_task_appends [OF rs pt _ p] by auto
  let ?c = "if c_task s' = nullptr then s'\<lparr>c_task := get_head_task s'\<rparr> else s'"
  have head: "get_head_task s' = hd (ps @ [p])"
    using s'(2) by (cases ps) (auto simp: get_head_task_def ready_list_def)
  have put2: "put_task p x (put_task p y z) = put_task p x z" for x y and z :: "'a kernel_scheme"
    by (simp add: put_task_def)
  have init: "(init_task_data a n ms t)\<lparr>name := strcpy (name t) nm,
      cpu_state := (cpu_state (init_task_data a n ms t))\<lparr>sp := a + (n - 3)\<rparr>\<rparr> = ?t"
    by (simp add: new_task_def init_task_data_def)
  have nm': "name (init_task_data a n ms t) = name t" by (simp add: init_task_data_def)
  have run: "create_task p a n nm ms entry s = ret (False, ?c\<lparr>SREG := SREG s\<rparr>)"
    using t nm s'(1) by (simp add: create_task_def deref_def Let_def put2 init nm')
  have same: "c_task s' = c_task s" "SRAM s' = SRAM ?s" "R s' = R s" "SP s' = SP s" "PC s' = PC s"
    by (simp_all add: s'(3) put_task_def)
  have last: "last ps \<noteq> p" if "ps \<noteq> []" using that p(2) by auto
  have tp: "tasks s' p = Some ?t" using last by (auto simp: s'(3))
  have others: "map_option unlinked (tasks s' q) = map_option unlinked (tasks s q)" if "q \<noteq> p" for q
    using ready_list_member [OF r, of "last ps"] that last
    by (auto simp: s'(3) unlinked_def)
  show ?thesis
    by (rule exI [of _ "?c\<lparr>SREG := SREG s\<rparr>"])
      (use run s'(2) head same tp others in \<open>auto simp: ready_list_def\<close>)
qed

lemma create_task_joins_system:
  assumes sys: "system_ok stk ps s" and t: "tasks s p = Some t" and p: "p \<noteq> nullptr" "p \<notin> set ps"
    and nm: "strlen nm < CONF_TASK_NAME_MAX_LENGTH"
    and stk: "{a + (n - 1), a + (n - 2), a + (n - 3), a + (n - 4)} \<subseteq> stk p"
    and dis: "\<And>q. q \<in> set ps \<Longrightarrow> stk p \<inter> stk q = {}"
  shows "\<exists>s' c. create_task p a n nm ms entry s = ret (False, s') \<and> system_ok stk (ps @ [p]) s'
    \<and> c_task s' = c_task s \<and> R s' = R s \<and> SP s' = SP s \<and> PC s' = PC s \<and> SREG s' = SREG s
    \<and> (\<forall>q \<in> set ps. \<forall>x \<in> stk q. SRAM s' x = SRAM s x)
    \<and> task_context s' p = Some c \<and> sreg c = 0x80 \<and> sp c = a + (n - 3)
    \<and> join16 (SRAM s' (sp c + 1)) (SRAM s' (sp c + 2)) = entry"
proof -
  have r: "ready_list s ps" and c: "c_task s \<in> set ps" using sys by (auto simp: system_ok_def)
  obtain s' where s': "create_task p a n nm ms entry s = ret (False, s')" "ready_list s' (ps @ [p])"
    "c_task s' = (if c_task s = nullptr then hd (ps @ [p]) else c_task s)" "SREG s' = SREG s"
    "tasks s' p = Some (new_task a n nm ms t)"
    "\<forall>q. q \<noteq> p \<longrightarrow> map_option unlinked (tasks s' q) = map_option unlinked (tasks s q)"
    "SRAM s' = (SRAM s)(a + (n - 1) := lo8 entry, a + (n - 2) := hi8 entry)"
    "R s' = R s" "SP s' = SP s" "PC s' = PC s"
    using create_task_ok [OF r t p nm] by blast
  have ct: "c_task s' = c_task s" using s'(3) ready_list_member [OF r c] by simp
  have ctx: "task_context s' q = task_context s q" if "q \<noteq> p" for q
  proof -
    have "map_option (cpu_state \<circ> unlinked) (tasks s' q) = map_option (cpu_state \<circ> unlinked) (tasks s q)"
      using s'(6) that by (metis option.map_comp)
    then show ?thesis by (simp add: task_context_def unlinked_def comp_def)
  qed
  have pc: "a + (n - 3) + 2 = a + (n - 1)" "a + (n - 3) + 1 = a + (n - 2)" "a + (n - 3) - 1 = a + (n - 4)"
    by simp_all
  have ctxp: "task_context s' p = Some ((cpu_state t)\<lparr>sreg := 0x80, sp := a + (n - 3)\<rparr>)"
    using s'(5) by (simp add: task_context_def)
  have susp: "suspended_ok stk p s'"
    unfolding suspended_ok_def using stk
    by (intro exI [of _ "(cpu_state t)\<lparr>sreg := 0x80, sp := a + (n - 3)\<rparr>"])
      (simp add: ctxp pc del: add_diff_eq)
  have "suspended_ok stk q s' = suspended_ok stk q s" if "q \<in> set ps" for q
  proof -
    have "task_context s' q = task_context s q" using ctx [of q] that p(2) by blast
    then show ?thesis by (simp add: suspended_ok_def)
  qed
  then have ok: "system_ok stk (ps @ [p]) s'"
    using sys s'(2) ct susp dis p by (auto simp: system_ok_def)
  have mem: "SRAM s' x = SRAM s x" if "q \<in> set ps" "x \<in> stk q" for q x
    using dis [OF that(1)] that(2) stk s'(7) by auto
  show ?thesis
    using s' ok ct mem ctxp pc by (intro exI [of _ s'] exI [of _ "(cpu_state t)\<lparr>sreg := 0x80, sp := a + (n - 3)\<rparr>"])
      (simp del: add_diff_eq)
qed

lemma create_task_name_too_long:
  assumes r: "ready_list s ps" and t: "tasks s p = Some t" and p: "p \<notin> set ps"
    and nm: "CONF_TASK_NAME_MAX_LENGTH \<le> strlen nm"
  shows "\<exists>s'. create_task p a n nm ms entry s = ret (True, s') \<and> ready_list s' ps
    \<and> s' = s\<lparr>tasks := (tasks s)(p \<mapsto> init_task_data a n ms t)\<rparr>"
proof -
  let ?t = "init_task_data a n ms t"
  have "create_task p a n nm ms entry s = ret (True, put_task p ?t s)"
    using t nm by (simp add: create_task_def deref_def Let_def put_task_def cli_def)
  then show ?thesis
    using r ready_list_other [OF p, of ?t s] by (simp add: put_task_def)
qed

text \<open>
  C15: a created task joins the running system. In a well-formed system, \<open>create_task\<close> on a
  task object outside the ready list, with a name that fits and a stack apart from the
  others, succeeds: the task is the last of the ready list, the system is well-formed, SREG is
  restored and the running task goes on undisturbed. The new task's saved context has interrupts
  enabled and makes the first return pop the entry point, three bytes below the end of its
  stack. A name that does not fit is refused: \<open>create_task\<close> then returns the error and changes only the task object
  itself, which has been reset.
\<close>

theorem create_task_joins:
  assumes sys: "system_ok stk ps s" and t: "tasks s p = Some t" and p: "p \<noteq> nullptr" "p \<notin> set ps"
    and stk: "{a + (n - 1), a + (n - 2), a + (n - 3), a + (n - 4)} \<subseteq> stk p"
    and dis: "\<And>q. q \<in> set ps \<Longrightarrow> stk p \<inter> stk q = {}"
  shows "if strlen nm < CONF_TASK_NAME_MAX_LENGTH
    then \<exists>s' c. create_task p a n nm ms entry s = ret (False, s') \<and> system_ok stk (ps @ [p]) s'
      \<and> c_task s' = c_task s \<and> R s' = R s \<and> SP s' = SP s \<and> PC s' = PC s \<and> SREG s' = SREG s
      \<and> (\<forall>q \<in> set ps. \<forall>x \<in> stk q. SRAM s' x = SRAM s x)
      \<and> task_context s' p = Some c \<and> sreg c = 0x80 \<and> sp c = a + (n - 3)
      \<and> join16 (SRAM s' (sp c + 1)) (SRAM s' (sp c + 2)) = entry
    else \<exists>s'. create_task p a n nm ms entry s = ret (True, s') \<and> ready_list s' ps
      \<and> s' = s\<lparr>tasks := (tasks s)(p \<mapsto> init_task_data a n ms t)\<rparr>"
proof (cases "strlen nm < CONF_TASK_NAME_MAX_LENGTH")
  case True
  then show ?thesis using create_task_joins_system [OF sys t p _ stk dis] by simp
next
  case False
  moreover have "ready_list s ps" using sys by (simp add: system_ok_def)
  ultimately show ?thesis using create_task_name_too_long [OF _ t p(2), of nm a n ms entry] by simp
qed

lemma create_task_joins_witness:
  "\<exists>s' c. create_task 0x400 0x500 0x80 ''blink'' 10 0x0ABC
      (two_tasks\<lparr>tasks := (tasks two_tasks)(0x400 \<mapsto> blank_task nullptr)\<rparr>) = ret (False, s')
    \<and> task_context s' 0x400 = Some c \<and> sp c = 0x57D
    \<and> join16 (SRAM s' (sp c + 1)) (SRAM s' (sp c + 2)) = 0x0ABC"
proof -
  let ?s = "two_tasks\<lparr>tasks := (tasks two_tasks)(0x400 \<mapsto> blank_task nullptr)\<rparr>"
  let ?stk = "two_stacks(0x400 := {0x57F, 0x57E, 0x57D, 0x57C})"
  have sys: "system_ok ?stk [0x100, 0x180] ?s"
    by (auto simp: system_ok_def two_tasks_def two_stacks_def kernel_reset_def blank_task_def
        ready_list_def suspended_ok_def task_context_def)
  have t: "tasks ?s 0x400 = Some (blank_task nullptr)" "(0x400 :: ptr) \<noteq> nullptr" "0x400 \<notin> set [0x100, 0x180 :: ptr]"
    by simp_all
  have nm: "strlen ''blink'' < CONF_TASK_NAME_MAX_LENGTH"
    by (simp add: strlen_def CONF_TASK_NAME_MAX_LENGTH_def)
  have stk: "{0x500 + (0x80 - 1), 0x500 + (0x80 - 2), 0x500 + (0x80 - 3), 0x500 + (0x80 - 4)} \<subseteq> ?stk 0x400"
    by simp
  have dis: "?stk 0x400 \<inter> ?stk q = {}" if "q \<in> set [0x100, 0x180]" for q
    using that by (auto simp: two_stacks_def)
  have "(0x500 :: ptr) + (0x80 - 3) = 0x57D" by simp
  with create_task_joins [OF sys t stk dis, of "''blink''" 10 "0x0ABC"] nm show ?thesis by auto
qed

section \<open>Starting the scheduler\<close>

lemma kernel_init_timer_sels [simp]:
  "tasks (kernel_init_timer s) = tasks s" "c_task (kernel_init_timer s) = c_task s"
  "SRAM (kernel_init_timer s) = SRAM s" "SREG (kernel_init_timer s) = SREG s"
  "irq_unmasked COMPB_INTERRUPT (kernel_init_timer s)"
  "OCR0B (kernel_init_timer s) = 246 + TCNT0 s" "TCNT0 (kernel_init_timer s) = TCNT0 s"
  by (simp_all add: kernel_init_timer_def enable_timer0_interrupt_def irq_unmasked_def
      CONTEXT_SWITCH_TICKS_eq bit_simps Let_def)

lemma kernel_start_eq:
  assumes "tasks s (c_task s) = Some t"
  shows "kernel_start s = ret (do_ret (restored (kernel_init_timer s) t))"
  using assms by (simp add: kernel_start_def asm_restore)

text \<open>
  The scheduler starts the first task. After the first \<open>create_task\<close> on an empty ready list,
  \<open>start_scheduler\<close> leaves the processor at the task's entry point with the stack pointer at the last byte
  of its stack, interrupts enabled, the compare interrupt unmasked and armed one time slice ahead.
\<close>

lemma start_scheduler_enters:
  assumes r: "ready_list s []" "c_task s = nullptr" and t: "tasks s p = Some t" "p \<noteq> nullptr"
    and nm: "strlen nm < CONF_TASK_NAME_MAX_LENGTH"
  shows "\<exists>s1 s2. create_task p a n nm ms entry s = ret (False, s1) \<and> start_scheduler s1 = ret s2
    \<and> c_task s2 = p \<and> PC s2 = entry \<and> SP s2 = a + (n - 1) \<and> irq_enabled s2
    \<and> irq_unmasked COMPB_INTERRUPT s2 \<and> OCR0B s2 = 246 + TCNT0 s2"
proof -
  obtain s1 where s1: "create_task p a n nm ms entry s = ret (False, s1)" "c_task s1 = p"
    "tasks s1 p = Some (new_task a n nm ms t)"
    "SRAM s1 = (SRAM s)(a + (n - 1) := lo8 entry, a + (n - 2) := hi8 entry)"
    using create_task_ok [OF r(1) t _ nm, of a n ms entry] r(2) by auto
  let ?t = "new_task a n nm ms t"
  let ?s2 = "do_ret (restored (kernel_init_timer s1) ?t)"
  have "start_scheduler s1 = ret ?s2"
    using kernel_start_eq [of s1 ?t] s1 by (simp add: start_scheduler_def)
  moreover have "SP ?s2 = a + (n - 1)" "PC ?s2 = entry"
    using s1(4) by (simp_all add: restored_def Let_def)
  moreover have "irq_enabled ?s2" by (simp add: irq_enabled_def restored_def Let_def bit_simps)
  moreover have "irq_unmasked COMPB_INTERRUPT ?s2" "OCR0B ?s2 = 246 + TCNT0 ?s2"
    using kernel_init_timer_sels(5,6) [of s1]
    by (simp_all add: restored_def Let_def irq_unmasked_def do_ret_def pop_byte_def)
  ultimately show ?thesis using s1 by auto
qed

lemma start_scheduler_enters_example:
  "\<exists>s1 s2. create_task 0x400 0x500 0x80 ''blink'' 10 0x0ABC (put_task 0x400 (blank_task nullptr) kernel_reset) = ret (False, s1)
    \<and> start_scheduler s1 = ret s2 \<and> PC s2 = 0x0ABC \<and> SP s2 = 0x57F"
  using start_scheduler_enters [of "put_task 0x400 (blank_task nullptr) kernel_reset" "0x400" "blank_task nullptr"
      "''blink''" "0x500" "0x80" 10 "0x0ABC"]
  by (auto simp: kernel_reset_def put_task_def strlen_def CONF_TASK_NAME_MAX_LENGTH_def)

section \<open>Removing a task\<close>

lemma remove_task_listed:
  assumes r: "ready_list s ps" and p: "p \<in> set ps"
  shows "\<exists>s' t. remove_task p s = ret (False, s') \<and> ready_list s' (remove1 p ps) \<and> c_task s' = c_task s
    \<and> tasks s' p = Some t \<and> state t = UNDEFINED
    \<and> (\<forall>q. task_context s' q = task_context s q)"
proof -
  obtain s1 where s1: "remove_task_from_ready_list p s = ret (False, s1)" "ready_list s1 (remove1 p ps)"
    "c_task s1 = c_task s"
    "\<And>q. map_option (\<lambda>t. t\<lparr>next_node := 0\<rparr>) (tasks s1 q) = map_option (\<lambda>t. t\<lparr>next_node := 0\<rparr>) (tasks s q)"
    using remove_task_from_ready_list_removes [OF r p] by blast
  have nn: "p \<noteq> nullptr" "\<exists>t. tasks s p = Some t" using ready_list_member [OF r p] by auto
  have ctx: "task_context s1 q = task_context s q" for q
  proof -
    have "map_option (cpu_state \<circ> (\<lambda>t. t\<lparr>next_node := 0\<rparr>)) (tasks s1 q) =
        map_option (cpu_state \<circ> (\<lambda>t. t\<lparr>next_node := 0\<rparr>)) (tasks s q)"
      using s1(4) by (metis option.map_comp)
    then show ?thesis by (simp add: task_context_def comp_def)
  qed
  obtain t where t: "tasks s1 p = Some t" using s1(4) [of p] nn(2) by auto
  let ?s' = "put_task p (t\<lparr>state := UNDEFINED\<rparr>) s1"
  have "remove_task p s = ret (False, ?s')"
    using s1(1) nn(1) t by (simp add: remove_task_def set_task_state_def deref_def)
  moreover have "task_context ?s' q = task_context s q" for q
    using ctx [of q] t by (auto simp: task_context_def)
  moreover have "ready_list ?s' (remove1 p ps)"
    using ready_list_put_task [OF t] s1(2) by simp
  ultimately show ?thesis using s1(3) by (intro exI [of _ ?s']) auto
qed

text \<open>
  When the only task removes itself, the scheduler then finds neither a successor nor a head, makes the null pointer the
  current task, and the switch stores the new start time through it.
\<close>

lemma removing_last_task_faults:
  assumes r: "ready_list s [p]" "c_task s = p" and null: "tasks s nullptr = None"
  shows "\<exists>s'. remove_task p s = ret (False, s') \<and> c_task s' = p
    \<and> TIMER0_COMPB_vect junk d1 d2 d3 (irq_enter vect s') = fail Null_deref"
proof -
  obtain t where t: "tasks s p = Some t" "next_node t = nullptr"
    using ready_list_next [of s "[]" p "[]"] r by auto
  have nn: "p \<noteq> nullptr" using ready_list_member [OF r(1), of p] by simp
  have head: "ready_list_head s = p" using ready_list_Cons_head [OF r(1)] .
  let ?t = "t\<lparr>state := UNDEFINED\<rparr>"
  let ?s = "put_task p ?t (s\<lparr>ready_list_head := nullptr\<rparr>)"
  have rm: "remove_task p s = ret (False, ?s)"
    using t nn head by (simp add: remove_task_def remove_task_from_ready_list_def get_head_task_def
        get_next_task_def deref_def set_task_state_def put_task_def)
  let ?e = "irq_enter vect ?s"
  have e: "c_task ?e = p" "tasks ?e p = Some ?t" "ready_list_head ?e = nullptr" "tasks ?e nullptr = None"
    using r(2) null nn by (simp_all add: irq_enter_def)
  let ?t1 = "?t\<lparr>cpu_state := snapshot ?e (cpu_state ?t)\<rparr>"
  let ?s1 = "timer0_advance d1 (set_reg 1 0 (saved ?e ?t\<lparr>SREG := (SREG (saved ?e ?t) AND NOT 0x1C) OR 0x02\<rparr>))"
  have s1: "tasks ?s1 p = Some ?t1" "c_task ?s1 = p" "ready_list_head ?s1 = nullptr" "tasks ?s1 nullptr = None"
    using e nn by simp_all
  let ?s2 = "put_task p (account (fst (get_us ?s1)) ?t1) ?s1"
  have calc: "calculate_task_execution_time p ?s1 = ret ?s2"
    using calculate_task_execution_time_eq [OF nn s1(1)] .
  have sched: "schedule_round_robin ?s2 = ret (?s2\<lparr>c_task := nullptr\<rparr>)"
    using s1 nn t by (simp add: schedule_round_robin_def get_next_task_def get_head_task_def deref_def)
  have fault: "set_exec_start x = fail Null_deref" if "c_task x = nullptr" "tasks x nullptr = None" for x :: "'a kernel_scheme"
    using that get_us_state [of x] by (simp add: set_exec_start_def deref_def split_beta)
  have "TIMER0_COMPB_vect junk d1 d2 d3 ?e = fail Null_deref"
    unfolding TIMER0_COMPB_vect_def
    using asm_save [of ?e ?t] e(1,2) s1 nn calc sched
    by (simp add: asm_clr Let_def fault)
  then show ?thesis using rm r(2) by (intro exI [of _ ?s]) simp
qed

lemma removing_last_task_faults_example:
  "\<exists>s'. remove_task 0x400 (put_task 0x400 (blank_task nullptr)
        (kernel_reset\<lparr>c_task := 0x400, ready_list_head := 0x400\<rparr>)) = ret (False, s')
    \<and> TIMER0_COMPB_vect (\<lambda>_. 0) 1 1 1 (irq_enter 0x1E s') = fail Null_deref"
  using removing_last_task_faults [of "put_task 0x400 (blank_task nullptr)
        (kernel_reset\<lparr>c_task := 0x400, ready_list_head := 0x400\<rparr>)" "0x400" "\<lambda>_. 0" 1 1 1 "0x1E"]
  by (auto simp: ready_list_def put_task_def kernel_reset_def blank_task_def)

text \<open>
  C22: \<open>remove_task\<close> takes a ready task out. It reports success, the ready list loses
  exactly that task and keeps its order, the task's state is \<open>UNDEFINED\<close>, no saved context
  changes, and the task stays the current one until its time slice ends if it was. Two cases go wrong. Removing a task that is
  not in the ready list dereferences the null pointer instead of reporting an error (only the null task itself is refused). When the only task
  removes itself, the next task switch dereferences the null pointer.
\<close>

theorem remove_task_removes:
  assumes r: "ready_list s ps" and null: "tasks s nullptr = None"
  shows "if p \<in> set ps
    then \<exists>s' t. remove_task p s = ret (False, s') \<and> ready_list s' (remove1 p ps) \<and> c_task s' = c_task s
      \<and> tasks s' p = Some t \<and> state t = UNDEFINED \<and> (\<forall>q. task_context s' q = task_context s q)
      \<and> (ps = [p] \<and> c_task s = p \<longrightarrow> TIMER0_COMPB_vect junk d1 d2 d3 (irq_enter vect s') = fail Null_deref)
    else remove_task p s = (if p = nullptr then ret (True, s) else fail Null_deref)"
proof (cases "p \<in> set ps")
  case True
  then obtain s' t where s': "remove_task p s = ret (False, s')" "ready_list s' (remove1 p ps)" "c_task s' = c_task s"
    "tasks s' p = Some t" "state t = UNDEFINED" "\<forall>q. task_context s' q = task_context s q"
    using remove_task_listed [OF r] by blast
  moreover have "TIMER0_COMPB_vect junk d1 d2 d3 (irq_enter vect s') = fail Null_deref" if "ps = [p] \<and> c_task s = p"
    using removing_last_task_faults [of s p junk d1 d2 d3 vect] r null that s'(1) by auto
  ultimately show ?thesis using True by auto
next
  case False
  then show ?thesis using remove_task_not_listed_faults [OF r False null] by (simp add: remove_task_def)
qed

lemma remove_task_removes_witness:
  "(\<exists>s' t. remove_task 0x200 three_tasks = ret (False, s') \<and> ready_list s' [0x100, 0x300]
      \<and> tasks s' 0x200 = Some t \<and> state t = UNDEFINED)
   \<and> remove_task 0x400 three_tasks = fail Null_deref"
  using remove_task_removes [OF ready_list_three_tasks, of "0x200"] remove_task_removes [OF ready_list_three_tasks, of "0x400"]
  by (auto simp: three_tasks_def)

section \<open>Arguments of a task\<close>

text \<open>
  The calling convention: arguments are assigned from register 25 downwards, each padded to
  an even size, as long as at most \<open>lim\<close> bytes of registers are used; from the first
  argument that does not fit on, all go to the stack. The result is the first register of each
  argument that is passed in registers, and the arguments passed on the stack.
\<close>

fun place_args :: "nat \<Rightarrow> nat \<Rightarrow> u8 list list \<Rightarrow> (nat \<times> u8 list) list \<times> u8 list list" where
  "place_args lim used [] = ([], [])"
| "place_args lim used (a # as) =
     (let n = length a + length a mod 2
      in if used + n \<le> lim
         then (let (rs, st) = place_args lim (used + n) as in ((26 - used - n, a) # rs, st))
         else ([], a # as))"

lemma copy_mem_append:
  "copy_mem a (xs @ ys) s = copy_mem (a + of_nat (length xs)) ys (copy_mem a xs s)"
  by (induction xs arbitrary: a s) (simp_all add: algebra_simps)

lemma SRAM_copy_mem_other:
  "(\<And>j. j < length bs \<Longrightarrow> x \<noteq> a + of_nat j) \<Longrightarrow> SRAM (copy_mem a bs s) x = SRAM s x"
proof (induction bs arbitrary: a s)
  case (Cons b bs)
  have "x \<noteq> a + 1 + of_nat j" if "j < length bs" for j
    using Cons.prems [of "Suc j"] that by (simp add: algebra_simps)
  moreover have "x \<noteq> a" using Cons.prems [of 0] by simp
  ultimately show ?case using Cons.IH by simp
qed simp

lemma of_nat_u16_inject:
  "i < 65536 \<Longrightarrow> j < 65536 \<Longrightarrow> (of_nat i :: u16) = of_nat j \<longleftrightarrow> i = j"
  by (simp add: word_of_nat_eq_iff take_bit_nat_eq_self)

lemma SRAM_copy_mem:
  "length bs \<le> 65536 \<Longrightarrow> j < length bs \<Longrightarrow> SRAM (copy_mem a bs s) (a + of_nat j) = bs ! j"
proof (induction bs arbitrary: a j s)
  case (Cons b bs)
  show ?case
  proof (cases j)
    case 0
    have "a \<noteq> a + 1 + of_nat i" if "i < length bs" for i
    proof -
      have "(of_nat (Suc i) :: u16) \<noteq> of_nat 0"
        using that Cons.prems(1) by (subst of_nat_u16_inject) simp_all
      then show ?thesis by (simp add: add.assoc del: of_nat_0)
    qed
    then show ?thesis using 0 by (simp add: SRAM_copy_mem_other)
  next
    case (Suc i)
    then show ?thesis using Cons.IH [of i "a + 1"] Cons.prems by (simp add: algebra_simps)
  qed
qed simp

abbreviation no_args :: arg_count where
  "no_args \<equiv> \<lparr>args_to_stack = False, regs_used = 0, stack_used = 0\<rparr>"

lemma calc_sizes_stack:
  "args_to_stack n \<Longrightarrow> stack_used (fold calc_sizes as n) = stack_used n + length (concat as)"
proof (induction as arbitrary: n)
  case (Cons a as)
  from Cons.prems Cons.IH [of "calc_sizes a n"] show ?case by (simp add: calc_sizes_def Let_def)
qed simp

lemma calc_sizes_place:
  "\<not> args_to_stack n \<Longrightarrow>
   stack_used (fold calc_sizes as n) = stack_used n + length (concat (snd (place_args 16 (regs_used n) as)))"
proof (induction as arbitrary: n)
  case (Cons a as)
  let ?n = "length a + length a mod 2"
  show ?case
  proof (cases "regs_used n + ?n \<le> 16")
    case True
    then have "calc_sizes a n = n\<lparr>regs_used := regs_used n + ?n\<rparr>"
      using Cons.prems by (simp add: calc_sizes_def Let_def)
    then show ?thesis
      using Cons.IH [of "n\<lparr>regs_used := regs_used n + ?n\<rparr>"] Cons.prems True
      by (simp add: Let_def split_beta)
  next
    case False
    then have "calc_sizes a n = n\<lparr>args_to_stack := True, stack_used := stack_used n + length a\<rparr>"
      by (simp add: calc_sizes_def Let_def)
    then show ?thesis
      using calc_sizes_stack [of "n\<lparr>args_to_stack := True, stack_used := stack_used n + length a\<rparr>" as] False
      by (simp add: Let_def)
  qed
qed simp

lemma process_args_stack:
  assumes "tasks s p = Some t" "args_to_stack n" "stack_used n = length (concat as)"
  shows "\<exists>n'. process_args p as n s =
    ret (n', copy_mem (memory_ptr (stack t) + (stack_size (stack t) - of_nat (stack_used n) - 1)) (concat as) s)"
  using assms
proof (induction as arbitrary: n s)
  case (Cons a as)
  let ?b = "memory_ptr (stack t) + (stack_size (stack t) - of_nat (stack_used n) - 1)"
  let ?n = "n\<lparr>args_to_stack := True, stack_used := stack_used n - length a\<rparr>"
  have "process_arg p a n s = ret (?n, copy_mem ?b a s)"
    using Cons.prems by (simp add: process_arg_def deref_def Let_def)
  then show ?case
    using Cons.IH [of "copy_mem ?b a s" ?n] Cons.prems by (simp add: copy_mem_append algebra_simps)
qed simp

definition load_args :: "(nat \<times> u8 list) list \<Rightarrow> cpu_registers \<Rightarrow> cpu_registers" where
  "load_args rs c = fold (\<lambda>(b, bs). copy_regs b bs) rs c"

lemma process_args_place:
  assumes "tasks s p = Some t" "\<not> args_to_stack n"
    "place_args 16 (regs_used n) as = (rs, st)" "stack_used n = length (concat st)"
  shows "\<exists>n'. process_args p as n s = ret (n',
    copy_mem (memory_ptr (stack t) + (stack_size (stack t) - of_nat (stack_used n) - 1)) (concat st)
      (put_task p (t\<lparr>cpu_state := load_args rs (cpu_state t)\<rparr>) s))"
  using assms
proof (induction as arbitrary: n s t rs)
  case Nil
  then show ?case by (auto simp: put_task_def load_args_def fun_upd_idem)
next
  case (Cons a as)
  let ?k = "length a + length a mod 2"
  show ?case
  proof (cases "regs_used n + ?k \<le> 16")
    case True
    let ?n = "n\<lparr>regs_used := regs_used n + ?k\<rparr>"
    let ?t = "t\<lparr>cpu_state := copy_regs (26 - regs_used n - ?k) a (cpu_state t)\<rparr>"
    obtain rs' where rs: "place_args 16 (regs_used n + ?k) as = (rs', st)" "rs = (26 - regs_used n - ?k, a) # rs'"
      using Cons.prems(3) True by (auto simp: Let_def split_beta prod_eq_iff)
    have "25 - regs_used n - length a - length a mod 2 + 1 = 26 - regs_used n - ?k"
      using True by simp
    then have "process_arg p a n s = ret (?n, put_task p ?t s)"
      using Cons.prems(1,2) True by (simp add: process_arg_def deref_def Let_def)
    then show ?thesis
      using Cons.IH [of "put_task p ?t s" ?t ?n rs'] Cons.prems rs
      by (simp add: load_args_def put_task_def)
  next
    case False
    then have rs: "rs = []" "st = a # as" using Cons.prems(3) by (simp_all add: Let_def)
    let ?n = "n\<lparr>args_to_stack := True\<rparr>"
    have "process_arg p a n s = process_arg p a ?n s"
      using False by (simp add: process_arg_def Let_def)
    then have "process_args p (a # as) n s = process_args p (a # as) ?n s" by simp
    moreover have "put_task p (t\<lparr>cpu_state := load_args rs (cpu_state t)\<rparr>) s = s"
      using Cons.prems(1) by (simp add: rs load_args_def put_task_def fun_upd_idem)
    ultimately show ?thesis
      using process_args_stack [of s p t ?n "a # as"] Cons.prems rs by simp
  qed
qed

lemma regs_load_args_above:
  assumes "place_args lim used as = (rs, st)" "used \<le> lim" "lim \<le> 26" "26 - used \<le> i"
  shows "regs (load_args rs c) i = regs c i"
  using assms
proof (induction as arbitrary: used rs c)
  case (Cons a as)
  let ?k = "length a + length a mod 2"
  show ?case
  proof (cases "used + ?k \<le> lim")
    case True
    obtain rs' where rs: "place_args lim (used + ?k) as = (rs', st)" "rs = (26 - used - ?k, a) # rs'"
      using Cons.prems(1) True by (auto simp: Let_def split_beta prod_eq_iff)
    have "regs (load_args rs' (copy_regs (26 - used - ?k) a c)) i = regs (copy_regs (26 - used - ?k) a c) i"
      using Cons.IH [OF rs(1) True Cons.prems(3)] Cons.prems(4) by simp
    then show ?thesis
      using Cons.prems True rs(2) by (auto simp: load_args_def copy_regs_def)
  qed (use Cons.prems in \<open>simp add: load_args_def Let_def\<close>)
qed (simp add: load_args_def)

lemma regs_load_args:
  assumes "place_args lim used as = (rs, st)" "used \<le> lim" "lim \<le> 26" "(b, bs) \<in> set rs" "j < length bs"
  shows "regs (load_args rs c) (b + j) = bs ! j"
  using assms
proof (induction as arbitrary: used rs c)
  case (Cons a as)
  let ?k = "length a + length a mod 2"
  let ?c = "copy_regs (26 - used - ?k) a c"
  have True: "used + ?k \<le> lim"
    using Cons.prems(1,4) by (auto simp: Let_def split: if_splits)
  obtain rs' where rs: "place_args lim (used + ?k) as = (rs', st)" "rs = (26 - used - ?k, a) # rs'"
    using Cons.prems(1) True by (auto simp: Let_def split_beta prod_eq_iff)
  have "regs (load_args rs' ?c) (b + j) = bs ! j"
  proof (cases "(b, bs) \<in> set rs'")
    case False
    then have "b = 26 - used - ?k" "bs = a" using Cons.prems(4) rs(2) by auto
    then show ?thesis
      using regs_load_args_above [OF rs(1) True Cons.prems(3), of "b + j" ?c] Cons.prems(5)
      by (simp add: copy_regs_def)
  qed (use Cons.IH [OF rs(1) True] Cons.prems in auto)
  then show ?case by (simp add: rs(2) load_args_def)
qed simp

lemma create_task_args_run:
  assumes run: "create_task p a n nm ms entry (cli s) = ret (False, s1)"
    and t: "tasks s1 p = Some t" "stack t = \<lparr>memory_ptr = a, stack_size = n\<rparr>"
    and pl: "place_args 16 0 args = (rs, st)" and m: "m = length (concat st)"
  shows "create_task_args p a n nm ms entry args s =
    (let s2 = copy_mem (a + (n - of_nat m - 1)) (concat st)
                (put_task p (t\<lparr>cpu_state := load_args rs (cpu_state t)\<rparr>) s1)
     in ret (False, sei ((if m \<noteq> 0
          then poke (a + (n - of_nat m - 6 + 1)) (hi8 entry) (poke (a + (n - of_nat m - 6 + 2)) (lo8 entry)
                 (put_task p (t\<lparr>cpu_state := (load_args rs (cpu_state t))\<lparr>sp := a + (n - of_nat m - 6)\<rparr>\<rparr>) s2))
          else s2)\<lparr>SREG := SREG s\<rparr>)))"
proof -
  have sizes: "stack_used (fold calc_sizes args no_args) = m"
    using calc_sizes_place [of no_args args] pl m by simp
  obtain n' where "process_args p args \<lparr>args_to_stack = False, regs_used = 0, stack_used = m\<rparr> s1 =
      ret (n', copy_mem (a + (n - of_nat m - 1)) (concat st)
        (put_task p (t\<lparr>cpu_state := load_args rs (cpu_state t)\<rparr>) s1))"
    using process_args_place [OF t(1), of "\<lparr>args_to_stack = False, regs_used = 0, stack_used = m\<rparr>" args rs st] pl m t(2)
    by auto
  then show ?thesis
    using run t(2) by (simp add: create_task_args_def sizes deref_def Let_def del: fold_simps)
qed

lemma ready_list_tasks_sels [simp]:
  "ready_list (poke a v s) ps = ready_list s ps" "ready_list (copy_mem a bs s) ps = ready_list s ps"
  "ready_list (s\<lparr>SREG := x\<rparr>) ps = ready_list s ps"
  by (simp_all add: ready_list_def)

lemma load_args_sels [simp]: "sreg (load_args rs c) = sreg c" "sp (load_args rs c) = sp c"
  by (induction rs arbitrary: c) (auto simp: load_args_def copy_regs_def)

text \<open>The arguments on the stack are not touched by the return address below them.\<close>

lemma stacked_args:
  fixes a n :: ptr
  assumes j: "j < length bs" and room: "length bs + 6 \<le> unat n" and b: "b = a + (n - of_nat (length bs) - 6)"
  shows "SRAM (poke (b + 1) h (poke (b + 2) l (put_task p t (copy_mem (a + (n - of_nat (length bs) - 1)) bs s)))) (b + 2 + 3 + of_nat j)
    = bs ! j"
proof -
  have m: "length bs < 65530" using room unat_u16_less [of n] by linarith
  have "(of_nat (j + 4) :: u16) \<noteq> of_nat 0" "(of_nat (j + 3) :: u16) \<noteq> of_nat 0"
    using j m by (subst of_nat_u16_inject; simp)+
  then have ne: "b + 2 + 3 + of_nat j \<noteq> b + 1" "b + 2 + 3 + of_nat j \<noteq> b + 2" by (auto simp: algebra_simps)
  have eq: "b + 2 + 3 + of_nat j = a + (n - of_nat (length bs) - 1) + of_nat j" by (simp add: b algebra_simps)
  have "SRAM (copy_mem (a + (n - of_nat (length bs) - 1)) bs s) (b + 2 + 3 + of_nat j) = bs ! j"
    unfolding eq using j m by (intro SRAM_copy_mem) simp_all
  then show ?thesis using ne by (simp only: poke_sels put_task_sels fun_upd_other not_False_eq_True)
qed


definition nine_words :: "u8 list list" where
  "nine_words = [[1, 0], [2, 0], [3, 0], [4, 0], [5, 0], [6, 0], [7, 0], [8, 0], [9, 0]]"

lemma place_nine_words:
  "place_args 16 0 nine_words = ([(24, [1, 0]), (22, [2, 0]), (20, [3, 0]), (18, [4, 0]), (16, [5, 0]),
     (14, [6, 0]), (12, [7, 0]), (10, [8, 0])], [[9, 0]])"
  by (simp add: nine_words_def)




end
