(* ===== verification/Usart.thy ===== *)
theory Usart
  imports Task
begin

text \<open>
  The interrupt-driven serial driver \<^verbatim>\<open>lib/AVR-UART-LIB\<close>: configuration, state, setup and the
  transmit side. The four instances of the code differ only in the names of their registers
  and options, so the functions here take a configuration (the preprocessor options) and the number of the
  unit; \<open>Usart_Instances\<close> has the instances. Where the source has a C version and an assembly version of a
  function, both are modelled. The options that would reserve registers globally, leave
  interrupts enabled in handlers or address the unit through the lower I/O space are undefined in this
  build and stay so here, and so do the \<open>*_EVENT\<close> hooks, which are empty.

  A loop that polls a variable changed by interrupts calls \<open>env\<close> between two reads: the
  interrupts and the hardware running meanwhile. A function that never returns is \<^term>\<open>None\<close>.
\<close>

section \<open>Configuration\<close>

datatype newline_mode = NEWLINE_R | NEWLINE_N | NEWLINE_RN

record usart_config =
  NO_ABI_BREAKING :: bool
  LF_TO_CRLF :: bool
  FAST_INSERTIONS :: bool
  SOFT_CTS :: bool
  SOFT_RTS :: bool
  RS485_MODE :: bool
  U2X_SPEED :: bool
  MPCM_MODE :: bool
  EXTEND_RX :: bool
  GETC_ECHO :: bool
  GETCHAR_ECHO :: bool
  NEWLINE_MODE :: newline_mode
  UPPERCASE_HEX :: bool
  NO_RX_INTERRUPT :: bool
  NO_TX_INTERRUPT :: bool
  TX_BUFFER_SIZE :: nat
  RX_BUFFER_SIZE :: nat
  CTS_IONUM :: nat
  RTS_IONUM :: nat
  RS485_IONUM :: nat
  MPCM_ADDRESS :: u8
  MPCM_GCALL :: "u8 option"
  TX_BUF_ADDR :: ptr
  RX_BUF_ADDR :: ptr

text \<open>
  The options this build selects; where the buffers lie is up to the linker. The numbers of
  unused pins play no part. \<open>Usart_Options\<close> derives this record from the configuration file.
\<close>

definition build_config :: "ptr \<Rightarrow> ptr \<Rightarrow> usart_config" where
  "build_config tx rx =
     \<lparr>NO_ABI_BREAKING = False, LF_TO_CRLF = False, FAST_INSERTIONS = False, SOFT_CTS = False, SOFT_RTS = False,
      RS485_MODE = False, U2X_SPEED = False, MPCM_MODE = False, EXTEND_RX = False, GETC_ECHO = False,
      GETCHAR_ECHO = True, NEWLINE_MODE = NEWLINE_RN, UPPERCASE_HEX = False, NO_RX_INTERRUPT = False,
      NO_TX_INTERRUPT = False, TX_BUFFER_SIZE = 32, RX_BUFFER_SIZE = 32, CTS_IONUM = 0, RTS_IONUM = 0,
      RS485_IONUM = 0, MPCM_ADDRESS = 0x01, MPCM_GCALL = None, TX_BUF_ADDR = tx, RX_BUF_ADDR = rx\<rparr>"

text \<open>Bits of the control registers UCSRnA and UCSRnB.\<close>

abbreviation (input) RXC_BIT :: nat where "RXC_BIT \<equiv> 7"
abbreviation (input) UDRE_BIT :: nat where "UDRE_BIT \<equiv> 5"
abbreviation (input) U2X_BIT :: nat where "U2X_BIT \<equiv> 1"
abbreviation (input) MPCM_BIT :: nat where "MPCM_BIT \<equiv> 0"
abbreviation (input) RXCIE_BIT :: nat where "RXCIE_BIT \<equiv> 7"
abbreviation (input) TXCIE_BIT :: nat where "TXCIE_BIT \<equiv> 6"
abbreviation (input) UDRIE_BIT :: nat where "UDRIE_BIT \<equiv> 5"
abbreviation (input) RXEN_BIT :: nat where "RXEN_BIT \<equiv> 4"
abbreviation (input) TXEN_BIT :: nat where "TXEN_BIT \<equiv> 3"
abbreviation (input) UCSZ2_BIT :: nat where "UCSZ2_BIT \<equiv> 2"
abbreviation (input) TXB8_BIT :: nat where "TXB8_BIT \<equiv> 0"

definition TX_BUFFER_MASK :: "usart_config \<Rightarrow> u8" where
  "TX_BUFFER_MASK c = of_nat (TX_BUFFER_SIZE c - 1)"

definition RX_BUFFER_MASK :: "usart_config \<Rightarrow> u8" where
  "RX_BUFFER_MASK c = of_nat (RX_BUFFER_SIZE c - 1)"

definition BAUD_CALC :: "nat \<Rightarrow> nat" where
  "BAUD_CALC x = (F_CPU + x * 8) div (16 * x) - 1"

definition BAUD_CALC_FAST :: "nat \<Rightarrow> nat" where
  "BAUD_CALC_FAST x = F_CPU div (x * 16) - 1"

definition DOUBLE_BAUD_CALC :: "nat \<Rightarrow> nat" where
  "DOUBLE_BAUD_CALC x = (F_CPU + x * 4) div (8 * x) - 1"

definition CONFIG_B :: "usart_config \<Rightarrow> u8" where
  "CONFIG_B c =
     (if MPCM_MODE c
      then
        (if NO_RX_INTERRUPT c then bv TXEN_BIT OR bv UCSZ2_BIT
         else if NO_TX_INTERRUPT c then bv RXEN_BIT OR bv RXCIE_BIT OR bv UCSZ2_BIT
         else if RS485_MODE c
         then bv TXEN_BIT OR bv TXCIE_BIT OR bv RXEN_BIT OR bv RXCIE_BIT OR bv UCSZ2_BIT
         else bv TXEN_BIT OR bv RXEN_BIT OR bv RXCIE_BIT OR bv UCSZ2_BIT)
      else
        (if NO_RX_INTERRUPT c then bv TXEN_BIT
         else if NO_TX_INTERRUPT c then bv RXEN_BIT OR bv RXCIE_BIT
         else if RS485_MODE c then bv TXEN_BIT OR bv TXCIE_BIT OR bv RXEN_BIT OR bv RXCIE_BIT
         else bv TXEN_BIT OR bv RXEN_BIT OR bv RXCIE_BIT))"

section \<open>State\<close>

text \<open>
  One unit: its registers, the pins of the flow control lines and the two ring buffers. A
  buffer is indexed by its 8-bit head and tail; \<open>UDR_out\<close> is the sequence of bytes
  written to the data register and \<open>UDR_in\<close> the received byte it holds.
\<close>

record usart =
  UDR_out :: "u8 list"
  UDR_in :: u8
  UCSRA :: u8
  UCSRB :: u8
  UCSRC :: u8
  UBRRL :: u8
  UBRRH :: u8
  CTS_PIN :: u8
  CTS_PORT :: u8
  RTS_DDR :: u8
  RTS_PORT :: u8
  RS485_DDR :: u8
  RS485_PORT :: u8
  tx_Head :: u8
  tx_Tail :: u8
  tx_buffer :: "u8 \<Rightarrow> u8"
  rx_Head :: u8
  rx_Tail :: u8
  rx_buffer :: "u8 \<Rightarrow> u8"

record board = kernel +
  units :: "nat \<Rightarrow> usart"

text \<open>After reset only the data register empty flag and the default frame format are set.\<close>

definition usart_reset :: usart where
  "usart_reset = \<lparr>UDR_out = [], UDR_in = 0, UCSRA = 0x20, UCSRB = 0, UCSRC = 0x06, UBRRL = 0, UBRRH = 0,
     CTS_PIN = 0, CTS_PORT = 0, RTS_DDR = 0, RTS_PORT = 0, RS485_DDR = 0, RS485_PORT = 0,
     tx_Head = 0, tx_Tail = 0, tx_buffer = \<lambda>_. 0, rx_Head = 0, rx_Tail = 0, rx_buffer = \<lambda>_. 0\<rparr>"

definition board_reset :: board where
  "board_reset = kernel.extend kernel_reset (board.fields (\<lambda>_. usart_reset))"

type_synonym 'z env = "'z board_scheme \<Rightarrow> 'z board_scheme"

definition on_unit :: "nat \<Rightarrow> (usart \<Rightarrow> usart) \<Rightarrow> 'z board_scheme \<Rightarrow> 'z board_scheme" where
  "on_unit n f s = s\<lparr>units := (units s)(n := f (units s n))\<rparr>"

definition write_UDR :: "nat \<Rightarrow> u8 \<Rightarrow> 'z board_scheme \<Rightarrow> 'z board_scheme" where
  "write_UDR n v = on_unit n (\<lambda>u. u\<lparr>UDR_out := UDR_out u @ [v]\<rparr>)"

text \<open>Reading the data register takes the received byte and clears the receive flag.\<close>

definition read_UDR :: "nat \<Rightarrow> 'z board_scheme \<Rightarrow> u8 \<times> 'z board_scheme" where
  "read_UDR n s = (UDR_in (units s n), on_unit n (\<lambda>u. u\<lparr>UCSRA := UCSRA u AND NOT (bv RXC_BIT)\<rparr>) s)"

definition set_UCSRB :: "nat \<Rightarrow> nat \<Rightarrow> 'z board_scheme \<Rightarrow> 'z board_scheme" where
  "set_UCSRB n b = on_unit n (\<lambda>u. u\<lparr>UCSRB := UCSRB u OR bv b\<rparr>)"

definition clear_UCSRB :: "nat \<Rightarrow> nat \<Rightarrow> 'z board_scheme \<Rightarrow> 'z board_scheme" where
  "clear_UCSRB n b = on_unit n (\<lambda>u. u\<lparr>UCSRB := UCSRB u AND NOT (bv b)\<rparr>)"

text \<open>The clear-to-send line is active low; without flow control it counts as clear.\<close>

definition cts_clear :: "usart_config \<Rightarrow> usart \<Rightarrow> bool" where
  "cts_clear c u \<longleftrightarrow> (SOFT_CTS c \<longrightarrow> CTS_PIN u AND bv (CTS_IONUM c) = 0)"

section \<open>Setup\<close>

definition uart_init :: "usart_config \<Rightarrow> nat \<Rightarrow> u16 \<Rightarrow> 'z board_scheme \<Rightarrow> 'z board_scheme" where
  "uart_init c n ubrr_value =
     on_unit n (\<lambda>u.
       let u = (if RS485_MODE c then u\<lparr>RS485_DDR := RS485_DDR u OR bv (RS485_IONUM c)\<rparr> else u);
           u = u\<lparr>UBRRL := lo8 ubrr_value\<rparr>;
           u = u\<lparr>UBRRH := hi8 ubrr_value\<rparr>;
           u = (if U2X_SPEED c
                then (if MPCM_MODE c then u\<lparr>UCSRA := bv U2X_BIT OR bv MPCM_BIT\<rparr>
                      else u\<lparr>UCSRA := bv U2X_BIT\<rparr>)
                else if MPCM_MODE c then u\<lparr>UCSRA := UCSRA u OR bv MPCM_BIT\<rparr>
                else u);
           u = u\<lparr>UCSRB := CONFIG_B c\<rparr>
       in (if SOFT_RTS c then u\<lparr>RTS_DDR := RTS_DDR u OR bv (RTS_IONUM c)\<rparr> else u))"

definition uart_set_FrameFormat :: "nat \<Rightarrow> u8 \<Rightarrow> 'z board_scheme \<Rightarrow> 'z board_scheme" where
  "uart_set_FrameFormat n v = on_unit n (\<lambda>u. u\<lparr>UCSRC := v\<rparr>)"

definition uart_set_U2X :: "nat \<Rightarrow> 'z board_scheme \<Rightarrow> 'z board_scheme" where
  "uart_set_U2X n = on_unit n (\<lambda>u. u\<lparr>UCSRA := UCSRA u OR bv U2X_BIT\<rparr>)"

definition uart_mpcm_slave_return_idle :: "nat \<Rightarrow> 'z board_scheme \<Rightarrow> 'z board_scheme" where
  "uart_mpcm_slave_return_idle n = on_unit n (\<lambda>u. u\<lparr>UCSRA := UCSRA u OR bv MPCM_BIT\<rparr>)"

definition uart_reinit :: "usart_config \<Rightarrow> nat \<Rightarrow> u16 \<Rightarrow> 'z board_scheme \<Rightarrow> 'z board_scheme" where
  "uart_reinit c n ubrr_value =
     on_unit n (\<lambda>u.
       let u = (if SOFT_RTS c then u\<lparr>RTS_PORT := RTS_PORT u OR bv (RTS_IONUM c)\<rparr> else u);
           u = (if RS485_MODE c
                then u\<lparr>RS485_PORT := RS485_PORT u AND NOT (bv (RS485_IONUM c)),
                       RS485_DDR := RS485_DDR u OR bv (RS485_IONUM c)\<rparr> else u);
           u = u\<lparr>UCSRB := 0\<rparr>;
           u = u\<lparr>UBRRL := lo8 ubrr_value\<rparr>;
           u = u\<lparr>UBRRH := hi8 ubrr_value\<rparr>;
           u = (if U2X_SPEED c
                then (if MPCM_MODE c then u\<lparr>UCSRA := bv U2X_BIT OR bv MPCM_BIT\<rparr>
                      else u\<lparr>UCSRA := bv U2X_BIT\<rparr>)
                else if MPCM_MODE c then u\<lparr>UCSRA := bv MPCM_BIT\<rparr>
                else u);
           u = u\<lparr>UCSRB := CONFIG_B c\<rparr>
       in (if SOFT_RTS c
           then u\<lparr>RTS_DDR := RTS_DDR u OR bv (RTS_IONUM c),
                  RTS_PORT := RTS_PORT u AND NOT (bv (RTS_IONUM c))\<rparr> else u))"

section \<open>Transmitting a byte\<close>

partial_function (option) wait_tx_space ::
  "'z env \<Rightarrow> nat \<Rightarrow> u8 \<Rightarrow> 'z board_scheme \<Rightarrow> 'z board_scheme option" where
  "wait_tx_space env n head s =
     (if tx_Tail (units s n) = head then wait_tx_space env n head (env s) else Some s)"

text \<open>
  The address of a buffer element as the assembly computes it: the index is subtracted
  from by the negated buffer address, low byte first, then the high byte with borrow.
\<close>

definition asm_address :: "ptr \<Rightarrow> u8 \<Rightarrow> ptr" where
  "asm_address buf index =
     (let k = - buf;
          lo = index - lo8 k;
          borrow = (if index < lo8 k then 1 else 0);
          hi = 0 - hi8 k - borrow
      in join16 hi lo)"

text \<open>The array element that an address inside the buffer names.\<close>

definition asm_element :: "ptr \<Rightarrow> ptr \<Rightarrow> u8" where
  "asm_element buf a = lo8 (a - buf)"

definition store_tx :: "nat \<Rightarrow> u8 \<Rightarrow> u8 \<Rightarrow> 'z board_scheme \<Rightarrow> 'z board_scheme" where
  "store_tx n i v = on_unit n (\<lambda>u. u\<lparr>tx_buffer := (tx_buffer u)(i := v)\<rparr>)"

text \<open>The statements inside the atomic block of all four versions.\<close>

definition tx_publish :: "usart_config \<Rightarrow> nat \<Rightarrow> u8 \<Rightarrow> 'z board_scheme \<Rightarrow> 'z board_scheme" where
  "tx_publish c n head s =
     (let s = on_unit n (\<lambda>u. u\<lparr>tx_Head := head\<rparr>) s;
          s = (if RS485_MODE c
               then on_unit n (\<lambda>u. u\<lparr>RS485_PORT := RS485_PORT u OR bv (RS485_IONUM c)\<rparr>) s else s)
      in if cts_clear c (units s n) then set_UCSRB n UDRIE_BIT s else s)"

definition atomic_restorestate :: "('z board_scheme \<Rightarrow> 'z board_scheme) \<Rightarrow> 'z board_scheme \<Rightarrow> 'z board_scheme" where
  "atomic_restorestate body s = (let sreg_save = SREG s in (body (cli s))\<lparr>SREG := sreg_save\<rparr>)"

text \<open>
  The C version. The fast insertion tests the register with the number of the flag, not with
  its mask.
\<close>

definition fast_insertion_C :: "usart_config \<Rightarrow> usart \<Rightarrow> bool" where
  "fast_insertion_C c u \<longleftrightarrow>
     FAST_INSERTIONS c \<and> cts_clear c u \<and> tx_Tail u = tx_Head u \<and> UCSRA u AND of_nat UDRE_BIT \<noteq> 0"

definition uart_putc_char_C :: "usart_config \<Rightarrow> 'z env \<Rightarrow> nat \<Rightarrow> u8 \<Rightarrow> 'z board_scheme \<Rightarrow> 'z board_scheme outcome" where
  "uart_putc_char_C c env n data s =
     (if fast_insertion_C c (units s n) then ret (write_UDR n data s)
      else
        let head = (tx_Head (units s n) + 1) AND TX_BUFFER_MASK c in
        case wait_tx_space env n head s of
          None \<Rightarrow> None
        | Some s \<Rightarrow> ret (atomic_restorestate (tx_publish c n head) (store_tx n head data s)))"

definition uart_putc_C :: "usart_config \<Rightarrow> 'z env \<Rightarrow> nat \<Rightarrow> u8 \<Rightarrow> 'z board_scheme \<Rightarrow> 'z board_scheme outcome" where
  "uart_putc_C c env n data s =
     (if LF_TO_CRLF c \<and> data = 10
      then obind (uart_putc_char_C c env n 13 s) (uart_putc_char_C c env n data)
      else uart_putc_char_C c env n data s)"

text \<open>
  The assembly version; \<open>msk\<close> is the operand of its first block. The fast insertion tests
  the output register of the clear-to-send pin and the flag itself, and returns without a
  change of SREG; the normal insertion ends with \<open>reti\<close>, which enables interrupts.
\<close>

definition fast_insertion_asm :: "usart_config \<Rightarrow> usart \<Rightarrow> bool" where
  "fast_insertion_asm c u \<longleftrightarrow>
     FAST_INSERTIONS c \<and> (SOFT_CTS c \<longrightarrow> \<not> bit (CTS_PORT u) (CTS_IONUM c)) \<and>
     tx_Tail u = tx_Head u \<and> bit (UCSRA u) UDRE_BIT"

definition uart_putc_char_asm ::
  "usart_config \<Rightarrow> u8 \<Rightarrow> 'z env \<Rightarrow> nat \<Rightarrow> u8 \<Rightarrow> 'z board_scheme \<Rightarrow> 'z board_scheme outcome" where
  "uart_putc_char_asm c msk env n data s =
     (if fast_insertion_asm c (units s n) then ret (write_UDR n data s)
      else
        let head = tx_Head (units s n) + 1;
            head = (if TX_BUFFER_MASK c \<noteq> 0xFF then head AND msk else head) in
        case wait_tx_space env n head s of
          None \<Rightarrow> None
        | Some s \<Rightarrow>
            let x = asm_address (TX_BUF_ADDR c) head;
                s = store_tx n (asm_element (TX_BUF_ADDR c) x) data s;
                s = cli s;
                s = on_unit n (\<lambda>u. u\<lparr>tx_Head := head\<rparr>) s;
                s = (if RS485_MODE c
                     then on_unit n (\<lambda>u. u\<lparr>RS485_PORT := RS485_PORT u OR bv (RS485_IONUM c)\<rparr>) s else s);
                s = (if cts_clear c (units s n)
                     then let r25 = UCSRB (units s n); r25 = r25 OR bv UDRIE_BIT
                          in on_unit n (\<lambda>u. u\<lparr>UCSRB := r25\<rparr>) s
                     else s)
            in ret (sei s))"

definition uart_putc_asm ::
  "usart_config \<Rightarrow> u8 \<Rightarrow> 'z env \<Rightarrow> nat \<Rightarrow> u8 \<Rightarrow> 'z board_scheme \<Rightarrow> 'z board_scheme outcome" where
  "uart_putc_asm c msk env n data s =
     (if LF_TO_CRLF c \<and> data = 10
      then obind (uart_putc_char_asm c msk env n 13 s) (uart_putc_char_asm c msk env n data)
      else uart_putc_char_asm c msk env n data s)"

text \<open>The version that the build compiles.\<close>

definition uart_putc ::
  "usart_config \<Rightarrow> u8 \<Rightarrow> 'z env \<Rightarrow> nat \<Rightarrow> u8 \<Rightarrow> 'z board_scheme \<Rightarrow> 'z board_scheme outcome" where
  "uart_putc c msk env n data s =
     (if NO_ABI_BREAKING c then uart_putc_C c env n data s else uart_putc_asm c msk env n data s)"

text \<open>\<^term>\<open>True\<close> is \<open>COMPLETED\<close>, \<^term>\<open>False\<close> is \<open>BUFFER_FULL\<close>.\<close>

definition uart_putc_noblock_C :: "usart_config \<Rightarrow> nat \<Rightarrow> u8 \<Rightarrow> 'z board_scheme \<Rightarrow> bool \<times> 'z board_scheme" where
  "uart_putc_noblock_C c n data s =
     (if fast_insertion_C c (units s n) then (True, write_UDR n data s)
      else
        let head = (tx_Head (units s n) + 1) AND TX_BUFFER_MASK c in
        if tx_Tail (units s n) = head then (False, s)
        else (True, atomic_restorestate (tx_publish c n head) (store_tx n head data s)))"

definition uart_putc_noblock_asm :: "usart_config \<Rightarrow> nat \<Rightarrow> u8 \<Rightarrow> 'z board_scheme \<Rightarrow> bool \<times> 'z board_scheme" where
  "uart_putc_noblock_asm c n data s =
     (if fast_insertion_C c (units s n) then (True, write_UDR n data s)
      else
        let head = (tx_Head (units s n) + 1) AND TX_BUFFER_MASK c in
        if tx_Tail (units s n) = head then (False, s)
        else
          let x = asm_address (TX_BUF_ADDR c) head;
              s = store_tx n (asm_element (TX_BUF_ADDR c) x) data s
          in (True, atomic_restorestate (tx_publish c n head) s))"

definition uart_putc_noblock :: "usart_config \<Rightarrow> nat \<Rightarrow> u8 \<Rightarrow> 'z board_scheme \<Rightarrow> bool \<times> 'z board_scheme" where
  "uart_putc_noblock c n data s =
     (if NO_ABI_BREAKING c then uart_putc_noblock_C c n data s else uart_putc_noblock_asm c n data s)"

section \<open>Transmitting strings\<close>

type_synonym 'z putc = "u8 \<Rightarrow> 'z board_scheme \<Rightarrow> 'z board_scheme outcome"

text \<open>
  A string is the array the pointer names; reading past its end is a fault. The C loop and
  the assembly loop both load a byte, stop at NUL and call \<open>putc\<close>.
\<close>

fun uart_putstr :: "'z putc \<Rightarrow> u8 list \<Rightarrow> 'z board_scheme \<Rightarrow> 'z board_scheme outcome" where
  "uart_putstr putc [] s = fail Out_of_bounds"
| "uart_putstr putc (b # bs) s = (if b = 0 then ret s else obind (putc b s) (uart_putstr putc bs))"

text \<open>The same loop over a string in flash memory.\<close>

definition uart_puts_p :: "'z putc \<Rightarrow> u8 list \<Rightarrow> 'z board_scheme \<Rightarrow> 'z board_scheme outcome" where
  "uart_puts_p putc flash_string s = uart_putstr putc flash_string s"

function uart_putstrl_C :: "'z putc \<Rightarrow> u8 list \<Rightarrow> u8 \<Rightarrow> 'z board_scheme \<Rightarrow> 'z board_scheme outcome" where
  "uart_putstrl_C putc string BytesToWrite s =
     (if BytesToWrite = 0 then ret s
      else case string of
             [] \<Rightarrow> fail Out_of_bounds
           | b # bs \<Rightarrow> obind (putc b s) (uart_putstrl_C putc bs (BytesToWrite - 1)))"
  by pat_completeness auto
termination
  by (relation "measure (\<lambda>(_, string, _, _). length string)") auto

text \<open>
  The assembly adds the low byte of the pointer to the counter and compares it with the low
  byte of the moving pointer.
\<close>

function putstrl_asm_loop :: "'z putc \<Rightarrow> u8 list \<Rightarrow> u8 \<Rightarrow> u8 \<Rightarrow> 'z board_scheme \<Rightarrow> 'z board_scheme outcome" where
  "putstrl_asm_loop putc string counter zl s =
     (if counter = zl then ret s
      else case string of
             [] \<Rightarrow> fail Out_of_bounds
           | b # bs \<Rightarrow> obind (putc b s) (putstrl_asm_loop putc bs counter (zl + 1)))"
  by pat_completeness auto
termination
  by (relation "measure (\<lambda>(_, string, _, _, _). length string)") auto

definition uart_putstrl_asm ::
  "'z putc \<Rightarrow> ptr \<Rightarrow> u8 list \<Rightarrow> u8 \<Rightarrow> 'z board_scheme \<Rightarrow> 'z board_scheme outcome" where
  "uart_putstrl_asm putc z string counter s =
     (let counter = counter + lo8 z in putstrl_asm_loop putc string counter (lo8 z) s)"

definition uart_putstrl ::
  "usart_config \<Rightarrow> 'z putc \<Rightarrow> ptr \<Rightarrow> u8 list \<Rightarrow> u8 \<Rightarrow> 'z board_scheme \<Rightarrow> 'z board_scheme outcome" where
  "uart_putstrl c putc z string count s =
     (if NO_ABI_BREAKING c then uart_putstrl_C putc string count s
      else uart_putstrl_asm putc z string count s)"

section \<open>Flushing, flow control and addressing\<close>

partial_function (option) wait_tx_empty ::
  "'z env \<Rightarrow> nat \<Rightarrow> 'z board_scheme \<Rightarrow> 'z board_scheme option" where
  "wait_tx_empty env n s =
     (if tx_Tail (units s n) \<noteq> tx_Head (units s n) then wait_tx_empty env n (env s) else Some s)"

partial_function (option) wait_rs485_low ::
  "usart_config \<Rightarrow> 'z env \<Rightarrow> nat \<Rightarrow> 'z board_scheme \<Rightarrow> 'z board_scheme option" where
  "wait_rs485_low c env n s =
     (if RS485_PORT (units s n) AND bv (RS485_IONUM c) \<noteq> 0 then wait_rs485_low c env n (env s) else Some s)"

definition uart_flush :: "usart_config \<Rightarrow> 'z env \<Rightarrow> nat \<Rightarrow> 'z board_scheme \<Rightarrow> 'z board_scheme option" where
  "uart_flush c env n s =
     (if RS485_MODE c then wait_rs485_low c env n s else wait_tx_empty env n s)"

definition uart_BytesToSend :: "usart_config \<Rightarrow> nat \<Rightarrow> 'z board_scheme \<Rightarrow> u8" where
  "uart_BytesToSend c n s = (tx_Head (units s n) - tx_Tail (units s n) - 1) AND TX_BUFFER_MASK c"

definition uart_mpcm_transmit_addres_Frame ::
  "'z env \<Rightarrow> 'z putc \<Rightarrow> nat \<Rightarrow> u8 \<Rightarrow> 'z board_scheme \<Rightarrow> 'z board_scheme outcome" where
  "uart_mpcm_transmit_addres_Frame env putc n dat s =
     (case wait_tx_empty env n s of
        None \<Rightarrow> None
      | Some s \<Rightarrow>
          obind (putc dat (set_UCSRB n TXB8_BIT s)) (\<lambda>s.
          case wait_tx_empty env n s of
            None \<Rightarrow> None
          | Some s \<Rightarrow> ret (clear_UCSRB n TXB8_BIT s)))"

text \<open>The handler of a change of the clear-to-send line, in C and in assembly.\<close>

definition cts_isr_handler :: "usart_config \<Rightarrow> nat \<Rightarrow> 'z board_scheme \<Rightarrow> 'z board_scheme" where
  "cts_isr_handler c n s =
     (let u = units s n;
          tmp = UCSRB u;
          tmp = (if CTS_PIN u AND bv (CTS_IONUM c) \<noteq> 0 then tmp AND NOT (bv UDRIE_BIT)
                 else if tx_Tail u \<noteq> tx_Head u then tmp OR bv UDRIE_BIT
                 else tmp)
      in on_unit n (\<lambda>u. u\<lparr>UCSRB := tmp\<rparr>) s)"

text \<open>
  Between the pushes and pops of the registers it uses the assembly handler computes, in
  register 24, the new value of the control register. \<open>flags\<close> is what its arithmetic leaves in SREG.
\<close>

definition naked_cts_body :: "usart_config \<Rightarrow> nat \<Rightarrow> 'z board_scheme \<Rightarrow> 'z board_scheme" where
  "naked_cts_body c n s =
     (let s = set_reg 24 (UCSRB (units s n)) s;
          s = set_reg 24 (R s 24 AND NOT (bv UDRIE_BIT)) s
      in if bit (CTS_PIN (units s n)) (CTS_IONUM c)
         then on_unit n (\<lambda>u. u\<lparr>UCSRB := R s 24\<rparr>) s
         else
           let s = push_byte (R s 25) s;
               s = set_reg 24 (tx_Head (units s n)) s;
               s = set_reg 25 (tx_Tail (units s n)) s;
               equal = (R s 25 = R s 24);
               (v, s) = pop_byte s;
               s = set_reg 25 v s
           in if equal then s
              else
                let s = set_reg 24 (UCSRB (units s n)) s;
                    s = set_reg 24 (R s 24 OR bv UDRIE_BIT) s
                in on_unit n (\<lambda>u. u\<lparr>UCSRB := R s 24\<rparr>) s)"

definition naked_cts_isr_handler :: "usart_config \<Rightarrow> nat \<Rightarrow> u8 \<Rightarrow> 'z board_scheme \<Rightarrow> 'z board_scheme" where
  "naked_cts_isr_handler c n flags s =
     (let s = push_byte (R s 16) s;
          s = set_reg 16 (SREG s) s;
          s = push_byte (R s 24) s;
          s = (naked_cts_body c n s)\<lparr>SREG := flags\<rparr>;
          (v, s) = pop_byte s;
          s = set_reg 24 v s;
          s = s\<lparr>SREG := R s 16\<rparr>;
          (v, s) = pop_byte s;
          s = set_reg 16 v s
      in do_reti s)"

section \<open>Buffer addresses in assembly\<close>

text \<open>The subtraction of the negated address adds the address.\<close>

lemma asm_address_eq: "asm_address buf i = buf + ucast i"
proof -
  let ?k = "- buf"
  let ?b = "(if i < lo8 ?k then 1 else 0) :: u8"
  have k: "ucast (hi8 ?k) * 256 + ucast (lo8 ?k) = ?k"
    using join16_sum [of "hi8 ?k" "lo8 ?k"] by simp
  have "asm_address buf i = (- ucast (hi8 ?k) - ucast ?b) * 256 + ucast (i - lo8 ?k)"
    using ucast_minus_256 [of "- hi8 ?k" ?b] ucast_minus_256 [of 0 "hi8 ?k"]
    by (simp add: asm_address_def Let_def join16_sum algebra_simps)
  also have "\<dots> = ucast i - (ucast (hi8 ?k) * 256 + ucast (lo8 ?k))"
    unfolding ucast_minus_borrow by (simp add: algebra_simps)
  finally show ?thesis unfolding k by simp
qed

lemma asm_element_address: "asm_element buf (asm_address buf i) = i"
  by (simp add: asm_element_def asm_address_eq lo8_def) (rule bit_word_eqI, simp add: bit_simps)

end
