(* ===== verification/Usart_Numbers.thy ===== *)
theory Usart_Numbers
  imports Usart
begin

text \<open>
  Formatted output of the serial driver: numbers are converted into a local character array of fixed
  size by the C library and sent as a string. A conversion that needs more characters than
  the array has is a fault. The conversions of the C library (\<open>itoa\<close> and its relatives of
  \<^verbatim>\<open>stdlib.h\<close>) are modelled; the conversion of floating point numbers is a
  parameter.
\<close>

section \<open>Conversions of the C library\<close>

function digits :: "nat \<Rightarrow> nat \<Rightarrow> nat list" where
  "digits radix v =
     (if radix < 2 then [] else if v < radix then [v] else digits radix (v div radix) @ [v mod radix])"
  by pat_completeness auto
termination
  by (relation "measure snd") auto

declare digits.simps [simp del]

definition digit_char :: "nat \<Rightarrow> u8" where
  "digit_char d = of_nat (if d < 10 then 48 + d else 87 + d)"

text \<open>Outside the radices 2 to 36 the functions store an empty string.\<close>

definition unsigned_to_ascii :: "nat \<Rightarrow> nat \<Rightarrow> u8 list" where
  "unsigned_to_ascii radix v =
     (if 2 \<le> radix \<and> radix \<le> 36 then map digit_char (digits radix v) @ [0] else [0])"

text \<open>A sign is stored for radix 10 only; otherwise the value is taken as unsigned.\<close>

definition utoa :: "u16 \<Rightarrow> nat \<Rightarrow> u8 list" where
  "utoa v radix = unsigned_to_ascii radix (unat v)"

definition ultoa :: "u32 \<Rightarrow> nat \<Rightarrow> u8 list" where
  "ultoa v radix = unsigned_to_ascii radix (unat v)"

definition itoa :: "u16 \<Rightarrow> nat \<Rightarrow> u8 list" where
  "itoa v radix =
     (if radix = 10 \<and> sint v < 0 then 45 # unsigned_to_ascii 10 (nat (- sint v)) else utoa v radix)"

definition ltoa :: "u32 \<Rightarrow> nat \<Rightarrow> u8 list" where
  "ltoa v radix =
     (if radix = 10 \<and> sint v < 0 then 45 # unsigned_to_ascii 10 (nat (- sint v)) else ultoa v radix)"

section \<open>Operations\<close>

text \<open>Storing a string in \<open>u_tmp_buff\<close> of \<open>sz\<close> characters and sending it.\<close>

definition send_buffered :: "nat \<Rightarrow> u8 list \<Rightarrow> 'z putc \<Rightarrow> 'z board_scheme \<Rightarrow> 'z board_scheme outcome" where
  "send_buffered sz str putc s =
     (if length str \<le> sz then uart_putstr putc str s else fail Out_of_bounds)"

definition uart_putint :: "'z putc \<Rightarrow> u16 \<Rightarrow> 'z board_scheme \<Rightarrow> 'z board_scheme outcome" where
  "uart_putint putc data = send_buffered 7 (itoa data 10) putc"

definition uart_putintr :: "'z putc \<Rightarrow> u16 \<Rightarrow> u8 \<Rightarrow> 'z board_scheme \<Rightarrow> 'z board_scheme outcome" where
  "uart_putintr putc data radix = send_buffered 17 (itoa data (unat radix)) putc"

definition uart_putuint :: "'z putc \<Rightarrow> u16 \<Rightarrow> 'z board_scheme \<Rightarrow> 'z board_scheme outcome" where
  "uart_putuint putc data = send_buffered 7 (utoa data 10) putc"

definition uart_putuintr :: "'z putc \<Rightarrow> u16 \<Rightarrow> u8 \<Rightarrow> 'z board_scheme \<Rightarrow> 'z board_scheme outcome" where
  "uart_putuintr putc data radix = send_buffered 17 (utoa data (unat radix)) putc"

definition hex_char :: "usart_config \<Rightarrow> u8 \<Rightarrow> u8" where
  "hex_char c tmp =
     (if tmp \<le> 9 then 48 + tmp else if UPPERCASE_HEX c then 65 - 10 + tmp else 97 - 10 + tmp)"

definition uart_puthex :: "usart_config \<Rightarrow> 'z putc \<Rightarrow> u8 \<Rightarrow> 'z board_scheme \<Rightarrow> 'z board_scheme outcome" where
  "uart_puthex c putc data s =
     (let tmp = drop_bit 4 data AND 0x0F in
      obind (putc (hex_char c tmp) s) (\<lambda>s.
      let tmp = data AND 0x0F in
      putc (hex_char c tmp) s))"

definition uart_putlong :: "'z putc \<Rightarrow> u32 \<Rightarrow> 'z board_scheme \<Rightarrow> 'z board_scheme outcome" where
  "uart_putlong putc data = send_buffered 12 (ltoa data 10) putc"

definition uart_putlongr :: "'z putc \<Rightarrow> u32 \<Rightarrow> u8 \<Rightarrow> 'z board_scheme \<Rightarrow> 'z board_scheme outcome" where
  "uart_putlongr putc data radix = send_buffered 17 (ltoa data (unat radix)) putc"

definition uart_putulong :: "'z putc \<Rightarrow> u32 \<Rightarrow> 'z board_scheme \<Rightarrow> 'z board_scheme outcome" where
  "uart_putulong putc data = send_buffered 12 (ultoa data 10) putc"

definition uart_putulongr :: "'z putc \<Rightarrow> u32 \<Rightarrow> u8 \<Rightarrow> 'z board_scheme \<Rightarrow> 'z board_scheme outcome" where
  "uart_putulongr putc data radix = send_buffered 17 (ultoa data (unat radix)) putc"

text \<open>
  \<open>dtostrf data width precision\<close> is the string that the C library stores. The loop skips its
  leading spaces.
\<close>

definition uart_fputfloat ::
  "('f \<Rightarrow> nat \<Rightarrow> nat \<Rightarrow> u8 list) \<Rightarrow> 'z putc \<Rightarrow> 'f \<Rightarrow> u8 \<Rightarrow> 'z board_scheme \<Rightarrow> 'z board_scheme outcome" where
  "uart_fputfloat dtostrf putc data precision s =
     (let u_tmp_buff = dtostrf data 15 (unat precision) in
      if length u_tmp_buff \<le> 16 then uart_putstr putc (dropWhile (\<lambda>b. b = 32) u_tmp_buff) s
      else fail Out_of_bounds)"

definition uart_putfloat ::
  "('f \<Rightarrow> nat \<Rightarrow> nat \<Rightarrow> u8 list) \<Rightarrow> 'z putc \<Rightarrow> 'f \<Rightarrow> 'z board_scheme \<Rightarrow> 'z board_scheme outcome" where
  "uart_putfloat dtostrf putc data s =
     (let u_tmp_buff = dtostrf data 15 6 in
      if length u_tmp_buff \<le> 16 then uart_putstr putc (dropWhile (\<lambda>b. b = 32) u_tmp_buff) s
      else fail Out_of_bounds)"

section \<open>Lengths of the conversions\<close>

lemma length_digits:
  assumes "2 \<le> radix" "v < radix ^ k" "0 < k"
  shows "length (digits radix v) \<le> k"
  using assms
proof (induction k arbitrary: v)
  case (Suc k)
  show ?case
  proof (cases "v < radix")
    case True
    then show ?thesis using Suc.prems by (subst digits.simps) simp
  next
    case False
    then have k: "0 < k" using Suc.prems by (cases k) auto
    have "v div radix < radix ^ k"
      using Suc.prems by (simp add: less_mult_imp_div_less mult.commute)
    then have "length (digits radix (v div radix)) \<le> k" using Suc.IH Suc.prems k by blast
    then show ?thesis using False Suc.prems by (subst digits.simps) simp
  qed
qed simp

lemma length_digits_ge:
  assumes "2 \<le> radix" "radix ^ k \<le> v"
  shows "Suc k \<le> length (digits radix v)"
  using assms
proof (induction k arbitrary: v)
  case 0
  then show ?case by (subst digits.simps) simp
next
  case (Suc k)
  have "1 \<le> radix ^ k" using Suc.prems by simp
  then have "radix \<le> radix ^ Suc k" using Suc.prems(1) by simp
  then have ge: "\<not> v < radix" using Suc.prems(2) by linarith
  have "radix ^ k \<le> v div radix"
    using div_le_mono [OF Suc.prems(2), of radix] Suc.prems(1) by simp
  then have "Suc k \<le> length (digits radix (v div radix))" using Suc.IH Suc.prems by blast
  then show ?case using ge Suc.prems by (subst digits.simps) simp
qed

lemma length_unsigned_to_ascii:
  assumes "v < 2 ^ k" "0 < k"
  shows "length (unsigned_to_ascii radix v) \<le> Suc k"
proof (cases "2 \<le> radix \<and> radix \<le> 36")
  case True
  have "(2 :: nat) ^ k \<le> radix ^ k" using True by (intro power_mono) simp_all
  then have "v < radix ^ k" using assms by linarith
  then show ?thesis using length_digits [of radix v k] assms True by (simp add: unsigned_to_ascii_def)
qed (auto simp: unsigned_to_ascii_def)

lemma length_decimal:
  "v < 10 ^ k \<Longrightarrow> 0 < k \<Longrightarrow> length (unsigned_to_ascii 10 v) \<le> Suc k"
  using length_digits [of 10 v k] by (simp add: unsigned_to_ascii_def)

lemma itoa_length:
  "length (itoa v radix) \<le> 17" "length (itoa v 10) \<le> 7" "length (utoa v radix) \<le> 17" "length (utoa v 10) \<le> 7"
proof -
  have s: "nat (- sint v) \<le> 2 ^ 15" using sint_ge [of v] by simp
  have u: "unat v < 2 ^ 16" by simp
  show "length (utoa v radix) \<le> 17" using length_unsigned_to_ascii [OF u] by (simp add: utoa_def)
  show d: "length (utoa v 10) \<le> 7" unfolding utoa_def
    by (rule length_decimal [of "unat v" 6, simplified]) (use unat_u16_less [of v] in linarith)
  have neg: "length (unsigned_to_ascii 10 (nat (- sint v))) \<le> 6"
    using length_decimal [of "nat (- sint v)" 5] s by simp
  show "length (itoa v radix) \<le> 17"
    using neg \<open>length (utoa v radix) \<le> 17\<close> by (simp add: itoa_def)
  show "length (itoa v 10) \<le> 7" using neg d by (simp add: itoa_def)
qed

lemma ltoa_length: "length (ltoa v 10) \<le> 12" "length (ultoa v 10) \<le> 12"
proof -
  have s: "nat (- sint v) \<le> 2 ^ 31" using sint_ge [of v] by simp
  have u: "unat v < 2 ^ 32" by simp
  show d: "length (ultoa v 10) \<le> 12" unfolding ultoa_def
    by (rule length_decimal [of "unat v" 11, simplified]) (use unat_u32_less [of v] in linarith)
  show "length (ltoa v 10) \<le> 12"
    using length_decimal [of "nat (- sint v)" 10] s d by (simp add: ltoa_def)
qed

section \<open>Properties\<close>

lemma putulongr_overflows:
  "uart_putulongr putc d 2 s =
     (if 2 ^ 16 \<le> unat d then fail Out_of_bounds else uart_putstr putc (ultoa d 2) s)"
proof -
  have len: "length (ultoa d 2) = Suc (length (digits 2 (unat d)))"
    by (simp add: ultoa_def unsigned_to_ascii_def)
  show ?thesis
  proof (cases "2 ^ 16 \<le> unat d")
    case True
    then have "Suc 16 \<le> length (digits 2 (unat d))" by (intro length_digits_ge) simp_all
    then show ?thesis using True len by (simp add: uart_putulongr_def send_buffered_def)
  next
    case False
    then have "length (digits 2 (unat d)) \<le> 16" by (intro length_digits) simp_all
    then show ?thesis using False len by (simp add: uart_putulongr_def send_buffered_def)
  qed
qed

text \<open>
  C38: the local arrays are large enough for every 16-bit conversion and for the decimal 32-bit conversions:
  these functions send exactly the string of the conversion and never write outside their array, for
  every value, and in every radix where they take one. The array of the 32-bit conversions with a radix is too small: in
  radix 2 \<open>putulongr\<close> writes outside its 17 characters exactly for the values of \<open>2 ^ 16\<close> and above; below, it sends
  the binary digits.
\<close>

theorem number_output_fits:
  "uart_putint putc d = uart_putstr putc (itoa d 10) \<and> uart_putintr putc d r = uart_putstr putc (itoa d (unat r))
   \<and> uart_putuint putc d = uart_putstr putc (utoa d 10) \<and> uart_putuintr putc d r = uart_putstr putc (utoa d (unat r))
   \<and> uart_putlong putc l = uart_putstr putc (ltoa l 10) \<and> uart_putulong putc l = uart_putstr putc (ultoa l 10)
   \<and> uart_putulongr putc l 2 s = (if 2 ^ 16 \<le> unat l then fail Out_of_bounds else uart_putstr putc (ultoa l 2) s)"
  by (simp add: fun_eq_iff send_buffered_def uart_putint_def uart_putintr_def uart_putuint_def uart_putuintr_def
      uart_putlong_def uart_putulong_def itoa_length ltoa_length putulongr_overflows)

text \<open>The digits denote the number.\<close>

lemma digits_value: "2 \<le> radix \<Longrightarrow> foldl (\<lambda>a d. a * radix + d) 0 (digits radix v) = v"
proof (induction radix v rule: digits.induct)
  case (1 radix v)
  show ?case
  proof (cases "v < radix")
    case True
    then show ?thesis using 1 by (subst digits.simps) simp
  next
    case False
    have "foldl (\<lambda>a d. a * radix + d) 0 (digits radix (v div radix)) = v div radix"
      using 1 False by simp
    then show ?thesis using False 1(2) by (subst digits.simps) simp
  qed
qed

lemma digits_less: "2 \<le> radix \<Longrightarrow> d \<in> set (digits radix v) \<Longrightarrow> d < radix"
proof (induction radix v rule: digits.induct)
  case (1 radix v)
  then show ?case
    by (cases "v < radix") (auto simp: digits.simps [of radix v])
qed

lemma digits_not_Nil: "2 \<le> radix \<Longrightarrow> digits radix v \<noteq> []"
  by (subst digits.simps) simp

definition hex_value :: "u8 \<Rightarrow> nat" where
  "hex_value b = (if b \<le> 57 then unat b - 48 else if b \<le> 70 then unat b - 55 else unat b - 87)"

lemma hex_value_char:
  assumes "unat x < 16"
  shows "hex_value (hex_char c x) = unat x"
proof -
  have "x = of_nat (unat x)" by simp
  moreover have "unat x \<in> set [0..<16]" using assms by simp
  ultimately have "x \<in> set (map of_nat [0..<16])" by (metis image_eqI list.set_map)
  then show ?thesis by (auto simp: upt_rec hex_value_def hex_char_def)
qed

lemma nibbles:
  fixes d :: u8
  shows "unat (drop_bit 4 d) = unat d div 16" "unat (d AND 0x0F) = unat d mod 16" "drop_bit 4 d AND 0x0F = drop_bit 4 d"
proof -
  have m: "w AND 0x0F = take_bit 4 w" for w :: u8
    by (rule u8_bit_eqI) (simp_all add: bit_simps)
  show "unat (drop_bit 4 d) = unat d div 16"
    by (simp add: drop_bit_eq_div unat_div)
  show "unat (d AND 0x0F) = unat d mod 16" by (simp only: m) (simp add: take_bit_eq_mod unat_mod)
  show "drop_bit 4 d AND 0x0F = drop_bit 4 d"
    by (rule u8_bit_eqI) (simp_all add: bit_simps impossible_bit)
qed

text \<open>
  \<open>puthex\<close> sends two hexadecimal digits, the high one first, and they denote the byte.
\<close>

lemma puthex_digits:
  "uart_puthex c putc d s = obind (putc (hex_char c (drop_bit 4 d)) s) (putc (hex_char c (d AND 0x0F)))
   \<and> 16 * hex_value (hex_char c (drop_bit 4 d)) + hex_value (hex_char c (d AND 0x0F)) = unat d"
proof
  show "uart_puthex c putc d s = obind (putc (hex_char c (drop_bit 4 d)) s) (putc (hex_char c (d AND 0x0F)))"
    by (simp add: uart_puthex_def nibbles(3))
  have "unat d div 16 < 16" using unat_u8_less [of d] by (simp add: div_less_iff_less_mult del: unat_u8_less)
  then show "16 * hex_value (hex_char c (drop_bit 4 d)) + hex_value (hex_char c (d AND 0x0F)) = unat d"
    by (simp add: hex_value_char nibbles(1,2))
qed

end
