(* ===== verification/Usart_Rx.thy ===== *)
theory Usart_Rx
  imports Usart_Numbers
begin

text \<open>
  The receive side of the serial driver and its interface to the standard streams. A function
  that fills a caller's array returns the bytes it stored, in order. Characters are
  unsigned (\<^verbatim>\<open>-funsigned-char\<close>).
\<close>

section \<open>Receiving a byte\<close>

definition load_rx :: "nat \<Rightarrow> u8 \<Rightarrow> 'z board_scheme \<Rightarrow> u8" where
  "load_rx n i s = rx_buffer (units s n) i"

text \<open>After a byte is taken: re-enable reception, release the request-to-send line.\<close>

definition rx_taken :: "usart_config \<Rightarrow> nat \<Rightarrow> u8 \<Rightarrow> 'z board_scheme \<Rightarrow> 'z board_scheme" where
  "rx_taken c n tail s =
     (let s = on_unit n (\<lambda>u. u\<lparr>rx_Tail := tail\<rparr>) s;
          s = (if EXTEND_RX c then set_UCSRB n RXCIE_BIT s else s)
      in if SOFT_RTS c \<and> RTS_PORT (units s n) AND bv (RTS_IONUM c) \<noteq> 0
            \<and> UCSRA (units s n) AND bv RXC_BIT = 0
         then on_unit n (\<lambda>u. u\<lparr>RTS_PORT := RTS_PORT u AND NOT (bv (RTS_IONUM c))\<rparr>) s
         else s)"

text \<open>Echo of a received character; \<open>putc_\<close> returns the character it sent.\<close>

definition getc_echo :: "usart_config \<Rightarrow> 'z putc \<Rightarrow> u8 \<Rightarrow> 'z board_scheme \<Rightarrow> (u8 \<times> 'z board_scheme) outcome" where
  "getc_echo c putc tmp s =
     (if GETC_ECHO c
      then
        obind (if NEWLINE_MODE c = NEWLINE_N \<and> tmp = 10 then putc 13 s else ret s) (\<lambda>s.
        obind (putc tmp s) (\<lambda>s.
        obind (if NEWLINE_MODE c = NEWLINE_R \<and> tmp = 13 then putc 10 s else ret s) (\<lambda>s.
        ret (tmp, s))))
      else ret (tmp, s))"

definition uart_getc_C ::
  "usart_config \<Rightarrow> 'z putc \<Rightarrow> nat \<Rightarrow> 'z board_scheme \<Rightarrow> (u8 \<times> 'z board_scheme) outcome" where
  "uart_getc_C c putc n s =
     (let tail = rx_Tail (units s n) in
      if tail = rx_Head (units s n) then ret (0, s)
      else
        let tail = (tail + 1) AND RX_BUFFER_MASK c;
            tmp = load_rx n tail s
        in getc_echo c putc tmp (rx_taken c n tail s))"

definition uart_getc_asm ::
  "usart_config \<Rightarrow> 'z putc \<Rightarrow> nat \<Rightarrow> 'z board_scheme \<Rightarrow> (u8 \<times> 'z board_scheme) outcome" where
  "uart_getc_asm c putc n s =
     (let tail = rx_Tail (units s n) in
      if tail = rx_Head (units s n) then ret (0, s)
      else
        let tail = (tail + 1) AND RX_BUFFER_MASK c;
            x = asm_address (RX_BUF_ADDR c) tail;
            tmp = load_rx n (asm_element (RX_BUF_ADDR c) x) s
        in getc_echo c putc tmp (rx_taken c n tail s))"

definition uart_getc ::
  "usart_config \<Rightarrow> 'z putc \<Rightarrow> nat \<Rightarrow> 'z board_scheme \<Rightarrow> (u8 \<times> 'z board_scheme) outcome" where
  "uart_getc c putc n s = (if NO_ABI_BREAKING c then uart_getc_C c putc n s else uart_getc_asm c putc n s)"

definition uart_getData_C :: "usart_config \<Rightarrow> nat \<Rightarrow> 'z board_scheme \<Rightarrow> int \<times> 'z board_scheme" where
  "uart_getData_C c n s =
     (let tail = rx_Tail (units s n) in
      if tail = rx_Head (units s n) then (-1, s)
      else
        let tail = (tail + 1) AND RX_BUFFER_MASK c;
            tmp = load_rx n tail s
        in (uint tmp, rx_taken c n tail s))"

definition uart_getData_asm :: "usart_config \<Rightarrow> nat \<Rightarrow> 'z board_scheme \<Rightarrow> int \<times> 'z board_scheme" where
  "uart_getData_asm c n s =
     (let tail = rx_Tail (units s n) in
      if tail = rx_Head (units s n) then (-1, s)
      else
        let tail = (tail + 1) AND RX_BUFFER_MASK c;
            x = asm_address (RX_BUF_ADDR c) tail;
            tmp = load_rx n (asm_element (RX_BUF_ADDR c) x) s
        in (uint tmp, rx_taken c n tail s))"

definition uart_getData :: "usart_config \<Rightarrow> nat \<Rightarrow> 'z board_scheme \<Rightarrow> int \<times> 'z board_scheme" where
  "uart_getData c n s = (if NO_ABI_BREAKING c then uart_getData_C c n s else uart_getData_asm c n s)"

text \<open>\<^term>\<open>None\<close> is \<open>BUFFER_EMPTY\<close>: the byte the pointer names is not written.\<close>

definition uart_LoadData :: "usart_config \<Rightarrow> nat \<Rightarrow> 'z board_scheme \<Rightarrow> u8 option \<times> 'z board_scheme" where
  "uart_LoadData c n s =
     (let tail = rx_Tail (units s n) in
      if tail = rx_Head (units s n) then (None, s)
      else
        let tail = (tail + 1) AND RX_BUFFER_MASK c;
            data = load_rx n tail s
        in (Some data, rx_taken c n tail s))"

definition uart_AvailableBytes :: "usart_config \<Rightarrow> nat \<Rightarrow> 'z board_scheme \<Rightarrow> u8" where
  "uart_AvailableBytes c n s = (rx_Head (units s n) - rx_Tail (units s n)) AND RX_BUFFER_MASK c"

definition uart_peek :: "usart_config \<Rightarrow> nat \<Rightarrow> 'z board_scheme \<Rightarrow> u8" where
  "uart_peek c n s = load_rx n ((rx_Tail (units s n) + 1) AND RX_BUFFER_MASK c) s"

section \<open>Receiving strings\<close>

type_synonym 'z getc = "'z board_scheme \<Rightarrow> (u8 \<times> 'z board_scheme) outcome"

text \<open>
  \<open>while(--limit)\<close> on an 8-bit counter: \<open>gets_loop getc limit acc\<close> is the loop after \<open>acc\<close> has
  been stored, and the terminating NUL after it.
\<close>

function gets_loop :: "'z getc \<Rightarrow> u8 \<Rightarrow> u8 list \<Rightarrow> 'z board_scheme \<Rightarrow> (u8 list \<times> 'z board_scheme) outcome" where
  "gets_loop getc limit acc s =
     (if limit - 1 = 0 then ret (acc @ [0], s)
      else
        obind (getc s) (\<lambda>(b, s).
        if b = 0 then ret (acc @ [b, 0], s) else gets_loop getc (limit - 1) (acc @ [b]) s))"
  by pat_completeness auto
termination
  by (relation "measure (\<lambda>(_, limit, _, _). unat (limit - 1))")
    (simp_all add: u8_dec_less)

definition uart_gets :: "'z getc \<Rightarrow> u8 \<Rightarrow> 'z board_scheme \<Rightarrow> (u8 list \<times> 'z board_scheme) outcome" where
  "uart_gets getc bufferlimit s = gets_loop getc bufferlimit [] s"

text \<open>Polling until a character satisfies \<open>P\<close>.\<close>

partial_function (option) getc_until ::
  "('z board_scheme \<Rightarrow> 'z board_scheme) \<Rightarrow> (u8 \<Rightarrow> bool) \<Rightarrow> 'z getc \<Rightarrow> 'z board_scheme \<Rightarrow>
   (u8 \<times> 'z board_scheme) outcome" where
  "getc_until env P getc s =
     (case getc s of
        None \<Rightarrow> None
      | Some (Inl e) \<Rightarrow> Some (Inl e)
      | Some (Inr (b, s')) \<Rightarrow> if P b then Some (Inr (b, s')) else getc_until env P getc (env s'))"

definition end_of_line :: "usart_config \<Rightarrow> u8" where
  "end_of_line c = (if NEWLINE_MODE c = NEWLINE_N then 10 else 13)"

text \<open>After the end of line: with two characters per line end the second is swallowed.\<close>

definition swallow_lf :: "usart_config \<Rightarrow> 'z env \<Rightarrow> 'z getc \<Rightarrow> 'z board_scheme \<Rightarrow> 'z board_scheme outcome" where
  "swallow_lf c env getc s =
     (if NEWLINE_MODE c = NEWLINE_RN
      then obind (getc_until env (\<lambda>b. b \<noteq> 0) getc s) (\<lambda>(_, s). ret s)
      else ret s)"

function getln_loop ::
  "usart_config \<Rightarrow> 'z env \<Rightarrow> 'z getc \<Rightarrow> (u8 \<Rightarrow> bool) \<Rightarrow> u8 \<Rightarrow> u8 list \<Rightarrow> 'z board_scheme \<Rightarrow>
   (u8 list \<times> 'z board_scheme) outcome" where
  "getln_loop c env getc stop limit acc s =
     (if limit - 1 = 0 then ret (acc @ [0], s)
      else
        obind (getc_until env (\<lambda>b. b \<noteq> 0) getc s) (\<lambda>(b, s).
        if b = end_of_line c then obind (swallow_lf c env getc s) (\<lambda>s. ret (acc @ [0], s))
        else if stop b then ret (acc @ [0], s)
        else getln_loop c env getc stop (limit - 1) (acc @ [b]) s))"
  by pat_completeness auto
termination
  by (relation "measure (\<lambda>(_, _, _, _, limit, _, _). unat (limit - 1))")
    (simp_all add: u8_dec_less)

definition uart_getln ::
  "usart_config \<Rightarrow> 'z env \<Rightarrow> 'z getc \<Rightarrow> u8 \<Rightarrow> 'z board_scheme \<Rightarrow> (u8 list \<times> 'z board_scheme) outcome" where
  "uart_getln c env getc bufferlimit s = getln_loop c env getc (\<lambda>_. False) bufferlimit [] s"

definition uart_getlnToFirstWhiteSpace ::
  "usart_config \<Rightarrow> 'z env \<Rightarrow> 'z getc \<Rightarrow> u8 \<Rightarrow> 'z board_scheme \<Rightarrow> (u8 list \<times> 'z board_scheme) outcome" where
  "uart_getlnToFirstWhiteSpace c env getc bufferlimit s =
     obind (getc_until env (\<lambda>b. b > 32) getc s) (\<lambda>(b, s).
     getln_loop c env getc (\<lambda>b. b \<le> 32) (bufferlimit - 1) [b] s)"

definition uart_skipWhiteSpaces ::
  "'z env \<Rightarrow> 'z getc \<Rightarrow> 'z board_scheme \<Rightarrow> (u8 \<times> 'z board_scheme) outcome" where
  "uart_skipWhiteSpaces env getc s = getc_until env (\<lambda>b. b > 32) getc s"

text \<open>
  \<open>atoi\<close> of the C library: white space, an optional sign, then decimal digits up to the
  first other character.
\<close>

definition ascii_space :: "u8 \<Rightarrow> bool" where
  "ascii_space b \<longleftrightarrow> b = 32 \<or> 9 \<le> b \<and> b \<le> 13"

definition ascii_digit :: "u8 \<Rightarrow> bool" where
  "ascii_digit b \<longleftrightarrow> 48 \<le> b \<and> b \<le> 57"

definition digits_value_of :: "u8 list \<Rightarrow> int" where
  "digits_value_of bs = foldl (\<lambda>a b. a * 10 + (uint b - 48)) 0 (takeWhile ascii_digit bs)"

definition ascii_to_int :: "u8 list \<Rightarrow> int" where
  "ascii_to_int bs =
     (case dropWhile ascii_space bs of
        [] \<Rightarrow> 0
      | b # r \<Rightarrow> if b = 45 then - digits_value_of r
                 else if b = 43 then digits_value_of r
                 else digits_value_of (b # r))"

definition uart_getint ::
  "usart_config \<Rightarrow> 'z env \<Rightarrow> 'z getc \<Rightarrow> 'z board_scheme \<Rightarrow> (u16 \<times> 'z board_scheme) outcome" where
  "uart_getint c env getc s =
     obind (uart_getlnToFirstWhiteSpace c env getc 7 s) (\<lambda>(str, s).
     if length str \<le> 7 then ret (word_of_int (ascii_to_int str), s) else fail Out_of_bounds)"

definition uart_getlong ::
  "usart_config \<Rightarrow> 'z env \<Rightarrow> 'z getc \<Rightarrow> 'z board_scheme \<Rightarrow> (u32 \<times> 'z board_scheme) outcome" where
  "uart_getlong c env getc s =
     obind (uart_getlnToFirstWhiteSpace c env getc 12 s) (\<lambda>(str, s).
     if length str \<le> 12 then ret (word_of_int (ascii_to_int str), s) else fail Out_of_bounds)"

text \<open>\<open>atof\<close> is the conversion of the C library.\<close>

definition uart_getfloat ::
  "(u8 list \<Rightarrow> 'f) \<Rightarrow> usart_config \<Rightarrow> 'z env \<Rightarrow> 'z getc \<Rightarrow> 'z board_scheme \<Rightarrow> ('f \<times> 'z board_scheme) outcome" where
  "uart_getfloat atof c env getc s =
     obind (uart_getlnToFirstWhiteSpace c env getc 32 s) (\<lambda>(str, s).
     if length str \<le> 32 then ret (atof str, s) else fail Out_of_bounds)"

section \<open>Standard streams\<close>

definition uart_putchar :: "'z putc \<Rightarrow> u8 \<Rightarrow> 'z board_scheme \<Rightarrow> 'z board_scheme outcome" where
  "uart_putchar putc data s =
     obind (if data = 10 then putc 13 s else ret s) (putc data)"

partial_function (option) wait_data ::
  "'z env \<Rightarrow> ('z board_scheme \<Rightarrow> int \<times> 'z board_scheme) \<Rightarrow> 'z board_scheme \<Rightarrow> (int \<times> 'z board_scheme) option" where
  "wait_data env getData s =
     (let (tmp, s') = getData s in if tmp < 0 then wait_data env getData (env s') else Some (tmp, s'))"

definition uart_getchar ::
  "usart_config \<Rightarrow> 'z env \<Rightarrow> 'z putc \<Rightarrow> ('z board_scheme \<Rightarrow> int \<times> 'z board_scheme) \<Rightarrow> 'z board_scheme \<Rightarrow>
   (u8 \<times> 'z board_scheme) outcome" where
  "uart_getchar c env putc getData s =
     (case wait_data env getData s of
        None \<Rightarrow> None
      | Some (tmp, s) \<Rightarrow>
          obind (if GETCHAR_ECHO c then putc (word_of_int tmp) s else ret s) (\<lambda>s.
          ret (word_of_int tmp, s)))"

end
