(* ===== verification/Bounded_Queue.thy ===== *)
theory Bounded_Queue
  imports Prelude
begin

text \<open>
  The interface of the bounded queues of the program (the FIFO of
  \<^verbatim>\<open>src/drivers/data_types/fifo.h\<close> and the ring buffers of the serial driver) and what
  follows from it for sequences of operations. \<open>put\<close> reports with its first result whether
  the queue was full.
\<close>

locale bounded_queue =
  fixes ok :: "'q \<Rightarrow> bool"
    and contents :: "'q \<Rightarrow> 'a list"
    and capacity :: "'q \<Rightarrow> nat"
    and put :: "'a \<Rightarrow> 'q \<Rightarrow> (bool \<times> 'q) outcome"
    and take_one :: "'q \<Rightarrow> ('a \<times> 'q) outcome"
  assumes put_free: "ok q \<Longrightarrow> length (contents q) < capacity q \<Longrightarrow>
      \<exists>q'. put x q = ret (False, q') \<and> ok q' \<and> contents q' = contents q @ [x] \<and> capacity q' = capacity q"
    and put_dropped: "ok q \<Longrightarrow> length (contents q) = capacity q \<Longrightarrow>
      \<exists>q'. put x q = ret (True, q') \<and> ok q' \<and> contents q' = contents q \<and> capacity q' = capacity q"
    and take_some: "ok q \<Longrightarrow> contents q = x # xs \<Longrightarrow>
      \<exists>q'. take_one q = ret (x, q') \<and> ok q' \<and> contents q' = xs \<and> capacity q' = capacity q"
    and contents_le: "ok q \<Longrightarrow> length (contents q) \<le> capacity q"
begin

text \<open>A run of operations; a put into a full queue is dropped.\<close>

fun put_list :: "'a list \<Rightarrow> 'q \<Rightarrow> 'q outcome" where
  "put_list [] q = ret q"
| "put_list (x # xs) q = obind (put x q) (\<lambda>(_, q). put_list xs q)"

fun take_list :: "nat \<Rightarrow> 'q \<Rightarrow> ('a list \<times> 'q) outcome" where
  "take_list 0 q = ret ([], q)"
| "take_list (Suc n) q =
     obind (take_one q) (\<lambda>(x, q). obind (take_list n q) (\<lambda>(xs, q). ret (x # xs, q)))"

lemma put_list_contents:
  assumes "ok q"
  shows "\<exists>q'. put_list xs q = ret q' \<and> ok q' \<and> capacity q' = capacity q
    \<and> contents q' = contents q @ take (capacity q - length (contents q)) xs"
  using assms
proof (induction xs arbitrary: q)
  case (Cons x xs)
  show ?case
  proof (cases "length (contents q) < capacity q")
    case True
    then obtain q1 where q1: "put x q = ret (False, q1)" "ok q1" "contents q1 = contents q @ [x]"
      "capacity q1 = capacity q" using put_free [OF Cons.prems] by blast
    then show ?thesis
      using Cons.IH [OF q1(2)] True by (auto simp: take_Cons' Suc_diff_Suc)
  next
    case False
    then have "length (contents q) = capacity q" using contents_le [OF Cons.prems] by simp
    then obtain q1 where q1: "put x q = ret (True, q1)" "ok q1" "contents q1 = contents q" "capacity q1 = capacity q"
      using put_dropped [OF Cons.prems] by blast
    then show ?thesis using Cons.IH [OF q1(2)] False by auto
  qed
qed auto

lemma take_list_contents:
  assumes "ok q" "n \<le> length (contents q)"
  shows "\<exists>q'. take_list n q = ret (take n (contents q), q') \<and> ok q' \<and> contents q' = drop n (contents q)
    \<and> capacity q' = capacity q"
  using assms
proof (induction n arbitrary: q)
  case (Suc n)
  then obtain x xs where c: "contents q = x # xs" by (cases "contents q") auto
  then obtain q1 where q1: "take_one q = ret (x, q1)" "ok q1" "contents q1 = xs" "capacity q1 = capacity q"
    using take_some [OF Suc.prems(1)] by blast
  then show ?case using Suc.IH [OF q1(2)] Suc.prems(2) c by auto
qed simp

text \<open>First in, first out: what fits into an empty queue comes out in the order it went in.\<close>

lemma fifo_order:
  assumes "ok q" "contents q = []" "length xs \<le> capacity q"
  shows "\<exists>q'. obind (put_list xs q) (take_list (length xs)) = ret (xs, q') \<and> ok q' \<and> contents q' = []"
proof -
  obtain q1 where q1: "put_list xs q = ret q1" "ok q1" "contents q1 = xs"
    using put_list_contents [OF assms(1), of xs] assms(2,3) by auto
  then show ?thesis using take_list_contents [OF q1(2), of "length xs"] by auto
qed

end

text \<open>A queue that a refused item leaves as it was.\<close>

locale strict_queue = bounded_queue +
  assumes put_full: "ok q \<Longrightarrow> length (contents q) = capacity q \<Longrightarrow> put x q = ret (True, q)"
begin

lemma put_unchanged_iff:
  assumes "ok q"
  shows "put x q = ret (True, q) \<longleftrightarrow> length (contents q) = capacity q"
  using put_full [OF assms, of x] put_free [OF assms, of x] contents_le [OF assms] by fastforce

end

end
