(* ===== verification/Ring.thy ===== *)
theory Ring
  imports Bounded_Queue
begin

text \<open>
  Ring buffers of a power of two elements with 8-bit indices, as the serial driver uses them: the head
  is the last element written, the tail the last one read, and an index is advanced by
  adding one and masking. One element stays unused, so \<open>2 ^ k - 1\<close> items fit.
\<close>

definition ring_ok :: "nat \<Rightarrow> u8 \<Rightarrow> u8 \<Rightarrow> bool" where
  "ring_ok k head tail \<longleftrightarrow> 0 < k \<and> k \<le> 8 \<and> take_bit k head = head \<and> take_bit k tail = tail"

definition ring_items :: "nat \<Rightarrow> (u8 \<Rightarrow> u8) \<Rightarrow> u8 \<Rightarrow> u8 \<Rightarrow> u8 list" where
  "ring_items k buf head tail =
     map (\<lambda>i. buf (take_bit k (tail + 1 + of_nat i))) [0..<unat (take_bit k (head - tail))]"

section \<open>Index arithmetic\<close>

lemma unat_take_bit_u8: "unat (take_bit k x) = unat x mod 2 ^ k" for x :: u8
  by (simp only: unsigned_take_bit_eq) (simp only: take_bit_eq_mod)

lemma take_bit_idem_u8: "take_bit k (take_bit k a) = take_bit k a" for a :: u8
  by simp

lemma take_bit_plus_u8: "take_bit k (a + take_bit k b) = take_bit k (a + b)" for a b :: u8
proof (cases "k \<le> 8")
  case True
  then have d: "(2 :: nat) ^ k dvd 2 ^ 8" by (rule le_imp_power_dvd)
  have "unat (take_bit k (a + take_bit k b)) = (unat a + unat b mod 2 ^ k) mod 2 ^ k"
    using d by (simp add: unat_take_bit_u8 unat_word_ariths mod_mod_cancel)
  also have "\<dots> = unat (take_bit k (a + b))"
    using d by (simp add: unat_take_bit_u8 unat_word_ariths mod_mod_cancel mod_add_right_eq)
  finally show ?thesis by (rule unsigned_word_eqI)
next
  case False
  then have "take_bit k x = x" for x :: u8
    by (auto intro!: bit_word_eqI simp: bit_take_bit_iff)
  then show ?thesis by simp
qed

lemma take_bit_minus_u8: "take_bit k (take_bit k a - b) = take_bit k (a - b)" for a b :: u8
  using take_bit_plus_u8 [of k "- b" a] by simp

lemma take_bit_minus_right_u8: "take_bit k (a - take_bit k b) = take_bit k (a - b)" for a b :: u8
proof -
  have "take_bit k (a - take_bit k b + take_bit k b) = take_bit k (a - b + b)" by simp
  then have "take_bit k (a - take_bit k b + b - b) = take_bit k (a - b + b - b)"
    by (metis take_bit_plus_u8 take_bit_minus_u8)
  then show ?thesis by simp
qed

lemma unat_take_bit_Suc:
  fixes x :: u8
  assumes "k \<le> 8"
  shows "unat (take_bit k (x + 1)) = Suc (unat (take_bit k x)) mod 2 ^ k"
proof -
  have d: "(2 :: nat) ^ k dvd 2 ^ 8" using assms by (rule le_imp_power_dvd)
  show ?thesis unfolding unat_take_bit_u8 using d by (simp add: unat_word_ariths mod_mod_cancel mod_Suc_eq)
qed

lemma unat_take_bit_inc:
  fixes x :: u8
  assumes "k \<le> 8" "take_bit k (x + 1) \<noteq> 0"
  shows "unat (take_bit k (x + 1)) = Suc (unat (take_bit k x))"
proof -
  have "unat (take_bit k (x + 1)) \<noteq> 0" using assms(2) by (simp only: unat_eq_zero not_False_eq_True)
  then show ?thesis
    using unat_take_bit_Suc [OF assms(1), of x] by (simp add: mod_Suc split: if_splits) (simp add: unat_take_bit_u8)
qed

lemma take_bit_of_nat_inject:
  fixes a :: u8
  assumes "k \<le> 8" "i < 2 ^ k" "j < 2 ^ k" "take_bit k (a + of_nat i) = take_bit k (a + of_nat j)"
  shows "i = j"
proof -
  have "take_bit k ((a + of_nat i) - a) = take_bit k ((a + of_nat j) - a)"
    using assms(4) by (metis take_bit_minus_u8)
  then have "take_bit k (of_nat i :: u8) = take_bit k (of_nat j)" by simp
  then have "unat (of_nat i :: u8) mod 2 ^ k = unat (of_nat j :: u8) mod 2 ^ k"
    by (metis unat_take_bit_u8)
  moreover have "(2 :: nat) ^ k dvd 2 ^ 8" using assms(1) by (rule le_imp_power_dvd)
  ultimately have "i mod 2 ^ k = j mod 2 ^ k" by (simp add: unat_of_nat mod_mod_cancel)
  then show ?thesis using assms(2,3) by simp
qed

lemma ring_count_less: "unat (take_bit k x) < 2 ^ k" for x :: u8
  by (simp add: unat_take_bit_u8)

section \<open>The ring as a list\<close>

lemma length_ring_items: "length (ring_items k buf head tail) = unat (take_bit k (head - tail))"
  by (simp add: ring_items_def)

lemma take_bit_diff_0:
  assumes "ring_ok k head tail"
  shows "take_bit k (x - tail) = 0 \<longleftrightarrow> take_bit k x = tail"
proof
  assume "take_bit k (x - tail) = 0"
  then have "take_bit k (tail + take_bit k (x - tail)) = take_bit k tail" by simp
  then show "take_bit k x = tail" using assms by (simp add: take_bit_plus_u8 ring_ok_def)
next
  assume "take_bit k x = tail"
  then have "take_bit k (x - tail) = take_bit k (take_bit k x - take_bit k x)"
    by (metis take_bit_minus_u8)
  then show "take_bit k (x - tail) = 0" by simp
qed

lemma ring_items_Nil: "ring_ok k head tail \<Longrightarrow> ring_items k buf head tail = [] \<longleftrightarrow> head = tail"
  using take_bit_diff_0 [of k head tail head] by (auto simp: ring_items_def ring_ok_def unat_eq_zero)

lemma ring_put:
  assumes ok: "ring_ok k head tail" and h: "h = take_bit k (head + 1)" "h \<noteq> tail"
  shows "ring_items k (buf(h := v)) h tail = ring_items k buf head tail @ [v]" "ring_ok k h tail"
proof -
  let ?d = "unat (take_bit k (head - tail))"
  have k: "k \<le> 8" using ok by (simp add: ring_ok_def)
  have diff: "take_bit k (h - tail) = take_bit k (head - tail + 1)"
    using take_bit_minus_u8 [of k "head + 1" tail] by (simp add: h(1) algebra_simps)
  have "take_bit k (head - tail + 1) \<noteq> 0"
    using take_bit_diff_0 [OF ok, of "head + 1"] h by (simp add: algebra_simps)
  then have d: "unat (take_bit k (h - tail)) = Suc ?d"
    using unat_take_bit_inc [OF k, of "head - tail"] diff by simp
  have last: "take_bit k (tail + 1 + of_nat ?d) = h"
    using take_bit_plus_u8 [of k "tail + 1" "head - tail"] by (simp add: h(1) algebra_simps)
  have other: "take_bit k (tail + 1 + of_nat i) \<noteq> h" if "i < ?d" for i
    using take_bit_of_nat_inject [OF k, of i ?d "tail + 1"] that ring_count_less [of k "head - tail"] last
    by (metis less_trans nat_neq_iff)
  show "ring_items k (buf(h := v)) h tail = ring_items k buf head tail @ [v]"
    unfolding ring_items_def d using last other by simp
  show "ring_ok k h tail" using ok h(1) by (simp add: ring_ok_def)
qed

lemma ring_take:
  assumes ok: "ring_ok k head tail" and t: "t = take_bit k (tail + 1)" "head \<noteq> tail"
  shows "ring_items k buf head tail = buf t # ring_items k buf head t" "ring_ok k head t"
proof -
  let ?d = "unat (take_bit k (head - t))"
  have k: "k \<le> 8" using ok by (simp add: ring_ok_def)
  have diff: "take_bit k (head - t) = take_bit k (head - tail - 1)"
    using take_bit_minus_right_u8 [of k head "tail + 1"] by (simp add: t(1) algebra_simps)
  have "take_bit k (head - tail - 1 + 1) \<noteq> 0"
    using take_bit_diff_0 [OF ok, of head] ok t(2) by (simp add: ring_ok_def)
  then have d: "unat (take_bit k (head - tail)) = Suc ?d"
    using unat_take_bit_inc [OF k, of "head - tail - 1"] diff by simp
  have idx: "take_bit k (tail + 1 + of_nat (Suc i)) = take_bit k (t + 1 + of_nat i)" for i
    using take_bit_plus_u8 [of k "1 + of_nat i" "tail + 1"] by (simp add: t(1) algebra_simps)
  show "ring_items k buf head tail = buf t # ring_items k buf head t"
    unfolding ring_items_def d
    by (simp add: map_upt_Suc idx t(1) [symmetric] del: upt_Suc of_nat_Suc)
  show "ring_ok k head t" using ok t(1) by (simp add: ring_ok_def)
qed

lemma ring_full:
  assumes "ring_ok k head tail"
  shows "take_bit k (head + 1) = tail \<longleftrightarrow> length (ring_items k buf head tail) = 2 ^ k - 1"
proof -
  have k: "k \<le> 8" using assms by (simp add: ring_ok_def)
  have d: "(2 :: nat) ^ k dvd 2 ^ 8" using k by (rule le_imp_power_dvd)
  have "take_bit k (head + 1) = tail \<longleftrightarrow> unat (take_bit k (head - tail + 1)) = 0"
    using take_bit_diff_0 [OF assms, of "head + 1"] by (simp add: algebra_simps unat_eq_zero)
  also have "\<dots> \<longleftrightarrow> Suc (unat (head - tail)) mod 2 ^ k = 0"
    using d by (simp add: unat_take_bit_u8 unat_word_ariths mod_mod_cancel)
  also have "\<dots> \<longleftrightarrow> unat (head - tail) mod 2 ^ k = 2 ^ k - 1"
    by (auto simp: mod_Suc)
  finally show ?thesis by (simp add: length_ring_items unat_take_bit_u8)
qed

end
