(* ===== verification/Usart_Isr.thy ===== *)
theory Usart_Isr
  imports Usart_Rx Ring
begin

text \<open>
  The interrupt service routines of the serial driver, register by register. They are naked
  functions written in assembly, so they save and restore the registers themselves; the lemmas show that they do, and
  that their effect on the unit is that of the C code the source keeps in a comment beside them.
  \<open>MPCM0_MASTER_ONLY\<close> is undefined.
\<close>

section \<open>Saving registers\<close>

text \<open>The registers are pushed in the order of the list and popped in the reverse order.\<close>

primrec with_pushed :: "nat list \<Rightarrow> ('z avr_scheme \<Rightarrow> 'z avr_scheme) \<Rightarrow> 'z avr_scheme \<Rightarrow> 'z avr_scheme" where
  "with_pushed [] body s = body s"
| "with_pushed (r # rs) body s =
     (let s = with_pushed rs body (push_byte (R s r) s);
          (v, s) = pop_byte s
      in set_reg r v s)"

text \<open>
  Register 16 is pushed and keeps SREG while the body runs. \<open>flags\<close> is what the
  arithmetic of the body leaves in SREG.
\<close>

definition with_sreg_saved :: "u8 \<Rightarrow> ('z avr_scheme \<Rightarrow> 'z avr_scheme) \<Rightarrow> 'z avr_scheme \<Rightarrow> 'z avr_scheme" where
  "with_sreg_saved flags body =
     with_pushed [16] (\<lambda>s.
       let s = set_reg 16 (SREG s) s;
           s = (body s)\<lparr>SREG := flags\<rparr>
       in s\<lparr>SREG := R s 16\<rparr>)"

declare with_pushed.simps [simp del]

section \<open>The data register empty interrupt\<close>

definition load_tx :: "nat \<Rightarrow> u8 \<Rightarrow> 'z board_scheme \<Rightarrow> u8" where
  "load_tx n i s = tx_buffer (units s n) i"

definition Z_buffer :: "ptr \<Rightarrow> 'z avr_scheme \<Rightarrow> 'z avr_scheme" where
  "Z_buffer buf s =
     (let s = set_reg 31 0 s;
          z = asm_address buf (R s 30);
          s = set_reg 30 (lo8 z) s
      in set_reg 31 (hi8 z) s)"

definition UDRE_body :: "usart_config \<Rightarrow> nat \<Rightarrow> 'z board_scheme \<Rightarrow> 'z board_scheme" where
  "UDRE_body c n s =
     (let s = set_reg 30 (tx_Tail (units s n)) s;
          s = set_reg 31 (tx_Head (units s n)) s;
          s = set_reg 30 (R s 30 + 1) s;
          s = (if TX_BUFFER_MASK c \<noteq> 0xFF then set_reg 30 (R s 30 AND TX_BUFFER_MASK c) s else s);
          s = (if R s 30 = R s 31
               then
                 let s = set_reg 31 (UCSRB (units s n)) s;
                     s = set_reg 31 (R s 31 AND NOT (bv UDRIE_BIT)) s
                 in on_unit n (\<lambda>u. u\<lparr>UCSRB := R s 31\<rparr>) s
               else s);
          s = on_unit n (\<lambda>u. u\<lparr>tx_Tail := R s 30\<rparr>) s;
          s = Z_buffer (TX_BUF_ADDR c) s;
          s = set_reg 30 (load_tx n (asm_element (TX_BUF_ADDR c) (Z_reg s)) s) s
      in write_UDR n (R s 30) s)"

definition ISR_UDRE :: "usart_config \<Rightarrow> nat \<Rightarrow> u8 \<Rightarrow> 'z board_scheme \<Rightarrow> 'z board_scheme" where
  "ISR_UDRE c n flags s = do_reti (with_sreg_saved flags (with_pushed [30, 31] (UDRE_body c n)) s)"

text \<open>The C code of the comment.\<close>

definition ISR_TX_C :: "usart_config \<Rightarrow> usart \<Rightarrow> usart" where
  "ISR_TX_C c u =
     (let tmp_tx_Tail = (tx_Tail u + 1) AND TX_BUFFER_MASK c;
          u = (if tmp_tx_Tail = tx_Head u then u\<lparr>UCSRB := UCSRB u AND NOT (bv UDRIE_BIT)\<rparr> else u);
          u = u\<lparr>tx_Tail := tmp_tx_Tail\<rparr>
      in u\<lparr>UDR_out := UDR_out u @ [tx_buffer u tmp_tx_Tail]\<rparr>)"

section \<open>The transmission complete interrupt\<close>

definition ISR_TXC :: "usart_config \<Rightarrow> nat \<Rightarrow> 'z board_scheme \<Rightarrow> 'z board_scheme" where
  "ISR_TXC c n s =
     do_reti
       (if RS485_MODE c
        then on_unit n (\<lambda>u. u\<lparr>RS485_PORT := RS485_PORT u AND NOT (bv (RS485_IONUM c))\<rparr>) s else s)"

section \<open>The reception complete interrupt\<close>

definition RX_read :: "nat \<Rightarrow> 'z board_scheme \<Rightarrow> 'z board_scheme" where
  "RX_read n s = (let (v, s) = read_UDR n s in set_reg 25 v s)"

definition RX_disable :: "usart_config \<Rightarrow> nat \<Rightarrow> 'z board_scheme \<Rightarrow> 'z board_scheme" where
  "RX_disable c n s =
     (let s = (if SOFT_RTS c
               then on_unit n (\<lambda>u. u\<lparr>RTS_PORT := RTS_PORT u OR bv (RTS_IONUM c)\<rparr>) s else s);
          s = set_reg 31 (UCSRB (units s n)) s;
          s = set_reg 31 (R s 31 AND NOT (bv RXCIE_BIT)) s
      in on_unit n (\<lambda>u. u\<lparr>UCSRB := R s 31\<rparr>) s)"

definition RX_store :: "usart_config \<Rightarrow> nat \<Rightarrow> 'z board_scheme \<Rightarrow> 'z board_scheme" where
  "RX_store c n s =
     (let s = on_unit n (\<lambda>u. u\<lparr>rx_Head := R s 30\<rparr>) s;
          s = Z_buffer (RX_BUF_ADDR c) s;
          i = asm_element (RX_BUF_ADDR c) (Z_reg s);
          v = R s 25
      in on_unit n (\<lambda>u. u\<lparr>rx_buffer := (rx_buffer u)(i := v)\<rparr>) s)"

text \<open>In multi-processor mode a frame is stored if the unit is addressed already or by this frame.\<close>

definition RX_accept :: "usart_config \<Rightarrow> nat \<Rightarrow> 'z board_scheme \<Rightarrow> 'z board_scheme" where
  "RX_accept c n s =
     (if MPCM_MODE c
      then
        let s = set_reg 31 (UCSRA (units s n)) s in
        if \<not> bit (R s 31) MPCM_BIT then RX_store c n s
        else if R s 25 = MPCM_ADDRESS c \<or> MPCM_GCALL c = Some (R s 25)
        then
          let s = set_reg 31 (R s 31 AND NOT (bv MPCM_BIT)) s;
              s = on_unit n (\<lambda>u. u\<lparr>UCSRA := R s 31\<rparr>) s
          in RX_store c n s
        else s
      else RX_store c n s)"

definition RX_body :: "usart_config \<Rightarrow> nat \<Rightarrow> 'z board_scheme \<Rightarrow> 'z board_scheme" where
  "RX_body c n s =
     (let s = set_reg 30 (rx_Head (units s n)) s;
          s = set_reg 31 (rx_Tail (units s n)) s;
          s = set_reg 30 (R s 30 + 1) s;
          s = (if RX_BUFFER_MASK c \<noteq> 0xFF then set_reg 30 (R s 30 AND RX_BUFFER_MASK c) s else s)
      in if R s 31 = R s 30
         then (if SOFT_RTS c \<or> EXTEND_RX c then RX_disable c n s else s)
         else RX_accept c n (if EXTEND_RX c then RX_read n s else s))"

definition ISR_RX :: "usart_config \<Rightarrow> nat \<Rightarrow> u8 \<Rightarrow> 'z board_scheme \<Rightarrow> 'z board_scheme" where
  "ISR_RX c n flags s =
     do_reti (with_sreg_saved flags (with_pushed [25] (\<lambda>s.
       with_pushed [30, 31] (RX_body c n) (if EXTEND_RX c then s else RX_read n s))) s)"

text \<open>What becomes of the units.\<close>

definition RX_effect :: "usart_config \<Rightarrow> nat \<Rightarrow> 'z board_scheme \<Rightarrow> nat \<Rightarrow> usart" where
  "RX_effect c n s = units (RX_body c n (if EXTEND_RX c then s else RX_read n s))"

text \<open>The C code of the comment.\<close>

definition ISR_RX_C :: "usart_config \<Rightarrow> usart \<Rightarrow> usart" where
  "ISR_RX_C c u =
     (let tmp_rx_Head = (rx_Head u + 1) AND RX_BUFFER_MASK c;
          tmp = UDR_in u;
          u = u\<lparr>UCSRA := UCSRA u AND NOT (bv RXC_BIT)\<rparr>;
          store = (\<lambda>u. if rx_Tail u \<noteq> tmp_rx_Head
                       then u\<lparr>rx_Head := tmp_rx_Head, rx_buffer := (rx_buffer u)(tmp_rx_Head := tmp)\<rparr>
                       else u)
      in if MPCM_MODE c \<and> UCSRA u AND bv MPCM_BIT \<noteq> 0
         then (if tmp = MPCM_ADDRESS c \<or> MPCM_GCALL c = Some tmp
               then store (u\<lparr>UCSRA := UCSRA u AND NOT (bv MPCM_BIT)\<rparr>) else u)
         else store u)"

definition RX_full :: "usart_config \<Rightarrow> usart \<Rightarrow> bool" where
  "RX_full c u \<longleftrightarrow> rx_Tail u = (rx_Head u + 1) AND RX_BUFFER_MASK c"

section \<open>Interrupts are transparent\<close>

text \<open>
  \<open>framed d rs s s'\<close>: from \<open>s\<close> to \<open>s'\<close> only the units, the registers of \<open>rs\<close>, SREG and the \<open>d\<close>
  bytes below the stack pointer have changed.
\<close>

definition below :: "nat \<Rightarrow> u16 \<Rightarrow> u16 set" where
  "below d a = (\<lambda>i. a - of_nat i) ` {..<d}"

definition framed :: "nat \<Rightarrow> nat set \<Rightarrow> 'z board_scheme \<Rightarrow> 'z board_scheme \<Rightarrow> bool" where
  "framed d rs s s' \<longleftrightarrow>
     (\<exists>r m x u. s' = s\<lparr>R := r, SREG := x, SRAM := m, units := u\<rparr>
        \<and> (\<forall>q. q \<notin> rs \<longrightarrow> r q = R s q) \<and> (\<forall>a. a \<notin> below d (SP s) \<longrightarrow> m a = SRAM s a))"

lemma below_Suc: "below (Suc d) a = insert a (below d (a - 1))"
proof -
  have "{..<Suc d} = insert 0 (Suc ` {..<d})" by (rule lessThan_Suc_eq_insert_0)
  then show ?thesis by (auto simp: below_def image_iff algebra_simps)
qed

lemma below_add: "below (m + d) a = below m a \<union> below d (a - of_nat m)"
  by (induction m arbitrary: a) (simp_all add: below_Suc algebra_simps below_def [of 0])

lemma below_mono: "d \<le> d' \<Longrightarrow> below d a \<subseteq> below d' a"
  by (auto simp: below_def)

lemma top_not_below: "d < 65536 \<Longrightarrow> a \<notin> below d (a - 1)"
proof
  assume "d < 65536" "a \<in> below d (a - 1)"
  then obtain i where "i < d" "a = a - 1 - of_nat i" by (auto simp: below_def)
  then have "(of_nat (Suc i) :: u16) = 0" by (simp add: algebra_simps)
  then have "65536 dvd Suc i" by (simp only: word_of_nat_eq_0_iff) simp
  with \<open>i < d\<close> \<open>d < 65536\<close> show False by (auto dest: dvd_imp_le)
qed

lemma framedE:
  assumes "framed d rs s s'"
  obtains r m x u where "s' = s\<lparr>R := r, SREG := x, SRAM := m, units := u\<rparr>"
    "\<And>q. q \<notin> rs \<Longrightarrow> r q = R s q" "\<And>a. a \<notin> below d (SP s) \<Longrightarrow> m a = SRAM s a"
  using assms unfolding framed_def by blast

lemma framedI:
  assumes "s' = s\<lparr>R := r, SREG := x, SRAM := m, units := u\<rparr>"
    "\<And>q. q \<notin> rs \<Longrightarrow> r q = R s q" "\<And>a. a \<notin> below d (SP s) \<Longrightarrow> m a = SRAM s a"
  shows "framed d rs s s'"
  using assms unfolding framed_def by blast

lemma framed_push_pop:
  assumes "framed d rs (push_byte (R s r) s) s'" "d < 65536"
  shows "framed (Suc d) (rs - {r}) s (let (v, s) = pop_byte s' in set_reg r v s)"
proof -
  obtain q m x u where s': "s' = push_byte (R s r) s\<lparr>R := q, SREG := x, SRAM := m, units := u\<rparr>"
    and q: "\<And>i. i \<notin> rs \<Longrightarrow> q i = R s i"
    and m: "\<And>a. a \<notin> below d (SP s - 1) \<Longrightarrow> m a = ((SRAM s)(SP s := R s r)) a"
    using assms(1) by (auto elim!: framedE simp: push_byte_def)
  have t: "m (SP s) = R s r" using m [OF top_not_below [OF assms(2)]] by simp
  show ?thesis
    by (rule framedI [where r = "q(r := R s r)" and x = x and m = m and u = u])
      (use q m t in \<open>auto simp: s' push_byte_def pop_byte_def set_reg_def below_Suc\<close>)
qed

lemma framed_with_pushed:
  assumes "\<And>s. framed d rs s (body s)" "length l + d < 65536"
  shows "framed (length l + d) (rs - set l) s (with_pushed l body s)"
  using assms(2)
proof (induction l arbitrary: s)
  case (Cons r l)
  then have "framed (length l + d) (rs - set l) (push_byte (R s r) s) (with_pushed l body (push_byte (R s r) s))"
    by simp
  from framed_push_pop [OF this] Cons.prems show ?case
    by (simp add: with_pushed.simps Let_def Diff_insert [symmetric])
qed (simp add: with_pushed.simps assms(1))

lemma units_stack [simp]:
  "units (push_byte v s) = units s" "units (snd (pop_byte s)) = units s" "units (set_reg r v s) = units s"
  by (simp_all add: push_byte_def pop_byte_def set_reg_def)

lemma units_with_pushed:
  assumes "\<And>s. units (body s) = f s" "\<And>v s. f (push_byte v s) = f s"
  shows "units (with_pushed l body s) = f s"
  by (induction l arbitrary: s) (simp_all add: with_pushed.simps assms Let_def split_beta)

lemma framed_with_sreg_saved:
  assumes "\<And>s. framed d rs s (body s)" "d < 65535" "16 \<notin> rs"
  shows "framed (Suc d) rs s (with_sreg_saved flags body s)" (is ?A)
    "SREG (with_sreg_saved flags body s) = SREG s" (is ?B)
proof -
  let ?f = "\<lambda>s. (body (set_reg 16 (SREG s) s))\<lparr>SREG := SREG s\<rparr>"
  have R16: "R (body (set_reg 16 (SREG s) s)) 16 = SREG s" for s
    using assms(1) [of "set_reg 16 (SREG s) s"] assms(3) by (auto elim!: framedE simp: set_reg_def)
  have eq: "with_sreg_saved flags body s = with_pushed [16] ?f s" for s
    by (simp add: with_sreg_saved_def Let_def R16)
  have fr: "framed d (insert 16 rs) s (?f s)" for s
  proof -
    obtain r m x u where b: "body (set_reg 16 (SREG s) s) = s\<lparr>R := r, SREG := x, SRAM := m, units := u\<rparr>"
      "\<And>q. q \<notin> insert 16 rs \<Longrightarrow> r q = R s q" "\<And>a. a \<notin> below d (SP s) \<Longrightarrow> m a = SRAM s a"
      using assms(1) [of "set_reg 16 (SREG s) s"] by (auto elim!: framedE simp: set_reg_def)
    show ?thesis by (rule framedI [where r = r and x = "SREG s" and m = m and u = u]) (use b in \<open>auto simp: set_reg_def\<close>)
  qed
  show ?A using framed_with_pushed [of d "insert 16 rs" ?f "[16]" s, OF fr] assms(2,3)
    by (simp add: eq)
  show ?B by (simp add: with_pushed.simps eq Let_def split_beta pop_byte_def set_reg_def push_byte_def)
qed

lemma framed_reti:
  assumes "framed d {} (irq_enter v s) s'" "SREG s' = SREG (irq_enter v s)" "d < 65534"
  shows "\<exists>m. do_reti s' = s\<lparr>SREG := SREG s OR 0x80, SRAM := m, units := units s'\<rparr>
    \<and> (\<forall>a. a \<notin> below (d + 2) (SP s) \<longrightarrow> m a = SRAM s a)"
proof -
  obtain r m x u where s': "s' = irq_enter v s\<lparr>R := r, SREG := x, SRAM := m, units := u\<rparr>"
    and r: "\<And>q. r q = R (irq_enter v s) q"
    and m: "\<And>a. a \<notin> below d (SP s - 2) \<Longrightarrow> m a = SRAM (irq_enter v s) a"
    using assms(1) by (auto elim!: framedE simp: irq_enter_def)
  have x: "x = SREG s AND 0x7F" using assms(2) s' by (simp add: irq_enter_def)
  have "SP s \<notin> below d (SP s - 2)" "SP s - 1 \<notin> below d (SP s - 2)"
    using top_not_below [of "Suc d" "SP s"] top_not_below [of d "SP s - 1"] assms(3)
    by (simp_all add: below_Suc)
  then have "m (SP s) = lo8 (PC s)" "m (SP s - 1) = hi8 (PC s)"
    using m by (simp_all add: irq_enter_def SRAM_push_pc)
  moreover have "(SREG s AND 0x7F) OR 0x80 = SREG s OR 0x80"
    by (rule u8_bit_eqI) (simp_all add: bit_simps)
  moreover have "r = R s" using r by (auto simp: irq_enter_def)
  ultimately have "do_reti s' = s\<lparr>SREG := SREG s OR 0x80, SRAM := m, units := units s'\<rparr>"
    by (simp add: s' do_reti_def do_ret_def pop_byte_def sei_def cli_def irq_enter_def x push_pc_def push_byte_def)
  moreover have "m a = SRAM s a" if "a \<notin> below (d + 2) (SP s)" for a
    using that m [of a] by (simp add: below_Suc irq_enter_def SRAM_push_pc)
  ultimately show ?thesis by blast
qed

section \<open>The bodies of the routines\<close>

lemma and_FF [simp]: "x AND 255 = x" for x :: u8
  by (rule u8_bit_eqI) (simp_all add: bit_simps)

lemma Z_buffer_sels [simp]:
  "Z_reg (Z_buffer buf s) = asm_address buf (R s 30)" "units (Z_buffer buf s) = units s"
  "R (Z_buffer buf s) 25 = R s 25"
  by (simp_all add: Z_buffer_def Z_reg_def set_reg_def Let_def)

lemma on_unit_sels [simp]:
  "R (on_unit n f s) = R s" "units (on_unit n f s) = (units s)(n := f (units s n))"
  by (simp_all add: on_unit_def)

lemma R_set_reg [simp]: "R (set_reg r v s) = (R s)(r := v)"
  by (simp add: set_reg_def)

lemma masked_reg: "(if msk \<noteq> 0xFF then set_reg r (R s r AND msk) s else s) = set_reg r (R s r AND msk) s"
  by (auto simp: set_reg_def)

lemma UDRE_body_units: "units (UDRE_body c n s) = (units s)(n := ISR_TX_C c (units s n))"
  by (simp add: UDRE_body_def ISR_TX_C_def Let_def write_UDR_def load_tx_def asm_element_address if_distrib
      [of "\<lambda>s. R s _"])

lemma framed_refl: "framed 0 rs s s"
  by (rule framedI [where r = "R s" and x = "SREG s" and m = "SRAM s" and u = "units s"]) simp_all

lemma framed_reg: "framed d rs s s' \<Longrightarrow> r \<in> rs \<Longrightarrow> framed d rs s (set_reg r v s')"
  by (erule framedE)
   (rule framedI [where r = "R (set_reg r v s')" and x = "SREG s'" and m = "SRAM s'" and u = "units s'"],
     auto simp: set_reg_def)

lemma framed_unit: "framed d rs s s' \<Longrightarrow> framed d rs s (on_unit n f s')"
  by (erule framedE)
   (rule framedI [where r = "R s'" and x = "SREG s'" and m = "SRAM s'" and u = "units (on_unit n f s')"],
     auto simp: on_unit_def)

lemmas framed_intros = framed_refl framed_reg framed_unit

lemma framed_UDRE_body: "framed 0 {30, 31} s (UDRE_body c n s)"
  by (auto simp: UDRE_body_def Let_def Z_buffer_def write_UDR_def intro!: framed_intros)

lemma framed_RX_store: "framed d rs s s' \<Longrightarrow> {30, 31} \<subseteq> rs \<Longrightarrow> framed d rs s (RX_store c n s')"
  by (simp add: RX_store_def Z_buffer_def Let_def framed_intros)

lemma framed_RX_accept: "framed d rs s s' \<Longrightarrow> {30, 31} \<subseteq> rs \<Longrightarrow> framed d rs s (RX_accept c n s')"
  by (simp add: RX_accept_def Let_def framed_intros framed_RX_store)

lemma framed_RX_disable: "framed d rs s s' \<Longrightarrow> {30, 31} \<subseteq> rs \<Longrightarrow> framed d rs s (RX_disable c n s')"
  by (simp add: RX_disable_def Let_def framed_intros)

lemma framed_RX_read: "framed d rs s s' \<Longrightarrow> 25 \<in> rs \<Longrightarrow> framed d rs s (RX_read n s')"
  by (simp add: RX_read_def read_UDR_def framed_intros)

lemma framed_RX_body: "framed 0 {25, 30, 31} s (RX_body c n s)"
  by (simp add: RX_body_def Let_def framed_intros framed_RX_disable framed_RX_accept framed_RX_read)

lemma and_bv_iff: "x AND bv n = 0 \<longleftrightarrow> \<not> bit x n" for x :: u8
  by (auto simp: and_exp_eq_0_iff_not_bit push_bit_eq_mult)

lemma R_push_byte [simp]: "R (push_byte v s) = R s"
  by (simp add: push_byte_def)

lemma RX_store_units:
  "units (RX_store c n s) = (units s)(n := (units s n)\<lparr>rx_Head := R s 30,
     rx_buffer := (rx_buffer (units s n))(R s 30 := R s 25)\<rparr>)"
  by (simp add: RX_store_def Let_def asm_element_address)

lemma RX_accept_units:
  "units (RX_accept c n s) =
     (let u = units s n; v = R s 25;
          store = \<lambda>u. u\<lparr>rx_Head := R s 30, rx_buffer := (rx_buffer u)(R s 30 := v)\<rparr>
      in (units s)(n :=
        if MPCM_MODE c \<and> bit (UCSRA u) 0
        then (if v = MPCM_ADDRESS c \<or> MPCM_GCALL c = Some v then store (u\<lparr>UCSRA := UCSRA u AND NOT (bv 0)\<rparr>) else u)
        else store u))"
  by (simp add: RX_accept_def Let_def RX_store_units)

lemma RX_accept_cong:
  "units s = units s' \<Longrightarrow> R s 25 = R s' 25 \<Longrightarrow> R s 30 = R s' 30 \<Longrightarrow>
   units (RX_accept c n s) = units (RX_accept c n s')"
  by (simp add: RX_accept_units)

lemma RX_disable_units:
  "units (RX_disable c n s) = (units s)(n := (units s n)
     \<lparr>RTS_PORT := (if SOFT_RTS c then RTS_PORT (units s n) OR bv (RTS_IONUM c) else RTS_PORT (units s n)),
      UCSRB := UCSRB (units s n) AND NOT (bv RXCIE_BIT)\<rparr>)"
  by (simp add: RX_disable_def Let_def)

lemma RX_read_sels [simp]:
  "R (RX_read n s) = (R s)(25 := UDR_in (units s n))"
  "units (RX_read n s) = (units s)(n := (units s n)\<lparr>UCSRA := UCSRA (units s n) AND NOT (bv RXC_BIT)\<rparr>)"
  by (simp_all add: RX_read_def read_UDR_def)

lemma RX_body_units:
  "units (RX_body c n s) =
     (let u = units s n; h = (rx_Head u + 1) AND RX_BUFFER_MASK c in
      if RX_full c u then (if SOFT_RTS c \<or> EXTEND_RX c then units (RX_disable c n s) else units s)
      else units (RX_accept c n (set_reg 30 h (if EXTEND_RX c then RX_read n s else s))))"
proof -
  let ?h = "(rx_Head (units s n) + 1) AND RX_BUFFER_MASK c"
  let ?t = "set_reg 30 ?h (set_reg 30 (rx_Head (units s n) + 1) (set_reg 31 (rx_Tail (units s n))
    (set_reg 30 (rx_Head (units s n)) s)))"
  have "RX_body c n s =
    (if rx_Tail (units s n) = ?h then (if SOFT_RTS c \<or> EXTEND_RX c then RX_disable c n ?t else ?t)
     else RX_accept c n (if EXTEND_RX c then RX_read n ?t else ?t))"
    by (simp add: RX_body_def Let_def masked_reg)
  moreover have "units (RX_accept c n (if EXTEND_RX c then RX_read n ?t else ?t))
    = units (RX_accept c n (set_reg 30 ?h (if EXTEND_RX c then RX_read n s else s)))"
    by (rule RX_accept_cong) simp_all
  ultimately show ?thesis by (simp add: RX_full_def Let_def RX_disable_units)
qed

lemma units_RX_body_push: "units (RX_body c n (push_byte v s)) = units (RX_body c n s)"
  by (simp add: RX_body_units Let_def RX_accept_units RX_disable_units)

section \<open>The routines are transparent and implement the C code\<close>

lemma framed_mono: "framed d rs s s' \<Longrightarrow> d \<le> d' \<Longrightarrow> framed d' rs s s'"
  using below_mono [of d d' "SP s"] unfolding framed_def by blast

lemma framed_pushed:
  assumes "\<And>s. framed d rs s (body s)" "length l + d = k" "rs - set l = qs" "k < 65536"
  shows "framed k qs s (with_pushed l body s)"
  using framed_with_pushed [of d rs body l s, OF assms(1)] assms(2-) by simp

lemma framed_UDRE_pushed: "framed 2 {} s (with_pushed [30, 31] (UDRE_body c n) s)"
  by (rule framed_pushed [OF framed_UDRE_body]) auto

lemma framed_trans: "framed 0 rs s s' \<Longrightarrow> framed d rs s' s'' \<Longrightarrow> framed d rs s s''"
proof -
  assume "framed 0 rs s s'" "framed d rs s' s''"
  then obtain r m x u r' m' x' u' where "s' = s\<lparr>R := r, SREG := x, SRAM := m, units := u\<rparr>"
    "\<And>q. q \<notin> rs \<Longrightarrow> r q = R s q" "\<And>a. m a = SRAM s a"
    "s'' = s'\<lparr>R := r', SREG := x', SRAM := m', units := u'\<rparr>"
    "\<And>q. q \<notin> rs \<Longrightarrow> r' q = R s' q" "\<And>a. a \<notin> below d (SP s') \<Longrightarrow> m' a = SRAM s' a"
    by (elim framedE) (auto simp: below_def)
  then show ?thesis
    by (intro framedI [where r = r' and x = x' and m = m' and u = u']) auto
qed

lemma framed_RX_pushed:
  "framed 3 {} s (with_pushed [25] (\<lambda>s. with_pushed [30, 31] (RX_body c n) (if e then s else RX_read n s)) s)"
proof -
  have "framed 2 {25} s (with_pushed [30, 31] (RX_body c n) s)" for s
    by (rule framed_pushed [OF framed_RX_body]) auto
  then have "framed 2 {25} s (with_pushed [30, 31] (RX_body c n) (if e then s else RX_read n s))" for s
    by (cases e) (auto intro: framed_trans [OF framed_RX_read [OF framed_refl]])
  then show ?thesis by (rule framed_pushed) auto
qed

lemma units_with_sreg_saved:
  assumes "\<And>s. units (body s) = f s" "\<And>v s. f (push_byte v s) = f s" "\<And>v s. f (set_reg 16 v s) = f s"
  shows "units (with_sreg_saved flags body s) = f s"
  unfolding with_sreg_saved_def by (rule units_with_pushed) (simp_all add: Let_def assms)

lemma isr_frame:
  assumes "\<And>s. framed d {} s (body s)" "k = d + 3" "k < 65536"
    and "\<And>s. units (body s) = f s" "\<And>v s. f (push_byte v s) = f s" "\<And>v s. f (set_reg 16 v s) = f s"
    and "f (irq_enter v s) = f s"
  shows "\<exists>m. do_reti (with_sreg_saved flags body (irq_enter v s))
      = s\<lparr>SREG := SREG s OR 0x80, SRAM := m, units := f s\<rparr>
    \<and> (\<forall>a. a \<notin> below k (SP s) \<longrightarrow> m a = SRAM s a)"
proof -
  have "framed (Suc d) {} (irq_enter v s) (with_sreg_saved flags body (irq_enter v s))"
    using framed_with_sreg_saved(1) [of d "{}" body] assms(1-3) by simp
  moreover have "SREG (with_sreg_saved flags body (irq_enter v s)) = SREG (irq_enter v s)"
    using framed_with_sreg_saved(2) [of d "{}" body] assms(1-3) by simp
  ultimately show ?thesis
    using framed_reti [of "Suc d" v s "with_sreg_saved flags body (irq_enter v s)"] assms(2,3)
      units_with_sreg_saved [of body f flags "irq_enter v s"] assms(4-7)
    by (simp add: numeral_3_eq_3)
qed

lemma irq_enter_unit [simp]: "units (irq_enter v s) = units s" "R (irq_enter v s) = R s"
  by (simp_all add: irq_enter_def cli_def push_pc_def)

lemma ISR_UDRE_frame:
  "\<exists>m. ISR_UDRE c n flags (irq_enter v s)
      = s\<lparr>SREG := SREG s OR 0x80, SRAM := m, units := (units s)(n := ISR_TX_C c (units s n))\<rparr>
    \<and> (\<forall>a. a \<notin> below 5 (SP s) \<longrightarrow> m a = SRAM s a)"
  unfolding ISR_UDRE_def
  by (rule isr_frame [OF framed_UDRE_pushed, where f = "\<lambda>s. (units s)(n := ISR_TX_C c (units s n))"])
    (simp_all add: units_with_pushed [OF UDRE_body_units])

lemma ISR_RX_frame:
  "\<exists>m. ISR_RX c n flags (irq_enter v s) = s\<lparr>SREG := SREG s OR 0x80, SRAM := m, units := RX_effect c n s\<rparr>
    \<and> (\<forall>a. a \<notin> below 6 (SP s) \<longrightarrow> m a = SRAM s a)"
proof -
  let ?b = "\<lambda>s. with_pushed [30, 31] (RX_body c n) (if EXTEND_RX c then s else RX_read n s)"
  have 1: "units (?b s) = RX_effect c n s" for s
    unfolding RX_effect_def by (rule units_with_pushed) (simp_all add: units_RX_body_push)
  have push: "RX_effect c n (push_byte v s) = RX_effect c n s" for v s
    by (simp add: RX_effect_def RX_body_units Let_def RX_accept_units RX_disable_units)
  have 2: "units (with_pushed [25] ?b s) = RX_effect c n s" for s
    by (rule units_with_pushed) (simp_all only: 1 push)
  have other: "RX_effect c n (set_reg 16 w s) = RX_effect c n s" "RX_effect c n (irq_enter v s) = RX_effect c n s"
    for w s
    by (simp_all add: RX_effect_def RX_body_units Let_def RX_accept_units RX_disable_units)
  show ?thesis unfolding ISR_RX_def
    by (rule isr_frame [OF framed_RX_pushed, where f = "RX_effect c n"]) (simp_all add: 2 push other)
qed

lemma RX_effect_C:
  assumes "\<not> SOFT_RTS c" "\<not> EXTEND_RX c" "MPCM_MODE c \<longrightarrow> \<not> RX_full c (units s n)"
  shows "RX_effect c n s = (units s)(n := ISR_RX_C c (units s n))"
proof (cases "RX_full c (units s n)")
  case True
  then show ?thesis
    using assms by (simp add: RX_effect_def RX_body_units ISR_RX_C_def Let_def RX_full_def)
next
  case False
  have mp: "(UCSRA u AND NOT (bv RXC_BIT)) AND bv MPCM_BIT = 0 \<longleftrightarrow> \<not> bit (UCSRA u AND NOT (bv RXC_BIT)) MPCM_BIT" for u
    by (rule and_bv_iff)
  show ?thesis
    using assms False
    by (simp add: RX_effect_def RX_body_units RX_accept_units ISR_RX_C_def Let_def RX_full_def mp [simplified])
qed

section \<open>Transmission complete\<close>

lemma ISR_TXC_frame:
  "\<exists>m. ISR_TXC c n (irq_enter v s) = s\<lparr>SREG := SREG s OR 0x80, SRAM := m,
      units := (units s)(n := if RS485_MODE c
        then (units s n)\<lparr>RS485_PORT := RS485_PORT (units s n) AND NOT (bv (RS485_IONUM c))\<rparr> else units s n)\<rparr>
    \<and> (\<forall>a. a \<notin> below 2 (SP s) \<longrightarrow> m a = SRAM s a)"
proof -
  let ?s = "if RS485_MODE c
    then on_unit n (\<lambda>u. u\<lparr>RS485_PORT := RS485_PORT u AND NOT (bv (RS485_IONUM c))\<rparr>) (irq_enter v s)
    else irq_enter v s"
  have "framed 0 {} (irq_enter v s) ?s" by (simp add: framed_intros)
  moreover have "SREG ?s = SREG (irq_enter v s)" by (simp add: on_unit_def)
  ultimately show ?thesis
    using framed_reti [of 0 v s ?s] by (cases "RS485_MODE c") (simp_all add: ISR_TXC_def numeral_2_eq_2)
qed

section \<open>Properties\<close>

text \<open>
  C8: The interrupt routines of the serial unit, written as naked assembly, are transparent and do what the C code kept
  beside them does: from the vector to \<open>reti\<close> the interrupted program sees no change but that of the unit, the enabled
  interrupts and at most six bytes of free stack below its stack pointer. (With request-to-send or an extended buffer the routine does
  more than the C code, and in multi-processor mode it tests for a full buffer before the address.)
\<close>

theorem serial_interrupts_correct:
  assumes "\<not> SOFT_RTS c" "\<not> EXTEND_RX c" "MPCM_MODE c \<longrightarrow> \<not> RX_full c (units s n)"
  shows "(\<exists>m. ISR_UDRE c n flags (irq_enter v s)
        = s\<lparr>SREG := SREG s OR 0x80, SRAM := m, units := (units s)(n := ISR_TX_C c (units s n))\<rparr>
      \<and> (\<forall>a. a \<notin> below 5 (SP s) \<longrightarrow> m a = SRAM s a))
    \<and> (\<exists>m. ISR_RX c n flags (irq_enter v s)
        = s\<lparr>SREG := SREG s OR 0x80, SRAM := m, units := (units s)(n := ISR_RX_C c (units s n))\<rparr>
      \<and> (\<forall>a. a \<notin> below 6 (SP s) \<longrightarrow> m a = SRAM s a))"
  using ISR_UDRE_frame [of c n flags v s] ISR_RX_frame [of c n flags v s] RX_effect_C [OF assms] by simp

lemma serial_interrupts_correct_witness:
  "units (ISR_RX (build_config 0x200 0x220) 0 3 (irq_enter 0x24 board_reset)) 0
     = ISR_RX_C (build_config 0x200 0x220) (units board_reset 0)
   \<and> SP (ISR_UDRE (build_config 0x200 0x220) 0 3 (irq_enter 0x26 board_reset)) = SP board_reset"
proof -
  have "\<not> SOFT_RTS (build_config 0x200 0x220)" "\<not> EXTEND_RX (build_config 0x200 0x220)"
    "MPCM_MODE (build_config 0x200 0x220) \<longrightarrow> \<not> RX_full (build_config 0x200 0x220) (units board_reset 0)"
    by (simp_all add: build_config_def)
  from serial_interrupts_correct [OF this, of 3 "0x24"] serial_interrupts_correct [OF this, of 3 "0x26"]
  show ?thesis by auto
qed

end
