(* ===== verification/Usart_Queue.thy ===== *)
theory Usart_Queue
  imports Usart_Isr
begin

text \<open>
  The two ring buffers of a unit as bounded queues: the program puts bytes into the transmit buffer and
  the data register empty interrupt takes them, the reception interrupt puts bytes into the
  receive buffer and the program takes them. Both are interpretations of the queue interface, and the transmitted
  stream is the accepted bytes in their order, whatever the interleaving.
\<close>

section \<open>Abstraction\<close>

text \<open>The exponent of a buffer size: the source asks for a power of two, and the indices have 8 bits.\<close>

definition buffer_bits :: "nat \<Rightarrow> nat" where
  "buffer_bits sz = length (takeWhile (\<lambda>k. 2 ^ k < sz) [0..<9])"

definition size_ok :: "nat \<Rightarrow> bool" where
  "size_ok sz \<longleftrightarrow> 2 \<le> sz \<and> sz \<le> 256 \<and> 2 ^ buffer_bits sz = sz"

definition tx_contents :: "usart_config \<Rightarrow> usart \<Rightarrow> u8 list" where
  "tx_contents c u = ring_items (buffer_bits (TX_BUFFER_SIZE c)) (tx_buffer u) (tx_Head u) (tx_Tail u)"

definition rx_contents :: "usart_config \<Rightarrow> usart \<Rightarrow> u8 list" where
  "rx_contents c u = ring_items (buffer_bits (RX_BUFFER_SIZE c)) (rx_buffer u) (rx_Head u) (rx_Tail u)"

text \<open>
  The transmitter is consistent: the indices are in range, the interrupt is enabled only while there is
  a byte to send and, without flow control, always then. Fast insertions bypass the buffer and are excluded.
\<close>

definition tx_ok :: "usart_config \<Rightarrow> usart \<Rightarrow> bool" where
  "tx_ok c u \<longleftrightarrow> size_ok (TX_BUFFER_SIZE c) \<and> \<not> FAST_INSERTIONS c
     \<and> ring_ok (buffer_bits (TX_BUFFER_SIZE c)) (tx_Head u) (tx_Tail u)
     \<and> (bit (UCSRB u) UDRIE_BIT \<longrightarrow> tx_Head u \<noteq> tx_Tail u)
     \<and> (\<not> SOFT_CTS c \<and> tx_Head u \<noteq> tx_Tail u \<longrightarrow> bit (UCSRB u) UDRIE_BIT)"

definition rx_ok :: "usart_config \<Rightarrow> usart \<Rightarrow> bool" where
  "rx_ok c u \<longleftrightarrow> size_ok (RX_BUFFER_SIZE c) \<and> \<not> MPCM_MODE c
     \<and> ring_ok (buffer_bits (RX_BUFFER_SIZE c)) (rx_Head u) (rx_Tail u)"

text \<open>The hardware receives a byte and raises the interrupt.\<close>

definition rx_arrives :: "usart_config \<Rightarrow> nat \<Rightarrow> u16 \<Rightarrow> u8 \<Rightarrow> u8 \<Rightarrow> 'z board_scheme \<Rightarrow> 'z board_scheme" where
  "rx_arrives c n v flags x s =
     ISR_RX c n flags (irq_enter v (on_unit n (\<lambda>u. u\<lparr>UDR_in := x, UCSRA := UCSRA u OR bv RXC_BIT\<rparr>) s))"

text \<open>The hardware raises the data register empty interrupt if it is enabled.\<close>

definition udre_fires :: "usart_config \<Rightarrow> nat \<Rightarrow> u16 \<Rightarrow> u8 \<Rightarrow> 'z board_scheme \<Rightarrow> 'z board_scheme" where
  "udre_fires c n v flags s =
     (if bit (UCSRB (units s n)) UDRIE_BIT then ISR_UDRE c n flags (irq_enter v s) else s)"

section \<open>Sizes and masks\<close>

lemma size_ok_power: "1 \<le> k \<Longrightarrow> k \<le> 8 \<Longrightarrow> size_ok (2 ^ k)"
proof -
  assume "1 \<le> k" "k \<le> 8"
  then have "k \<in> {1, 2, 3, 4, 5, 6, 7, 8}" by auto
  then show ?thesis by (auto simp: size_ok_def buffer_bits_def upt_rec)
qed

lemma and_size_mask:
  fixes x :: u8
  assumes "size_ok sz"
  shows "x AND of_nat (sz - 1) = take_bit (buffer_bits sz) x"
proof -
  have "(of_nat (sz - 1) :: u8) = mask (buffer_bits sz)"
    using assms unfolding size_ok_def mask_eq_exp_minus_1 by (metis of_nat_1 of_nat_diff of_nat_numeral
      of_nat_power one_le_numeral order_trans)
  then show ?thesis by (simp add: take_bit_eq_mask)
qed

lemma and_TX_MASK: "size_ok (TX_BUFFER_SIZE c) \<Longrightarrow> x AND TX_BUFFER_MASK c = take_bit (buffer_bits (TX_BUFFER_SIZE c)) x"
  unfolding TX_BUFFER_MASK_def by (rule and_size_mask)

lemma and_RX_MASK: "size_ok (RX_BUFFER_SIZE c) \<Longrightarrow> x AND RX_BUFFER_MASK c = take_bit (buffer_bits (RX_BUFFER_SIZE c)) x"
  unfolding RX_BUFFER_MASK_def by (rule and_size_mask)

section \<open>The assembly versions are the C versions\<close>

lemma uart_putc_noblock_eq: "uart_putc_noblock c n x s = uart_putc_noblock_C c n x s"
  by (simp add: uart_putc_noblock_def uart_putc_noblock_asm_def uart_putc_noblock_C_def asm_element_address Let_def)

lemma uart_getc_eq: "uart_getc c putc n s = uart_getc_C c putc n s"
  by (simp add: uart_getc_def uart_getc_asm_def uart_getc_C_def asm_element_address Let_def)

lemma uart_getData_eq: "uart_getData c n s = uart_getData_C c n s"
  by (simp add: uart_getData_def uart_getData_asm_def uart_getData_C_def asm_element_address Let_def)

declare putstrl_asm_loop.simps [simp del] uart_putstrl_C.simps [simp del]

lemma putstrl_asm_loop_eq:
  "putstrl_asm_loop putc string (count + zl) zl s = uart_putstrl_C putc string count s"
proof (induction putc string count s arbitrary: zl rule: uart_putstrl_C.induct)
  case (1 putc string count s)
  have "putstrl_asm_loop putc bs (count + zl) (zl + 1) = uart_putstrl_C putc bs (count - 1)"
    if "count \<noteq> 0" "string = b # bs" for b bs
    by (rule ext) (use "1.IH" [OF that, of "zl + 1"] in \<open>simp add: algebra_simps\<close>)
  then show ?case
    by (subst putstrl_asm_loop.simps, subst uart_putstrl_C.simps) (auto split: list.split)
qed

section \<open>The transmit queue\<close>

lemma putc_noblock_effect:
  assumes "tx_ok c (units s n)"
  shows "uart_putc_noblock c n x s =
    (let u = units s n; h = take_bit (buffer_bits (TX_BUFFER_SIZE c)) (tx_Head u + 1) in
     if tx_Tail u = h then (False, s)
     else (True, s\<lparr>units := (units s)(n := u\<lparr>tx_buffer := (tx_buffer u)(h := x), tx_Head := h,
        RS485_PORT := (if RS485_MODE c then RS485_PORT u OR bv (RS485_IONUM c) else RS485_PORT u),
        UCSRB := (if cts_clear c u then UCSRB u OR bv UDRIE_BIT else UCSRB u)\<rparr>)\<rparr>))"
  using assms
  by (simp add: uart_putc_noblock_eq uart_putc_noblock_C_def fast_insertion_C_def tx_ok_def and_TX_MASK Let_def
      atomic_restorestate_def tx_publish_def store_tx_def set_UCSRB_def on_unit_def cli_def cts_clear_def)

lemma putc_noblock_queue:
  assumes ok: "tx_ok c (units s n)" and p: "uart_putc_noblock c n x s = (b, s')"
  shows "tx_ok c (units s' n)" "UDR_out (units s' n) = UDR_out (units s n)"
    "b \<longleftrightarrow> length (tx_contents c (units s n)) < TX_BUFFER_SIZE c - 1"
    "tx_contents c (units s' n) = tx_contents c (units s n) @ (if b then [x] else [])"
    "\<not> b \<Longrightarrow> s' = s"
proof -
  let ?u = "units s n" and ?k = "buffer_bits (TX_BUFFER_SIZE c)"
  let ?h = "take_bit ?k (tx_Head ?u + 1)"
  have r: "ring_ok ?k (tx_Head ?u) (tx_Tail ?u)" and sz: "2 ^ ?k = TX_BUFFER_SIZE c"
    using ok by (auto simp: tx_ok_def size_ok_def)
  have full: "tx_Tail ?u = ?h \<longleftrightarrow> length (tx_contents c ?u) = TX_BUFFER_SIZE c - 1"
    using ring_full [OF r, of "tx_buffer ?u"] by (auto simp: tx_contents_def sz)
  have le: "length (tx_contents c ?u) < TX_BUFFER_SIZE c"
    using ring_count_less [of ?k "tx_Head ?u - tx_Tail ?u"] by (simp add: tx_contents_def length_ring_items sz)
  have bit: "bit (UCSRB ?u OR bv UDRIE_BIT) UDRIE_BIT" by (simp add: bit_simps)
  note eff = p [unfolded putc_noblock_effect [OF ok] Let_def]
  show "b \<longleftrightarrow> length (tx_contents c ?u) < TX_BUFFER_SIZE c - 1"
    using eff full le by (auto split: if_splits)
  show "\<not> b \<Longrightarrow> s' = s" "UDR_out (units s' n) = UDR_out ?u" using eff by (auto split: if_splits)
  show "tx_ok c (units s' n)"
    using eff ok bit ring_put(2) [OF r refl] by (auto simp: tx_ok_def cts_clear_def split: if_splits)
  show "tx_contents c (units s' n) = tx_contents c ?u @ (if b then [x] else [])"
    using eff ring_put(1) [OF r refl, of "tx_buffer ?u" x] by (auto simp: tx_contents_def split: if_splits)
qed

lemma ISR_TX_C_queue:
  assumes ok: "tx_ok c u" and ne: "tx_contents c u = x # xs"
  shows "tx_ok c (ISR_TX_C c u)" "tx_contents c (ISR_TX_C c u) = xs" "UDR_out (ISR_TX_C c u) = UDR_out u @ [x]"
proof -
  let ?k = "buffer_bits (TX_BUFFER_SIZE c)"
  let ?t = "take_bit ?k (tx_Tail u + 1)"
  have r: "ring_ok ?k (tx_Head u) (tx_Tail u)" and sz: "size_ok (TX_BUFFER_SIZE c)"
    using ok by (auto simp: tx_ok_def)
  have ht: "tx_Head u \<noteq> tx_Tail u" using ne ring_items_Nil [OF r, of "tx_buffer u"] by (auto simp: tx_contents_def)
  note t = ring_take(1) [OF r refl ht, of "tx_buffer u"] ring_take(2) [OF r refl ht]
  have eff: "ISR_TX_C c u = u\<lparr>UCSRB := (if ?t = tx_Head u then UCSRB u AND NOT (bv UDRIE_BIT) else UCSRB u),
      tx_Tail := ?t, UDR_out := UDR_out u @ [tx_buffer u ?t]\<rparr>"
    by (simp add: ISR_TX_C_def Let_def and_TX_MASK [OF sz])
  have nb: "\<not> bit (UCSRB u AND NOT (bv UDRIE_BIT)) UDRIE_BIT" by (simp add: bit_simps)
  show "UDR_out (ISR_TX_C c u) = UDR_out u @ [x]" "tx_contents c (ISR_TX_C c u) = xs"
    using t(1) ne by (auto simp: eff tx_contents_def)
  show "tx_ok c (ISR_TX_C c u)" using ok t(2) nb ht by (auto simp: eff tx_ok_def)
qed

lemma udre_unit: "units (ISR_UDRE c n flags (irq_enter v s)) = (units s)(n := ISR_TX_C c (units s n))"
  using ISR_UDRE_frame [of c n flags v s] by auto

interpretation tx: strict_queue "\<lambda>s. tx_ok c (units s n)" "\<lambda>s. tx_contents c (units s n)"
  "\<lambda>s. TX_BUFFER_SIZE c - 1"
  "\<lambda>x s. let (b, s') = uart_putc_noblock c n x s in ret (\<not> b, s')"
  "\<lambda>s. let s' = ISR_UDRE c n flags (irq_enter v s) in ret (last (UDR_out (units s' n)), s')"
  for c n v flags
proof
  fix q :: "'z board_scheme" and x xs
  assume ok: "tx_ok c (units q n)"
  obtain b q' where p: "uart_putc_noblock c n x q = (b, q')" by fastforce
  note put = putc_noblock_queue [OF ok p]
  show "\<exists>q'. (let (b, s') = uart_putc_noblock c n x q in ret (\<not> b, s')) = ret (False, q') \<and> tx_ok c (units q' n)
      \<and> tx_contents c (units q' n) = tx_contents c (units q n) @ [x] \<and> TX_BUFFER_SIZE c - 1 = TX_BUFFER_SIZE c - 1"
    if "length (tx_contents c (units q n)) < TX_BUFFER_SIZE c - 1"
    using put that p by simp
  show full: "(let (b, s') = uart_putc_noblock c n x q in ret (\<not> b, s')) = ret (True, q)"
    if "length (tx_contents c (units q n)) = TX_BUFFER_SIZE c - 1"
    using put that p by simp
  show "\<exists>q'. (let (b, s') = uart_putc_noblock c n x q in ret (\<not> b, s')) = ret (True, q') \<and> tx_ok c (units q' n)
      \<and> tx_contents c (units q' n) = tx_contents c (units q n) \<and> TX_BUFFER_SIZE c - 1 = TX_BUFFER_SIZE c - 1"
    if "length (tx_contents c (units q n)) = TX_BUFFER_SIZE c - 1"
    using full [OF that] ok by simp
  show "\<exists>q'. (let s' = ISR_UDRE c n flags (irq_enter v q) in ret (last (UDR_out (units s' n)), s')) = ret (x, q')
      \<and> tx_ok c (units q' n) \<and> tx_contents c (units q' n) = xs \<and> TX_BUFFER_SIZE c - 1 = TX_BUFFER_SIZE c - 1"
    if "tx_contents c (units q n) = x # xs"
    using ISR_TX_C_queue [OF ok that] by (simp add: Let_def udre_unit)
  show "length (tx_contents c (units q n)) \<le> TX_BUFFER_SIZE c - 1"
    using ok ring_count_less [of "buffer_bits (TX_BUFFER_SIZE c)" "tx_Head (units q n) - tx_Tail (units q n)"]
    by (auto simp: tx_contents_def length_ring_items tx_ok_def size_ok_def)
qed

section \<open>The transmitted stream\<close>

text \<open>
  A history of a unit: bytes accepted and bytes refused by \<open>uart_putc_noblock\<close>, data register empty interrupts
  while they are enabled, and anything that leaves the unit alone (other tasks, the kernel). The list holds the bytes
  accepted so far.
\<close>

inductive tx_run :: "usart_config \<Rightarrow> nat \<Rightarrow> 'z board_scheme \<Rightarrow> u8 list \<Rightarrow> 'z board_scheme \<Rightarrow> bool"
  for c n s where
  start: "tx_run c n s [] s"
| accepted: "tx_run c n s bs t \<Longrightarrow> uart_putc_noblock c n x t = (True, t') \<Longrightarrow> tx_run c n s (bs @ [x]) t'"
| refused: "tx_run c n s bs t \<Longrightarrow> uart_putc_noblock c n x t = (False, t') \<Longrightarrow> tx_run c n s bs t'"
| interrupt: "tx_run c n s bs t \<Longrightarrow> bit (UCSRB (units t n)) UDRIE_BIT \<Longrightarrow>
    tx_run c n s bs (ISR_UDRE c n flags (irq_enter v t))"
| other: "tx_run c n s bs t \<Longrightarrow> units t' n = units t n \<Longrightarrow> tx_run c n s bs t'"

lemma tx_ok_nonempty:
  assumes "tx_ok c u" "bit (UCSRB u) UDRIE_BIT"
  obtains x xs where "tx_contents c u = x # xs"
proof -
  have "tx_contents c u \<noteq> []"
    using assms ring_items_Nil [of _ "tx_Head u" "tx_Tail u"] by (auto simp: tx_ok_def tx_contents_def)
  then show ?thesis using that by (cases "tx_contents c u") auto
qed


lemma tx_ok_reset: "tx_ok (build_config tx rx) usart_reset" "tx_contents (build_config tx rx) usart_reset = []"
  "UDR_out usart_reset = []"
  by (simp_all add: tx_ok_def size_ok_def buffer_bits_def build_config_def usart_reset_def ring_ok_def upt_rec
      tx_contents_def ring_items_def)

lemma build_sizes: "TX_BUFFER_SIZE (build_config tx rx) = 32" "RX_BUFFER_SIZE (build_config tx rx) = 32"
  by (simp_all add: build_config_def)

lemma units_board_reset: "units board_reset n = usart_reset"
  by (simp add: board_reset_def kernel.defs board.defs)


section \<open>Blocking transmission\<close>

text \<open>One interrupt makes room.\<close>

lemma wait_tx_space_step: "tx_Tail (units s n) \<noteq> h \<Longrightarrow> wait_tx_space env n h s = Some s"
  by (subst wait_tx_space.simps) simp

lemma tx_Tail_moves:
  assumes "tx_ok c u" "tx_Head u \<noteq> tx_Tail u"
  shows "tx_Tail (ISR_TX_C c u) \<noteq> tx_Tail u"
proof
  assume "tx_Tail (ISR_TX_C c u) = tx_Tail u"
  then have t: "take_bit (buffer_bits (TX_BUFFER_SIZE c)) (tx_Tail u + 1) = tx_Tail u"
    using assms(1) by (simp add: ISR_TX_C_def Let_def and_TX_MASK tx_ok_def split: if_splits)
  have r: "ring_ok (buffer_bits (TX_BUFFER_SIZE c)) (tx_Tail u) (tx_Tail u)"
    using assms(1) by (simp add: tx_ok_def ring_ok_def)
  have "length (ring_items (buffer_bits (TX_BUFFER_SIZE c)) (tx_buffer u) (tx_Tail u) (tx_Tail u)) = 0"
    by (simp add: length_ring_items)
  then have "2 ^ buffer_bits (TX_BUFFER_SIZE c) \<le> (1 :: nat)"
    using ring_full [OF r, of "tx_buffer u"] t by simp
  moreover have "2 \<le> (2 :: nat) ^ buffer_bits (TX_BUFFER_SIZE c)"
    using assms(1) by (simp add: tx_ok_def size_ok_def)
  ultimately show False by simp
qed

lemma wait_tx_space_returns:
  assumes ok: "tx_ok c (units s n)" and cts: "\<not> SOFT_CTS c"
    and h: "h = (tx_Head (units s n) + 1) AND TX_BUFFER_MASK c"
  shows "\<exists>t. wait_tx_space (udre_fires c n v flags) n h s = Some t \<and> tx_Tail (units t n) \<noteq> h
    \<and> tx_ok c (units t n) \<and> tx_Head (units t n) = tx_Head (units s n)
    \<and> UDR_out (units t n) @ tx_contents c (units t n) = UDR_out (units s n) @ tx_contents c (units s n)"
proof (cases "tx_Tail (units s n) = h")
  case True
  let ?k = "buffer_bits (TX_BUFFER_SIZE c)"
  let ?t = "ISR_UDRE c n flags (irq_enter v s)"
  have r: "ring_ok ?k (tx_Head (units s n)) (tx_Tail (units s n))" and sz: "size_ok (TX_BUFFER_SIZE c)"
    using ok by (simp_all add: tx_ok_def)
  have "length (tx_contents c (units s n)) = 2 ^ ?k - 1"
    using ring_full [OF r] True h by (simp add: and_TX_MASK [OF sz] tx_contents_def)
  then have ht: "tx_Head (units s n) \<noteq> tx_Tail (units s n)"
    using ring_items_Nil [OF r, of "tx_buffer (units s n)"] sz by (auto simp: tx_contents_def size_ok_def)
  then have irq: "bit (UCSRB (units s n)) UDRIE_BIT" using ok cts unfolding tx_ok_def by blast
  obtain x xs where q: "tx_contents c (units s n) = x # xs" using ok irq by (rule tx_ok_nonempty)
  have t: "tx_Tail (units ?t n) \<noteq> h" using tx_Tail_moves [OF ok ht] True by (simp add: udre_unit)
  have "wait_tx_space (udre_fires c n v flags) n h s = wait_tx_space (udre_fires c n v flags) n h ?t"
    by (subst wait_tx_space.simps) (simp add: True udre_fires_def irq)
  moreover have "tx_Head (units ?t n) = tx_Head (units s n)" by (simp add: udre_unit ISR_TX_C_def Let_def)
  ultimately show ?thesis
    using wait_tx_space_step [OF t] t ISR_TX_C_queue [OF ok q] q by (simp add: udre_unit)
next
  case False
  then show ?thesis using ok wait_tx_space_step by blast
qed

lemma flush_drains:
  assumes "tx_ok c (units s n)" "\<not> SOFT_CTS c" "\<not> RS485_MODE c"
  shows "\<exists>t. uart_flush c (udre_fires c n v flags) n s = Some t \<and> tx_ok c (units t n) \<and> tx_contents c (units t n) = []
    \<and> UDR_out (units t n) = UDR_out (units s n) @ tx_contents c (units s n)"
  using assms
proof (induction "tx_contents c (units s n)" arbitrary: s)
  case Nil
  have "ring_ok (buffer_bits (TX_BUFFER_SIZE c)) (tx_Head (units s n)) (tx_Tail (units s n))"
    using Nil.prems(1) by (simp add: tx_ok_def)
  then have "tx_Head (units s n) = tx_Tail (units s n)"
    using Nil.hyps ring_items_Nil [of _ "tx_Head (units s n)" "tx_Tail (units s n)"] by (metis tx_contents_def)
  then have "uart_flush c (udre_fires c n v flags) n s = Some s"
    using Nil.prems(3) by (simp add: uart_flush_def wait_tx_empty.simps)
  then show ?case using Nil by simp
next
  case (Cons x xs)
  let ?t = "ISR_UDRE c n flags (irq_enter v s)"
  note q = ISR_TX_C_queue [OF Cons.prems(1) Cons.hyps(2) [symmetric]]
  have ht: "tx_Head (units s n) \<noteq> tx_Tail (units s n)"
    using Cons.hyps(2) Cons.prems(1) ring_items_Nil [of _ "tx_Head (units s n)" "tx_Tail (units s n)"]
    by (metis list.distinct(1) tx_contents_def tx_ok_def)
  then have irq: "bit (UCSRB (units s n)) UDRIE_BIT" using Cons.prems(1,2) unfolding tx_ok_def by blast
  have "uart_flush c (udre_fires c n v flags) n s = uart_flush c (udre_fires c n v flags) n ?t"
    using ht irq Cons.prems(3) by (simp add: uart_flush_def) (subst wait_tx_empty.simps, simp add: udre_fires_def)
  moreover have "xs = tx_contents c (units ?t n)" "tx_ok c (units ?t n)" "UDR_out (units ?t n) = UDR_out (units s n) @ [x]"
    using q by (simp_all add: udre_unit)
  ultimately show ?case using Cons.hyps(1) [of ?t] Cons.prems(2,3) Cons.hyps(2) by (metis append.assoc append_Cons append_Nil)
qed

text \<open>
  C10: While the data register empty interrupt is served, the blocking transmit function returns, and it appends
  its byte to the stream even if the buffer was full; a flush after it returns, and then every byte has been sent.
\<close>

theorem putc_returns:
  assumes ok: "tx_ok c (units s n)" and opts: "\<not> SOFT_CTS c" "\<not> LF_TO_CRLF c" "\<not> RS485_MODE c"
  shows "\<exists>s'. uart_putc c (TX_BUFFER_MASK c) (udre_fires c n v flags) n x s = ret s' \<and> tx_ok c (units s' n)
    \<and> UDR_out (units s' n) @ tx_contents c (units s' n) = UDR_out (units s n) @ tx_contents c (units s n) @ [x]
    \<and> (\<exists>t. uart_flush c (udre_fires c n v flags) n s' = Some t \<and> tx_contents c (units t n) = []
         \<and> UDR_out (units t n) = UDR_out (units s n) @ tx_contents c (units s n) @ [x])"
proof -
  let ?h = "(tx_Head (units s n) + 1) AND TX_BUFFER_MASK c"
  obtain t where t: "wait_tx_space (udre_fires c n v flags) n ?h s = Some t" "tx_Tail (units t n) \<noteq> ?h"
    "tx_ok c (units t n)" "tx_Head (units t n) = tx_Head (units s n)"
    "UDR_out (units t n) @ tx_contents c (units t n) = UDR_out (units s n) @ tx_contents c (units s n)"
    using wait_tx_space_returns [OF ok opts(1) refl, of v flags] by blast
  obtain b t' where p: "uart_putc_noblock c n x t = (b, t')" by fastforce
  have fast: "\<not> FAST_INSERTIONS c" using ok by (simp add: tx_ok_def)
  have b: "b" and t': "t' = atomic_restorestate (tx_publish c n ?h) (store_tx n ?h x t)"
    using p t(2,4) fast by (auto simp: uart_putc_noblock_eq uart_putc_noblock_C_def fast_insertion_C_def Let_def)
  have m: "(if TX_BUFFER_MASK c \<noteq> 0xFF then h AND TX_BUFFER_MASK c else h) = h AND TX_BUFFER_MASK c" for h
    by simp
  have "\<exists>s'. uart_putc c (TX_BUFFER_MASK c) (udre_fires c n v flags) n x s = ret s' \<and> units s' = units t'"
    using t(1) fast opts
    by (auto simp: uart_putc_def uart_putc_C_def uart_putc_asm_def uart_putc_char_C_def uart_putc_char_asm_def t'
        fast_insertion_C_def fast_insertion_asm_def m Let_def asm_element_address atomic_restorestate_def
        tx_publish_def store_tx_def set_UCSRB_def on_unit_def cli_def sei_def cts_clear_def)
  then obtain s' where s': "uart_putc c (TX_BUFFER_MASK c) (udre_fires c n v flags) n x s = ret s'" "units s' = units t'"
    by blast
  moreover have "tx_ok c (units s' n)"
    "UDR_out (units s' n) @ tx_contents c (units s' n) = UDR_out (units s n) @ tx_contents c (units s n) @ [x]"
    using putc_noblock_queue(1,2,4) [OF t(3) p] b t(5) s'(2) by simp_all
  ultimately show ?thesis using flush_drains [of c s' n v flags] opts by auto
qed

lemma putc_returns_witness:
  "\<exists>s' t. uart_putc (build_config 0x200 0x220) (TX_BUFFER_MASK (build_config 0x200 0x220))
      (udre_fires (build_config 0x200 0x220) 0 0x26 0) 0 65 board_reset = ret s'
    \<and> uart_flush (build_config 0x200 0x220) (udre_fires (build_config 0x200 0x220) 0 0x26 0) 0 s' = Some t
    \<and> UDR_out (units t 0) = [65]"
proof -
  have "\<not> SOFT_CTS (build_config 0x200 0x220)" "\<not> LF_TO_CRLF (build_config 0x200 0x220)" "\<not> RS485_MODE (build_config 0x200 0x220)"
    by (simp_all add: build_config_def)
  with putc_returns [of "build_config 0x200 0x220" board_reset 0 "0x26" 0 65] show ?thesis
    by (auto simp: units_board_reset tx_ok_reset)
qed

section \<open>The receive queue\<close>

lemma rx_arrives_effect:
  assumes "rx_ok c (units s n)"
  shows "\<exists>m. rx_arrives c n v flags x s = s\<lparr>SREG := SREG s OR 0x80, SRAM := m,
      units := RX_effect c n (on_unit n (\<lambda>u. u\<lparr>UDR_in := x, UCSRA := UCSRA u OR bv RXC_BIT\<rparr>) s)\<rparr>
    \<and> (\<forall>a. a \<notin> below 6 (SP s) \<longrightarrow> m a = SRAM s a)"
  using ISR_RX_frame [of c n flags v "on_unit n (\<lambda>u. u\<lparr>UDR_in := x, UCSRA := UCSRA u OR bv RXC_BIT\<rparr>) s"]
  by (auto simp: rx_arrives_def on_unit_def)

lemma rx_arrives_queue:
  assumes ok: "rx_ok c (units s n)" and u': "u' = units (rx_arrives c n v flags x s) n"
  shows "rx_ok c u'"
    "rx_contents c u' = rx_contents c (units s n) @ (if length (rx_contents c (units s n)) < RX_BUFFER_SIZE c - 1 then [x] else [])"
proof -
  let ?u = "units s n" and ?k = "buffer_bits (RX_BUFFER_SIZE c)"
  let ?h = "take_bit ?k (rx_Head ?u + 1)"
  have r: "ring_ok ?k (rx_Head ?u) (rx_Tail ?u)" and sz: "2 ^ ?k = RX_BUFFER_SIZE c" "size_ok (RX_BUFFER_SIZE c)"
    and mp: "\<not> MPCM_MODE c" using ok by (auto simp: rx_ok_def size_ok_def)
  have full: "?h = rx_Tail ?u \<longleftrightarrow> \<not> length (rx_contents c ?u) < RX_BUFFER_SIZE c - 1"
    using ring_full [OF r, of "rx_buffer ?u"] ring_count_less [of ?k "rx_Head ?u - rx_Tail ?u"]
    by (auto simp: rx_contents_def length_ring_items sz)
  have eff: "rx_Head u' = (if ?h = rx_Tail ?u then rx_Head ?u else ?h)" "rx_Tail u' = rx_Tail ?u"
    "rx_buffer u' = (if ?h = rx_Tail ?u then rx_buffer ?u else (rx_buffer ?u)(?h := x))"
    using rx_arrives_effect [OF ok, of v flags x] mp
    by (auto simp: u' RX_effect_def RX_body_units RX_accept_units RX_disable_units Let_def RX_full_def
        and_RX_MASK [OF sz(2)])
  show "rx_ok c u'" using ok eff ring_put(2) [OF r refl] by (auto simp: rx_ok_def)
  show "rx_contents c u' = rx_contents c ?u @ (if length (rx_contents c ?u) < RX_BUFFER_SIZE c - 1 then [x] else [])"
    using eff ring_put(1) [OF r refl, of "rx_buffer ?u" x] full by (auto simp: rx_contents_def)
qed

lemma rx_taken_sels [simp]:
  "rx_Head (units (rx_taken c n t s) n) = rx_Head (units s n)" "rx_Tail (units (rx_taken c n t s) n) = t"
  "rx_buffer (units (rx_taken c n t s) n) = rx_buffer (units s n)"
  by (simp_all add: rx_taken_def Let_def set_UCSRB_def)

lemma rx_take_queue:
  assumes ok: "rx_ok c (units s n)" and ne: "rx_contents c (units s n) = x # xs"
  shows "\<exists>s'. uart_getData c n s = (uint x, s') \<and> uart_LoadData c n s = (Some x, s') \<and> uart_peek c n s = x
    \<and> rx_ok c (units s' n) \<and> rx_contents c (units s' n) = xs"
proof -
  let ?u = "units s n" and ?k = "buffer_bits (RX_BUFFER_SIZE c)"
  let ?t = "take_bit ?k (rx_Tail ?u + 1)"
  have r: "ring_ok ?k (rx_Head ?u) (rx_Tail ?u)" and sz: "size_ok (RX_BUFFER_SIZE c)"
    using ok by (auto simp: rx_ok_def)
  have ht: "rx_Head ?u \<noteq> rx_Tail ?u" using ne ring_items_Nil [OF r, of "rx_buffer ?u"] by (auto simp: rx_contents_def)
  note t = ring_take(1) [OF r refl ht, of "rx_buffer ?u"] ring_take(2) [OF r refl ht]
  have x: "rx_buffer ?u ?t = x" "ring_items ?k (rx_buffer ?u) (rx_Head ?u) ?t = xs"
    using t(1) ne by (simp_all add: rx_contents_def)
  have "uart_getData c n s = (uint x, rx_taken c n ?t s)" "uart_LoadData c n s = (Some x, rx_taken c n ?t s)"
    "uart_peek c n s = x"
    using ht x by (auto simp: uart_getData_eq uart_getData_C_def uart_LoadData_def uart_peek_def load_rx_def Let_def
        and_RX_MASK [OF sz])
  then show ?thesis using ok t(2) x by (auto simp: rx_ok_def rx_contents_def)
qed

lemma rx_length_le: "rx_ok c u \<Longrightarrow> length (rx_contents c u) \<le> RX_BUFFER_SIZE c - 1"
  using ring_count_less [of "buffer_bits (RX_BUFFER_SIZE c)" "rx_Head u - rx_Tail u"]
  by (auto simp: rx_contents_def length_ring_items rx_ok_def size_ok_def)

lemma RX_full_iff:
  assumes "rx_ok c u"
  shows "RX_full c u \<longleftrightarrow> length (rx_contents c u) = RX_BUFFER_SIZE c - 1"
proof -
  have r: "ring_ok (buffer_bits (RX_BUFFER_SIZE c)) (rx_Head u) (rx_Tail u)"
    and sz: "size_ok (RX_BUFFER_SIZE c)" "2 ^ buffer_bits (RX_BUFFER_SIZE c) = RX_BUFFER_SIZE c"
    using assms by (auto simp: rx_ok_def size_ok_def)
  show ?thesis unfolding RX_full_def rx_contents_def and_RX_MASK [OF sz(1)]
    using ring_full [OF r, of "rx_buffer u"] sz(2) by auto
qed

interpretation rx: bounded_queue "\<lambda>s. rx_ok c (units s n)" "\<lambda>s. rx_contents c (units s n)"
  "\<lambda>s. RX_BUFFER_SIZE c - 1"
  "\<lambda>x s. ret (RX_full c (units s n), rx_arrives c n v flags x s)"
  "\<lambda>s. let (i, s') = uart_getData c n s in ret (word_of_int i, s')"
  for c n v flags
proof
  fix q :: "'z board_scheme" and x xs
  assume ok: "rx_ok c (units q n)"
  note full = RX_full_iff [OF ok]
  note put = rx_arrives_queue [OF ok refl, of v flags x]
  show "\<exists>q'. ret (RX_full c (units q n), rx_arrives c n v flags x q) = ret (False, q') \<and> rx_ok c (units q' n)
      \<and> rx_contents c (units q' n) = rx_contents c (units q n) @ [x] \<and> RX_BUFFER_SIZE c - 1 = RX_BUFFER_SIZE c - 1"
    if "length (rx_contents c (units q n)) < RX_BUFFER_SIZE c - 1"
    using put full that by simp
  show "\<exists>q'. ret (RX_full c (units q n), rx_arrives c n v flags x q) = ret (True, q') \<and> rx_ok c (units q' n)
      \<and> rx_contents c (units q' n) = rx_contents c (units q n) \<and> RX_BUFFER_SIZE c - 1 = RX_BUFFER_SIZE c - 1"
    if "length (rx_contents c (units q n)) = RX_BUFFER_SIZE c - 1"
    using put full that by simp
  show "\<exists>q'. (let (i, s') = uart_getData c n q in ret (word_of_int i, s')) = ret (x, q') \<and> rx_ok c (units q' n)
      \<and> rx_contents c (units q' n) = xs \<and> RX_BUFFER_SIZE c - 1 = RX_BUFFER_SIZE c - 1"
    if "rx_contents c (units q n) = x # xs"
    using rx_take_queue [OF ok that] by auto
  show "length (rx_contents c (units q n)) \<le> RX_BUFFER_SIZE c - 1" using ok by (rule rx_length_le)
qed

text \<open>
  C9: Serial input is a bounded queue: an arriving byte is appended unless the buffer holds its size less one, then it
  is dropped; the reader gets the oldest byte, all three reading functions agree on it, and the number
  of available bytes is exact. An empty buffer reads as -1 and is left alone.
\<close>

theorem receive_queue:
  assumes ok: "rx_ok c (units s n)"
  shows "let q = rx_contents c (units s n) in
    rx_ok c (units (rx_arrives c n v flags x s) n)
    \<and> rx_contents c (units (rx_arrives c n v flags x s) n) = (if length q < RX_BUFFER_SIZE c - 1 then q @ [x] else q)
    \<and> unat (uart_AvailableBytes c n s) = length q
    \<and> (case q of
         [] \<Rightarrow> uart_getData c n s = (-1, s) \<and> uart_LoadData c n s = (None, s)
       | y # ys \<Rightarrow> \<exists>s'. uart_getData c n s = (uint y, s') \<and> uart_LoadData c n s = (Some y, s') \<and> uart_peek c n s = y
           \<and> rx_ok c (units s' n) \<and> rx_contents c (units s' n) = ys)"
proof -
  have r: "ring_ok (buffer_bits (RX_BUFFER_SIZE c)) (rx_Head (units s n)) (rx_Tail (units s n))"
    and sz: "size_ok (RX_BUFFER_SIZE c)" using ok by (auto simp: rx_ok_def)
  let ?q = "rx_contents c (units s n)"
  have "unat (uart_AvailableBytes c n s) = length ?q"
    by (simp add: uart_AvailableBytes_def rx_contents_def length_ring_items and_RX_MASK [OF sz])
  moreover have "uart_getData c n s = (-1, s) \<and> uart_LoadData c n s = (None, s)" if "?q = []"
    using that ring_items_Nil [OF r, of "rx_buffer (units s n)"]
    by (simp add: rx_contents_def uart_getData_eq uart_getData_C_def uart_LoadData_def)
  ultimately show ?thesis
    using rx_arrives_queue [OF ok refl, of v flags x] rx_take_queue [OF ok]
    by (auto simp: Let_def split: list.split)
qed

lemma rx_ok_reset: "rx_ok (build_config tx rx) usart_reset" "rx_contents (build_config tx rx) usart_reset = []"
  by (simp_all add: rx_ok_def size_ok_def buffer_bits_def build_config_def usart_reset_def ring_ok_def upt_rec
      rx_contents_def ring_items_def)

lemma receive_queue_witness:
  "rx_contents (build_config 0x200 0x220) (units (rx_arrives (build_config 0x200 0x220) 0 0x24 0 66 board_reset) 0) = [66]
   \<and> uart_getData (build_config 0x200 0x220) 0 board_reset = (-1, board_reset)"
  using receive_queue [of "build_config 0x200 0x220" board_reset 0 "0x24" 0 66]
  by (simp add: units_board_reset rx_ok_reset build_sizes Let_def)

text \<open>
  The bytes that fit into an empty receive buffer come out in the order they arrived.
\<close>

lemma receive_first_in_first_out:
  assumes "rx_ok c (units s n)" "rx_contents c (units s n) = []" "length xs \<le> RX_BUFFER_SIZE c - 1"
  shows "\<exists>s'. obind (rx.put_list c n v flags xs s) (rx.take_list c n (length xs)) = ret (xs, s')
    \<and> rx_ok c (units s' n) \<and> rx_contents c (units s' n) = []"
  by (rule rx.fifo_order [OF assms])

lemma receive_first_in_first_out_witness:
  "\<exists>s'. obind (rx.put_list (build_config 0x200 0x220) 0 0x24 0 [72, 105] board_reset)
      (rx.take_list (build_config 0x200 0x220) 0 2) = ret ([72, 105], s')"
  using receive_first_in_first_out [of "build_config 0x200 0x220" board_reset 0 "[72, 105]" "0x24" 0]
  by (auto simp: units_board_reset rx_ok_reset build_sizes numeral_2_eq_2)

section \<open>Two tasks that print\<close>



section \<open>Counting, flow control and baud rate\<close>

lemma tx_count:
  assumes "tx_ok c (units s n)"
  shows "unat (uart_BytesToSend c n s) =
    (if tx_contents c (units s n) = [] then TX_BUFFER_SIZE c - 1 else length (tx_contents c (units s n)) - 1)"
proof -
  let ?u = "units s n" and ?k = "buffer_bits (TX_BUFFER_SIZE c)"
  have r: "ring_ok ?k (tx_Head ?u) (tx_Tail ?u)" and sz: "size_ok (TX_BUFFER_SIZE c)"
    and p: "2 ^ ?k = TX_BUFFER_SIZE c" using assms by (auto simp: tx_ok_def size_ok_def)
  have k: "?k \<le> 8" using r by (simp add: ring_ok_def)
  let ?d = "tx_Head ?u - tx_Tail ?u - 1"
  have len: "length (tx_contents c ?u) = unat (take_bit ?k (?d + 1))"
    by (simp add: tx_contents_def length_ring_items)
  have b: "unat (uart_BytesToSend c n s) = unat (take_bit ?k ?d)"
    by (simp add: uart_BytesToSend_def and_TX_MASK [OF sz])
  show ?thesis
  proof (cases "take_bit ?k (?d + 1) = 0")
    case True
    then have "Suc (unat (take_bit ?k ?d)) mod 2 ^ ?k = 0"
      using unat_take_bit_Suc [OF k, of ?d] by (simp only: unat_0)
    then have "unat (take_bit ?k ?d) = 2 ^ ?k - 1"
      using ring_count_less [of ?k ?d] by (simp add: mod_Suc split: if_splits)
    then show ?thesis using True len b p by simp
  next
    case False
    then show ?thesis using unat_take_bit_inc [OF k, of ?d] len b by (auto simp: unat_eq_zero)
  qed
qed

text \<open>
  \<open>uart_BytesToSend\<close> is off by one: it reports one byte less than are waiting, and for an empty buffer the
  capacity of the buffer.
\<close>

lemma BytesToSend_off_by_one:
  assumes "tx_ok c (units s n)"
  shows "unat (uart_BytesToSend c n s) =
    (if tx_contents c (units s n) = [] then TX_BUFFER_SIZE c - 1 else length (tx_contents c (units s n)) - 1)"
  by (rule tx_count [OF assms])

lemma BytesToSend_off_by_one_example:
  "unat (uart_BytesToSend (build_config 0x200 0x220) 0 board_reset) = 31"
  using BytesToSend_off_by_one [of "build_config 0x200 0x220" board_reset 0]
  by (simp add: units_board_reset tx_ok_reset build_sizes)

lemma framed_cts_body: "framed 1 {24} s (naked_cts_body c n s)"
proof -
  let ?s = "set_reg 24 (UCSRB (units s n) AND NOT (bv UDRIE_BIT)) (set_reg 24 (UCSRB (units s n)) s)"
  let ?b = "\<lambda>s. set_reg 25 (tx_Tail (units s n)) (set_reg 24 (tx_Head (units s n)) s)"
  let ?p = "with_pushed [25] ?b ?s"
  have "framed 0 {24, 25} s (?b s)" for s by (simp add: framed_intros)
  then have "framed 1 {24} t (with_pushed [25] ?b t)" for t by (rule framed_pushed) auto
  moreover have "framed 0 {24} s ?s" by (simp add: framed_intros)
  ultimately have p: "framed 1 {24} s ?p" by (blast intro: framed_trans)
  have "naked_cts_body c n s =
    (if bit (CTS_PIN (units s n)) (CTS_IONUM c) then on_unit n (\<lambda>u. u\<lparr>UCSRB := R ?s 24\<rparr>) ?s
     else if tx_Tail (units s n) = tx_Head (units s n) then ?p
     else let q = set_reg 24 (UCSRB (units s n) OR bv UDRIE_BIT) (set_reg 24 (UCSRB (units s n)) ?p)
          in on_unit n (\<lambda>u. u\<lparr>UCSRB := R q 24\<rparr>) q)"
    by (simp add: naked_cts_body_def with_pushed.simps Let_def split_beta pop_byte_def)
  then show ?thesis
    using p framed_mono [OF \<open>framed 0 {24} s ?s\<close>, of 1] by (simp add: Let_def framed_intros)
qed

lemma naked_cts_correct:
  "\<exists>m. naked_cts_isr_handler c n flags (irq_enter v s)
      = s\<lparr>SREG := SREG s OR 0x80, SRAM := m, units := units (cts_isr_handler c n s)\<rparr>
    \<and> (\<forall>a. a \<notin> below 5 (SP s) \<longrightarrow> m a = SRAM s a)"
proof -
  have eq: "naked_cts_isr_handler c n flags s = do_reti (with_sreg_saved flags (with_pushed [24] (naked_cts_body c n)) s)" for s
    by (simp add: naked_cts_isr_handler_def with_sreg_saved_def with_pushed.simps Let_def split_beta pop_byte_def set_reg_def)
  have units: "units (naked_cts_body c n s) = units (cts_isr_handler c n s)" for s
    by (simp add: naked_cts_body_def cts_isr_handler_def Let_def and_bv_iff [simplified] split_beta pop_byte_def)
  have units: "units (with_pushed [24] (naked_cts_body c n) s) = units (cts_isr_handler c n s)" for s
    by (rule units_with_pushed [OF units]) (simp add: cts_isr_handler_def Let_def)
  show ?thesis unfolding eq
    by (rule isr_frame [OF framed_pushed [OF framed_cts_body], where f = "\<lambda>s. units (cts_isr_handler c n s)"])
      (simp_all add: units, simp_all add: cts_isr_handler_def Let_def)
qed



lemma BAUD_CALC_nearest:
  assumes "0 < x" "8 * x \<le> F_CPU"
  shows "16 * x * (BAUD_CALC x + 1) \<le> F_CPU + 8 * x" "F_CPU < 16 * x * (BAUD_CALC x + 1) + 8 * x"
proof -
  let ?q = "(F_CPU + x * 8) div (16 * x)"
  have q: "16 * x * ?q \<le> F_CPU + x * 8" "F_CPU + x * 8 < 16 * x * ?q + 16 * x"
    using assms(1) times_div_less_eq_dividend [of "16 * x" "F_CPU + x * 8"]
      dividend_less_times_div [of "16 * x" "F_CPU + x * 8"] by simp_all
  have "1 \<le> ?q" using assms by (simp add: Suc_le_eq div_greater_zero_iff)
  then have "BAUD_CALC x + 1 = ?q" by (simp add: BAUD_CALC_def)
  then show "16 * x * (BAUD_CALC x + 1) \<le> F_CPU + 8 * x" "F_CPU < 16 * x * (BAUD_CALC x + 1) + 8 * x"
    using q by (simp_all only: mult.commute [of x 8])
qed

text \<open>
  The divisor for a baud rate is the nearest one. For the rate of this build it is 1 and the line runs at a
  million baud, 8.5 percent too fast.
\<close>

lemma baud_rate:
  assumes "0 < x" "8 * x \<le> F_CPU"
  shows "16 * x * (BAUD_CALC x + 1) \<le> F_CPU + 8 * x \<and> F_CPU < 16 * x * (BAUD_CALC x + 1) + 8 * x"
  using BAUD_CALC_nearest [OF assms] by simp

lemma baud_rate_witness:
  "16 * 921600 * (BAUD_CALC 921600 + 1) \<le> F_CPU + 8 * 921600
   \<and> BAUD_CALC 921600 = 0 \<and> F_CPU div (16 * (BAUD_CALC 921600 + 1)) = 1000000"
  using baud_rate [of 921600] by (simp add: BAUD_CALC_def F_CPU_def)

end
