(* ===== verification/Usart_Text.thy ===== *)
theory Usart_Text
  imports Usart_Queue
begin

text \<open>
  Text over the serial line: the string readers stay inside the caller's array, and the numbers the
  driver prints are read back. The word reader with a limit of one is the exception.
\<close>

section \<open>Printed numbers\<close>

lemma unat_digit_char:
  assumes "d < 10"
  shows "unat (digit_char d) = 48 + d"
proof -
  have "unat (of_nat (48 + d) :: u8) = 48 + d" unfolding unat_of_nat using assms by simp
  then show ?thesis using assms by (simp only: digit_char_def if_True)
qed

lemma foldl_digits:
  "foldl (\<lambda>a b. a * 10 + (uint b - 48)) (int a) (map digit_char ds) = int (foldl (\<lambda>a d. a * 10 + d) a ds)"
  if "\<forall>d\<in>set ds. d < 10" for a :: nat
  using that
proof (induction ds arbitrary: a)
  case (Cons d ds)
  have "uint (digit_char d) - 48 = int d"
    using unat_digit_char [of d] Cons.prems by (simp only: uint_nat) simp
  then have "int a * 10 + (uint (digit_char d) - 48) = int (a * 10 + d)" by simp
  then show ?case using Cons.IH [of "a * 10 + d"] Cons.prems by simp
qed simp

lemma digit_char_digit: "d < 10 \<Longrightarrow> ascii_digit (digit_char d)"
  by (simp add: ascii_digit_def word_le_nat_alt unat_digit_char)

lemma digit_not_space: "ascii_digit b \<Longrightarrow> \<not> ascii_space b \<and> b \<noteq> 45 \<and> b \<noteq> 43 \<and> 32 < b \<and> b \<noteq> 0 \<and> b \<noteq> 13 \<and> b \<noteq> 10"
  unfolding ascii_digit_def ascii_space_def by unat_arith

lemma takeWhile_digits:
  "\<forall>d\<in>set ds. d < 10 \<Longrightarrow> takeWhile ascii_digit (map digit_char ds @ [0]) = map digit_char ds"
  using digit_char_digit by (subst takeWhile_append2) (auto, simp_all add: ascii_digit_def)

lemma digits_value_of_ascii: "digits_value_of (unsigned_to_ascii 10 v) = int v"
proof -
  have d: "\<forall>d\<in>set (digits 10 v). d < 10" using digits_less [of 10] by simp
  show ?thesis
    using foldl_digits [OF d, of 0] digits_value [of 10 v] takeWhile_digits [OF d]
    by (simp add: digits_value_of_def unsigned_to_ascii_def)
qed

lemma ascii_to_int_unsigned: "ascii_to_int (unsigned_to_ascii 10 v) = int v"
proof -
  obtain d ds where ds: "digits 10 v = d # ds" using digits_not_Nil [of 10 v] by (cases "digits 10 v") auto
  then have "d < 10" using digits_less [of 10 d v] by simp
  then have n: "\<not> ascii_space (digit_char d) \<and> digit_char d \<noteq> 45 \<and> digit_char d \<noteq> 43"
    using digit_not_space digit_char_digit by blast
  show ?thesis
    using n digits_value_of_ascii [of v] by (simp add: ascii_to_int_def unsigned_to_ascii_def ds)
qed

lemma sint_nonneg_uint: "\<not> sint v < 0 \<Longrightarrow> sint v = int (unat v)" for v :: u16
proof -
  assume "\<not> sint v < 0"
  then have b: "\<not> bit (uint v) 15" by (simp add: sint_uint)
  have "take_bit (Suc 15) (uint v) = uint v" using uint_bounded [of v] by (intro take_bit_int_eq_self) simp_all
  then have "take_bit 15 (uint v) = uint v" using b by (simp only: take_bit_Suc_from_most) simp
  then show ?thesis using b by (simp add: sint_uint signed_take_bit_eq_if_positive)
qed

lemma ascii_to_int_itoa: "ascii_to_int (itoa v 10) = sint v"
proof (cases "sint v < 0")
  case True
  then show ?thesis
    using digits_value_of_ascii [of "nat (- sint v)"]
    by (simp add: itoa_def ascii_to_int_def ascii_space_def)
next
  case False
  then have "int (unat v) = sint v" by (rule sint_nonneg_uint [symmetric])
  moreover have "itoa v 10 = unsigned_to_ascii 10 (unat v)" using False by (simp add: itoa_def utoa_def)
  ultimately show ?thesis by (simp only: ascii_to_int_unsigned)
qed

section \<open>Bounds of the string functions\<close>

declare gets_loop.simps [simp del] getln_loop.simps [simp del]

lemma u8_pred: "limit \<noteq> 0 \<Longrightarrow> unat (limit - 1) = unat limit - 1" for limit :: u8
  by (metis unat_minus_one)

lemma u8_ge_2: "limit - 1 \<noteq> 0 \<Longrightarrow> limit \<noteq> 0 \<Longrightarrow> 2 \<le> unat limit" for limit :: u8
  by unat_arith

lemma getc_until_sat: "getc_until env P getc s = ret (b, t) \<Longrightarrow> P b"
proof -
  assume u: "getc_until env P getc s = ret (b, t)"
  have "case (Inr (b, t) :: fault + _) of Inl _ \<Rightarrow> True | Inr (b, _) \<Rightarrow> snd (fst (fst (((env, P), getc), s))) b"
    by (rule getc_until.raw_induct [of "\<lambda>x r. case r of Inl _ \<Rightarrow> True | Inr (b, _) \<Rightarrow> snd (fst (fst x)) b", OF _ u [unfolded ret_def]])
      (fastforce split: option.splits sum.splits if_splits prod.splits)
  then show "P b" by simp
qed

lemma gets_loop_length:
  assumes "gets_loop getc limit acc s = ret (str, s')" "limit \<noteq> 0"
  shows "length str \<le> length acc + unat limit \<and> str \<noteq> [] \<and> last str = 0"
  using assms
proof (induction getc limit acc s rule: gets_loop.induct)
  case (1 getc limit acc s)
  show ?case
  proof (cases "limit - 1 = 0")
    case True
    then show ?thesis using "1.prems" by (subst (asm) gets_loop.simps) auto
  next
    case False
    then obtain b t where b: "getc s = ret (b, t)"
      and r: "(if b = 0 then ret (acc @ [b, 0], t) else gets_loop getc (limit - 1) (acc @ [b]) t) = ret (str, s')"
      using "1.prems"(1) by (subst (asm) gets_loop.simps) (auto simp: obind_eq_ret)
    have l: "2 \<le> unat limit" using False "1.prems"(2) by (rule u8_ge_2)
    show ?thesis
    proof (cases "b = 0")
      case True
      then show ?thesis using r l by auto
    next
      case nz: False
      then show ?thesis
        using "1.IH" [OF False nz, of t] r False l "1.prems"(2) u8_pred [of limit] by auto
    qed
  qed
qed

lemma getln_loop_length:
  assumes "getln_loop c env getc stop limit acc s = ret (str, s')" "limit \<noteq> 0"
  shows "length str \<le> length acc + unat limit \<and> str \<noteq> [] \<and> last str = 0 \<and> (0 \<notin> set acc \<longrightarrow> 0 \<notin> set (butlast str))"
  using assms
proof (induction c env getc stop limit acc s rule: getln_loop.induct)
  case (1 c env getc stop limit acc s)
  show ?case
  proof (cases "limit - 1 = 0")
    case True
    then show ?thesis using "1.prems" by (subst (asm) getln_loop.simps) auto
  next
    case False
    then obtain b t where b: "getc_until env (\<lambda>b. b \<noteq> 0) getc s = ret (b, t)"
      and r: "(if b = end_of_line c then obind (swallow_lf c env getc t) (\<lambda>s. ret (acc @ [0], s))
        else if stop b then ret (acc @ [0], t) else getln_loop c env getc stop (limit - 1) (acc @ [b]) t) = ret (str, s')"
      using "1.prems"(1) by (subst (asm) getln_loop.simps) (auto simp: obind_eq_ret)
    have nz: "b \<noteq> 0" using getc_until_sat [OF b] .
    have l: "2 \<le> unat limit" using False "1.prems"(2) by (rule u8_ge_2)
    show ?thesis
    proof (cases "b = end_of_line c \<or> stop b")
      case True
      then show ?thesis using r l by (auto simp: obind_eq_ret split: if_splits)
    next
      case nstop: False
      then show ?thesis
        using "1.IH" [OF False, of b t] r False l nz "1.prems"(2) u8_pred [of limit] by auto
    qed
  qed
qed

lemma getln_loop_longer: "getln_loop c env getc stop limit acc s = ret (str, s') \<Longrightarrow> length acc < length str"
proof (induction c env getc stop limit acc s rule: getln_loop.induct)
  case (1 c env getc stop limit acc s)
  show ?case
  proof (cases "limit - 1 = 0")
    case True
    then show ?thesis using "1.prems" by (subst (asm) getln_loop.simps) auto
  next
    case False
    then show ?thesis
      using "1.prems" "1.IH" [OF False]
      by (subst (asm) getln_loop.simps) (auto simp: obind_eq_ret split: if_splits dest: Suc_lessD)
  qed
qed

lemma word_reader_overflows:
  assumes "uart_getlnToFirstWhiteSpace c env getc 1 s = ret (str, s')"
  shows "1 < length str"
  using assms getln_loop_longer by (fastforce simp: uart_getlnToFirstWhiteSpace_def obind_eq_ret)

text \<open>
  C37: The string readers respect the size of the caller's array: with a limit of at least one (two for the word
  reader) they store at most that many characters, the last of them the only NUL of a line. The word reader with a limit of
  one always writes outside an array of one character.
\<close>

theorem string_input_bounds:
  assumes "limit \<noteq> 0"
  shows "(uart_gets getc limit s = ret (str, s') \<longrightarrow> length str \<le> unat limit \<and> str \<noteq> [] \<and> last str = 0)
    \<and> (uart_getln c env getc limit s = ret (str, s') \<longrightarrow>
         length str \<le> unat limit \<and> str \<noteq> [] \<and> last str = 0 \<and> 0 \<notin> set (butlast str))
    \<and> (uart_getlnToFirstWhiteSpace c env getc limit s = ret (str, s') \<and> limit \<noteq> 1 \<longrightarrow>
         length str \<le> unat limit \<and> str \<noteq> [] \<and> last str = 0 \<and> 0 \<notin> set (butlast str))
    \<and> (uart_getlnToFirstWhiteSpace c env getc 1 s = ret (str, s') \<longrightarrow> 1 < length str)"
proof (intro conjI impI)
  show "1 < length str" if "uart_getlnToFirstWhiteSpace c env getc 1 s = ret (str, s')" using that by (rule word_reader_overflows)
next
  assume "uart_getlnToFirstWhiteSpace c env getc limit s = ret (str, s') \<and> limit \<noteq> 1"
  then obtain b t where b: "32 < b" "getln_loop c env getc (\<lambda>b. b \<le> 32) (limit - 1) [b] t = ret (str, s')"
    "limit - 1 \<noteq> 0"
    using getc_until_sat by (fastforce simp: uart_getlnToFirstWhiteSpace_def obind_eq_ret)
  have "b \<noteq> 0" using b(1) by auto
  moreover have "unat (limit - 1) = unat limit - 1" "unat limit \<noteq> 0" using u8_pred assms by (auto simp: unat_eq_zero)
  ultimately show "length str \<le> unat limit" "str \<noteq> []" "last str = 0" "0 \<notin> set (butlast str)"
    using getln_loop_length [OF b(2,3)] by auto
next
  assume "uart_gets getc limit s = ret (str, s')"
  then show "length str \<le> unat limit" "str \<noteq> []" "last str = 0"
    using gets_loop_length [of getc limit "[]" s str s'] assms by (simp_all add: uart_gets_def)
next
  assume "uart_getln c env getc limit s = ret (str, s')"
  then show "length str \<le> unat limit" "str \<noteq> []" "last str = 0" "0 \<notin> set (butlast str)"
    using getln_loop_length [of c env getc _ limit "[]" s str s'] assms by (simp_all add: uart_getln_def)
qed

section \<open>Reading back a printed number\<close>

text \<open>\<open>getc\<close> yields the bytes one after the other.\<close>

fun delivers :: "'z getc \<Rightarrow> u8 list \<Rightarrow> 'z board_scheme \<Rightarrow> 'z board_scheme \<Rightarrow> bool" where
  "delivers getc [] s s' \<longleftrightarrow> s' = s"
| "delivers getc (b # bs) s s' \<longleftrightarrow> (\<exists>t. getc s = ret (b, t) \<and> delivers getc bs t s')"

lemma delivers_append: "delivers getc (bs @ cs) s s' \<longleftrightarrow> (\<exists>t. delivers getc bs s t \<and> delivers getc cs t s')"
  by (induction bs arbitrary: s) auto

lemma getc_until_first: "getc s = ret (b, t) \<Longrightarrow> P b \<Longrightarrow> getc_until env P getc s = ret (b, t)"
  by (subst getc_until.simps) (simp add: ret_def)

lemma word_chars: "32 < b \<Longrightarrow> b \<noteq> 0 \<and> b \<noteq> end_of_line c \<and> \<not> b \<le> 32" for b :: u8
  by (auto simp: end_of_line_def)

lemma getln_loop_word:
  assumes "delivers getc bs s t" "\<forall>b\<in>set bs. 32 < b" "getc t = ret (32, t')" "limit \<noteq> 0" "length bs \<le> unat limit - 1"
  shows "\<exists>s'. getln_loop c env getc (\<lambda>b. b \<le> 32) limit acc s = ret (acc @ bs @ [0], s')"
  using assms
proof (induction bs arbitrary: s limit acc)
  case Nil
  have "\<exists>s'. getln_loop c env getc (\<lambda>b. b \<le> 32) limit acc t = ret (acc @ [0], s')"
    using getc_until_first [of getc t 32 t' "\<lambda>b. b \<noteq> 0" env] Nil.prems(3)
    by (subst getln_loop.simps) (simp add: end_of_line_def)
  then show ?case using Nil.prems(1) by simp
next
  case (Cons b bs)
  obtain u where u: "getc s = ret (b, u)" "delivers getc bs u t" using Cons.prems(1) by auto
  have l: "limit - 1 \<noteq> 0" using Cons.prems(4,5) u8_pred [of limit] by auto
  have "\<exists>s'. getln_loop c env getc (\<lambda>b. b \<le> 32) (limit - 1) (acc @ [b]) u = ret ((acc @ [b]) @ bs @ [0], s')"
    using Cons.prems(2,4,5) u8_pred [of limit]
    by (intro Cons.IH [OF u(2) _ Cons.prems(3) l]) auto
  then show ?case
    using getc_until_first [of getc s b u "\<lambda>b. b \<noteq> 0" env] u(1) word_chars [of b c] Cons.prems(2) l
    by (subst getln_loop.simps) simp
qed

lemma itoa_chars:
  obtains b bs where "itoa v 10 = b # bs @ [0]" "\<forall>x\<in>set (b # bs). 32 < x" "length bs \<le> 5"
proof -
  have "\<exists>cs. unsigned_to_ascii 10 w = cs @ [0] \<and> (\<forall>x\<in>set cs. 32 < x) \<and> cs \<noteq> []" for w
    using digits_less [of 10 _ w] digit_not_space digit_char_digit digits_not_Nil [of 10 w]
    by (auto simp: unsigned_to_ascii_def intro!: exI [of _ "map digit_char (digits 10 w)"])
  then obtain cs where cs: "\<And>w. unsigned_to_ascii 10 w = cs w @ [0] \<and> (\<forall>x\<in>set (cs w). 32 < x) \<and> cs w \<noteq> []"
    by metis
  then have "\<exists>cs. itoa v 10 = cs @ [0] \<and> (\<forall>x\<in>set cs. 32 < x) \<and> cs \<noteq> []"
    by (cases "sint v < 0")
      (auto simp: itoa_def utoa_def cs intro!: exI [of _ "cs (unat v)"] exI [of _ "45 # cs (nat (- sint v))"])
  then obtain b bs where "itoa v 10 = b # bs @ [0]" "\<forall>x\<in>set (b # bs). 32 < x"
    by (metis append_Cons neq_Nil_conv)
  with itoa_length(2) [of v] that show ?thesis by auto
qed


text \<open>A unit that has received the number 42 and a space, and a line end of two characters.\<close>

definition received :: "u8 list \<Rightarrow> board" where
  "received bs = on_unit 0 (\<lambda>u. u\<lparr>rx_Head := of_nat (length bs), rx_buffer := \<lambda>i. (0 # bs) ! unat i\<rparr>) board_reset"

lemma build_getc:
  "uart_getc (build_config tx rx) putc n s =
     (let u = units s n; t = (rx_Tail u + 1) AND 31 in
      if rx_Tail u = rx_Head u then ret (0, s) else ret (rx_buffer u t, on_unit n (\<lambda>u. u\<lparr>rx_Tail := t\<rparr>) s))"
  by (simp add: uart_getc_eq uart_getc_C_def getc_echo_def rx_taken_def RX_BUFFER_MASK_def load_rx_def Let_def)
    (simp add: build_config_def)


lemma word_reader_overflows_example:
  "\<exists>str s'. uart_getlnToFirstWhiteSpace (build_config 0x200 0x220) (\<lambda>s. s)
     (uart_getc (build_config 0x200 0x220) (\<lambda>_. ret) 0) 1 (received [52, 32]) = ret (str, s') \<and> 1 < length str"
proof -
  let ?g = "uart_getc (build_config 0x200 0x220) (\<lambda>_. ret) 0 :: unit getc"
  obtain u t where d: "?g (received [52, 32]) = ret (52, u)" "?g u = ret (32, t)"
    by (simp add: build_getc received_def Let_def units_board_reset usart_reset_def)
  have "\<exists>str s'. uart_getlnToFirstWhiteSpace (build_config 0x200 0x220) (\<lambda>s. s) ?g 1 (received [52, 32]) = ret (str, s')"
    using getc_until_first [of ?g _ 52 u "\<lambda>b. b > 32" "\<lambda>s. s"] d(1)
      getln_loop_word [of ?g "[]" u u t 0 "build_config 0x200 0x220" "\<lambda>s. s" "[52]"]
      getc_until_first [of ?g u 32 t "\<lambda>b. b \<noteq> 0" "\<lambda>s. s"] d(2)
    by (simp add: uart_getlnToFirstWhiteSpace_def) (subst getln_loop.simps, simp add: end_of_line_def)
  then show ?thesis using word_reader_overflows by blast
qed

lemma string_input_bounds_witness:
  "\<exists>str s'. uart_gets (uart_getc (build_config 0x200 0x220) (\<lambda>_. ret) 0) 3 (received [72, 105, 13, 10]) = ret (str, s')
     \<and> str = [72, 105, 0] \<and> length str \<le> unat (3 :: u8) \<and> last str = 0"
proof -
  let ?g = "uart_getc (build_config 0x200 0x220) (\<lambda>_. ret) 0 :: unit getc"
  obtain u t where d: "?g (received [72, 105, 13, 10]) = ret (72, u)" "?g u = ret (105, t)"
    by (simp add: build_getc received_def Let_def units_board_reset usart_reset_def)
  have "uart_gets ?g 3 (received [72, 105, 13, 10]) = ret ([72, 105, 0], t)"
    by (simp add: uart_gets_def gets_loop.simps [of _ 3] gets_loop.simps [of _ 2] gets_loop.simps [of _ 1] d)
  then show ?thesis using string_input_bounds [of 3] by fastforce
qed

end
