(* ===== verification/Usart_Instances.thy ===== *)
theory Usart_Instances
  imports Usart_Text
begin

text \<open>
  The four serial units of the driver, \<open>uart0\<close> to \<open>uart3\<close>, as the source writes them out: each function calls the
  functions of its own unit. The ATmega328P has only the first; the others are compiled for larger parts of the
  family. The one difference in behaviour is in \<open>uart3_putc\<close>: its fast insertion masks the index with the
  mask of unit 2, so it takes the options of that unit (\<open>c2\<close>) as well.
\<close>

section \<open>Unit 0\<close>

definition uart0_init :: "usart_config \<Rightarrow> u16 \<Rightarrow> 'z board_scheme \<Rightarrow> 'z board_scheme" where
  "uart0_init c ubrr_value = uart_init c 0 ubrr_value"

definition uart0_set_FrameFormat :: "u8 \<Rightarrow> 'z board_scheme \<Rightarrow> 'z board_scheme" where
  "uart0_set_FrameFormat UCSRC_reg = uart_set_FrameFormat 0 UCSRC_reg"

definition uart0_set_U2X :: "'z board_scheme \<Rightarrow> 'z board_scheme" where
  "uart0_set_U2X = uart_set_U2X 0"

definition uart0_mpcm_slave_return_idle :: "'z board_scheme \<Rightarrow> 'z board_scheme" where
  "uart0_mpcm_slave_return_idle = uart_mpcm_slave_return_idle 0"

definition uart0_reinit :: "usart_config \<Rightarrow> u16 \<Rightarrow> 'z board_scheme \<Rightarrow> 'z board_scheme" where
  "uart0_reinit c ubrr_value = uart_reinit c 0 ubrr_value"

definition uart0_putc :: "usart_config \<Rightarrow> 'z env \<Rightarrow> 'z putc" where
  "uart0_putc c env = uart_putc c (TX_BUFFER_MASK c) env 0"

definition uart0_putc_noblock :: "usart_config \<Rightarrow> u8 \<Rightarrow> 'z board_scheme \<Rightarrow> bool \<times> 'z board_scheme" where
  "uart0_putc_noblock c data = uart_putc_noblock c 0 data"

definition uart0_putstr :: "usart_config \<Rightarrow> 'z env \<Rightarrow> u8 list \<Rightarrow> 'z board_scheme \<Rightarrow> 'z board_scheme outcome" where
  "uart0_putstr c env = uart_putstr (uart0_putc c env)"

definition uart0_putstrl :: "usart_config \<Rightarrow> 'z env \<Rightarrow> ptr \<Rightarrow> u8 list \<Rightarrow> u8 \<Rightarrow> 'z board_scheme \<Rightarrow> 'z board_scheme outcome" where
  "uart0_putstrl c env = uart_putstrl c (uart0_putc c env)"

definition uart0_puts_p :: "usart_config \<Rightarrow> 'z env \<Rightarrow> u8 list \<Rightarrow> 'z board_scheme \<Rightarrow> 'z board_scheme outcome" where
  "uart0_puts_p c env = uart_puts_p (uart0_putc c env)"

definition uart0_putint :: "usart_config \<Rightarrow> 'z env \<Rightarrow> u16 \<Rightarrow> 'z board_scheme \<Rightarrow> 'z board_scheme outcome" where
  "uart0_putint c env = uart_putint (uart0_putc c env)"

definition uart0_putintr :: "usart_config \<Rightarrow> 'z env \<Rightarrow> u16 \<Rightarrow> u8 \<Rightarrow> 'z board_scheme \<Rightarrow> 'z board_scheme outcome" where
  "uart0_putintr c env = uart_putintr (uart0_putc c env)"

definition uart0_putuint :: "usart_config \<Rightarrow> 'z env \<Rightarrow> u16 \<Rightarrow> 'z board_scheme \<Rightarrow> 'z board_scheme outcome" where
  "uart0_putuint c env = uart_putuint (uart0_putc c env)"

definition uart0_putuintr :: "usart_config \<Rightarrow> 'z env \<Rightarrow> u16 \<Rightarrow> u8 \<Rightarrow> 'z board_scheme \<Rightarrow> 'z board_scheme outcome" where
  "uart0_putuintr c env = uart_putuintr (uart0_putc c env)"

definition uart0_putlong :: "usart_config \<Rightarrow> 'z env \<Rightarrow> u32 \<Rightarrow> 'z board_scheme \<Rightarrow> 'z board_scheme outcome" where
  "uart0_putlong c env = uart_putlong (uart0_putc c env)"

definition uart0_putlongr :: "usart_config \<Rightarrow> 'z env \<Rightarrow> u32 \<Rightarrow> u8 \<Rightarrow> 'z board_scheme \<Rightarrow> 'z board_scheme outcome" where
  "uart0_putlongr c env = uart_putlongr (uart0_putc c env)"

definition uart0_putulong :: "usart_config \<Rightarrow> 'z env \<Rightarrow> u32 \<Rightarrow> 'z board_scheme \<Rightarrow> 'z board_scheme outcome" where
  "uart0_putulong c env = uart_putulong (uart0_putc c env)"

definition uart0_putulongr :: "usart_config \<Rightarrow> 'z env \<Rightarrow> u32 \<Rightarrow> u8 \<Rightarrow> 'z board_scheme \<Rightarrow> 'z board_scheme outcome" where
  "uart0_putulongr c env = uart_putulongr (uart0_putc c env)"

definition uart0_puthex :: "usart_config \<Rightarrow> 'z env \<Rightarrow> u8 \<Rightarrow> 'z board_scheme \<Rightarrow> 'z board_scheme outcome" where
  "uart0_puthex c env = uart_puthex c (uart0_putc c env)"

definition uart0_putfloat :: "('f \<Rightarrow> nat \<Rightarrow> nat \<Rightarrow> u8 list) \<Rightarrow> usart_config \<Rightarrow> 'z env \<Rightarrow> 'f \<Rightarrow> 'z board_scheme \<Rightarrow> 'z board_scheme outcome" where
  "uart0_putfloat dtostrf c env = uart_putfloat dtostrf (uart0_putc c env)"

definition uart0_fputfloat :: "('f \<Rightarrow> nat \<Rightarrow> nat \<Rightarrow> u8 list) \<Rightarrow> usart_config \<Rightarrow> 'z env \<Rightarrow> 'f \<Rightarrow> u8 \<Rightarrow> 'z board_scheme \<Rightarrow> 'z board_scheme outcome" where
  "uart0_fputfloat dtostrf c env = uart_fputfloat dtostrf (uart0_putc c env)"

definition uart0_flush :: "usart_config \<Rightarrow> 'z env \<Rightarrow> 'z board_scheme \<Rightarrow> 'z board_scheme option" where
  "uart0_flush c env = uart_flush c env 0"

definition uart0_BytesToSend :: "usart_config \<Rightarrow> 'z board_scheme \<Rightarrow> u8" where
  "uart0_BytesToSend c = uart_BytesToSend c 0"

definition uart0_mpcm_transmit_addres_Frame :: "usart_config \<Rightarrow> 'z env \<Rightarrow> u8 \<Rightarrow> 'z board_scheme \<Rightarrow> 'z board_scheme outcome" where
  "uart0_mpcm_transmit_addres_Frame c env = uart_mpcm_transmit_addres_Frame env (uart0_putc c env) 0"

definition uart0_getc :: "usart_config \<Rightarrow> 'z env \<Rightarrow> 'z getc" where
  "uart0_getc c env = uart_getc c (uart0_putc c env) 0"

definition uart0_gets :: "usart_config \<Rightarrow> 'z env \<Rightarrow> u8 \<Rightarrow> 'z board_scheme \<Rightarrow> (u8 list \<times> 'z board_scheme) outcome" where
  "uart0_gets c env = uart_gets (uart0_getc c env)"

definition uart0_getln :: "usart_config \<Rightarrow> 'z env \<Rightarrow> u8 \<Rightarrow> 'z board_scheme \<Rightarrow> (u8 list \<times> 'z board_scheme) outcome" where
  "uart0_getln c env = uart_getln c env (uart0_getc c env)"

definition uart0_getlnToFirstWhiteSpace :: "usart_config \<Rightarrow> 'z env \<Rightarrow> u8 \<Rightarrow> 'z board_scheme \<Rightarrow> (u8 list \<times> 'z board_scheme) outcome" where
  "uart0_getlnToFirstWhiteSpace c env = uart_getlnToFirstWhiteSpace c env (uart0_getc c env)"

definition uart0_skipWhiteSpaces :: "usart_config \<Rightarrow> 'z env \<Rightarrow> 'z getc" where
  "uart0_skipWhiteSpaces c env = uart_skipWhiteSpaces env (uart0_getc c env)"

definition uart0_getint :: "usart_config \<Rightarrow> 'z env \<Rightarrow> 'z board_scheme \<Rightarrow> (u16 \<times> 'z board_scheme) outcome" where
  "uart0_getint c env = uart_getint c env (uart0_getc c env)"

definition uart0_getlong :: "usart_config \<Rightarrow> 'z env \<Rightarrow> 'z board_scheme \<Rightarrow> (u32 \<times> 'z board_scheme) outcome" where
  "uart0_getlong c env = uart_getlong c env (uart0_getc c env)"

definition uart0_getfloat :: "(u8 list \<Rightarrow> 'f) \<Rightarrow> usart_config \<Rightarrow> 'z env \<Rightarrow> 'z board_scheme \<Rightarrow> ('f \<times> 'z board_scheme) outcome" where
  "uart0_getfloat atof c env = uart_getfloat atof c env (uart0_getc c env)"

definition uart0_getData :: "usart_config \<Rightarrow> 'z board_scheme \<Rightarrow> int \<times> 'z board_scheme" where
  "uart0_getData c = uart_getData c 0"

definition uart0_LoadData :: "usart_config \<Rightarrow> 'z board_scheme \<Rightarrow> u8 option \<times> 'z board_scheme" where
  "uart0_LoadData c = uart_LoadData c 0"

definition uart0_AvailableBytes :: "usart_config \<Rightarrow> 'z board_scheme \<Rightarrow> u8" where
  "uart0_AvailableBytes c = uart_AvailableBytes c 0"

definition uart0_peek :: "usart_config \<Rightarrow> 'z board_scheme \<Rightarrow> u8" where
  "uart0_peek c = uart_peek c 0"

definition cts0_isr_handler :: "usart_config \<Rightarrow> 'z board_scheme \<Rightarrow> 'z board_scheme" where
  "cts0_isr_handler c = cts_isr_handler c 0"

definition naked_cts0_isr_handler :: "usart_config \<Rightarrow> u8 \<Rightarrow> 'z board_scheme \<Rightarrow> 'z board_scheme" where
  "naked_cts0_isr_handler c flags = naked_cts_isr_handler c 0 flags"

definition ISR_UDRE0 :: "usart_config \<Rightarrow> u8 \<Rightarrow> 'z board_scheme \<Rightarrow> 'z board_scheme" where
  "ISR_UDRE0 c flags = ISR_UDRE c 0 flags"

definition ISR_TXC0 :: "usart_config \<Rightarrow> 'z board_scheme \<Rightarrow> 'z board_scheme" where
  "ISR_TXC0 c = ISR_TXC c 0"

definition ISR_RX0 :: "usart_config \<Rightarrow> u8 \<Rightarrow> 'z board_scheme \<Rightarrow> 'z board_scheme" where
  "ISR_RX0 c flags = ISR_RX c 0 flags"

section \<open>Unit 1\<close>

definition uart1_init :: "usart_config \<Rightarrow> u16 \<Rightarrow> 'z board_scheme \<Rightarrow> 'z board_scheme" where
  "uart1_init c ubrr_value = uart_init c 1 ubrr_value"

definition uart1_set_FrameFormat :: "u8 \<Rightarrow> 'z board_scheme \<Rightarrow> 'z board_scheme" where
  "uart1_set_FrameFormat UCSRC_reg = uart_set_FrameFormat 1 UCSRC_reg"

definition uart1_set_U2X :: "'z board_scheme \<Rightarrow> 'z board_scheme" where
  "uart1_set_U2X = uart_set_U2X 1"

definition uart1_mpcm_slave_return_idle :: "'z board_scheme \<Rightarrow> 'z board_scheme" where
  "uart1_mpcm_slave_return_idle = uart_mpcm_slave_return_idle 1"

definition uart1_reinit :: "usart_config \<Rightarrow> u16 \<Rightarrow> 'z board_scheme \<Rightarrow> 'z board_scheme" where
  "uart1_reinit c ubrr_value = uart_reinit c 1 ubrr_value"

definition uart1_putc :: "usart_config \<Rightarrow> 'z env \<Rightarrow> 'z putc" where
  "uart1_putc c env = uart_putc c (TX_BUFFER_MASK c) env 1"

definition uart1_putc_noblock :: "usart_config \<Rightarrow> u8 \<Rightarrow> 'z board_scheme \<Rightarrow> bool \<times> 'z board_scheme" where
  "uart1_putc_noblock c data = uart_putc_noblock c 1 data"

definition uart1_putstr :: "usart_config \<Rightarrow> 'z env \<Rightarrow> u8 list \<Rightarrow> 'z board_scheme \<Rightarrow> 'z board_scheme outcome" where
  "uart1_putstr c env = uart_putstr (uart1_putc c env)"

definition uart1_putstrl :: "usart_config \<Rightarrow> 'z env \<Rightarrow> ptr \<Rightarrow> u8 list \<Rightarrow> u8 \<Rightarrow> 'z board_scheme \<Rightarrow> 'z board_scheme outcome" where
  "uart1_putstrl c env = uart_putstrl c (uart1_putc c env)"

definition uart1_puts_p :: "usart_config \<Rightarrow> 'z env \<Rightarrow> u8 list \<Rightarrow> 'z board_scheme \<Rightarrow> 'z board_scheme outcome" where
  "uart1_puts_p c env = uart_puts_p (uart1_putc c env)"

definition uart1_putint :: "usart_config \<Rightarrow> 'z env \<Rightarrow> u16 \<Rightarrow> 'z board_scheme \<Rightarrow> 'z board_scheme outcome" where
  "uart1_putint c env = uart_putint (uart1_putc c env)"

definition uart1_putintr :: "usart_config \<Rightarrow> 'z env \<Rightarrow> u16 \<Rightarrow> u8 \<Rightarrow> 'z board_scheme \<Rightarrow> 'z board_scheme outcome" where
  "uart1_putintr c env = uart_putintr (uart1_putc c env)"

definition uart1_putuint :: "usart_config \<Rightarrow> 'z env \<Rightarrow> u16 \<Rightarrow> 'z board_scheme \<Rightarrow> 'z board_scheme outcome" where
  "uart1_putuint c env = uart_putuint (uart1_putc c env)"

definition uart1_putuintr :: "usart_config \<Rightarrow> 'z env \<Rightarrow> u16 \<Rightarrow> u8 \<Rightarrow> 'z board_scheme \<Rightarrow> 'z board_scheme outcome" where
  "uart1_putuintr c env = uart_putuintr (uart1_putc c env)"

definition uart1_putlong :: "usart_config \<Rightarrow> 'z env \<Rightarrow> u32 \<Rightarrow> 'z board_scheme \<Rightarrow> 'z board_scheme outcome" where
  "uart1_putlong c env = uart_putlong (uart1_putc c env)"

definition uart1_putlongr :: "usart_config \<Rightarrow> 'z env \<Rightarrow> u32 \<Rightarrow> u8 \<Rightarrow> 'z board_scheme \<Rightarrow> 'z board_scheme outcome" where
  "uart1_putlongr c env = uart_putlongr (uart1_putc c env)"

definition uart1_putulong :: "usart_config \<Rightarrow> 'z env \<Rightarrow> u32 \<Rightarrow> 'z board_scheme \<Rightarrow> 'z board_scheme outcome" where
  "uart1_putulong c env = uart_putulong (uart1_putc c env)"

definition uart1_putulongr :: "usart_config \<Rightarrow> 'z env \<Rightarrow> u32 \<Rightarrow> u8 \<Rightarrow> 'z board_scheme \<Rightarrow> 'z board_scheme outcome" where
  "uart1_putulongr c env = uart_putulongr (uart1_putc c env)"

definition uart1_puthex :: "usart_config \<Rightarrow> 'z env \<Rightarrow> u8 \<Rightarrow> 'z board_scheme \<Rightarrow> 'z board_scheme outcome" where
  "uart1_puthex c env = uart_puthex c (uart1_putc c env)"

definition uart1_putfloat :: "('f \<Rightarrow> nat \<Rightarrow> nat \<Rightarrow> u8 list) \<Rightarrow> usart_config \<Rightarrow> 'z env \<Rightarrow> 'f \<Rightarrow> 'z board_scheme \<Rightarrow> 'z board_scheme outcome" where
  "uart1_putfloat dtostrf c env = uart_putfloat dtostrf (uart1_putc c env)"

definition uart1_fputfloat :: "('f \<Rightarrow> nat \<Rightarrow> nat \<Rightarrow> u8 list) \<Rightarrow> usart_config \<Rightarrow> 'z env \<Rightarrow> 'f \<Rightarrow> u8 \<Rightarrow> 'z board_scheme \<Rightarrow> 'z board_scheme outcome" where
  "uart1_fputfloat dtostrf c env = uart_fputfloat dtostrf (uart1_putc c env)"

definition uart1_flush :: "usart_config \<Rightarrow> 'z env \<Rightarrow> 'z board_scheme \<Rightarrow> 'z board_scheme option" where
  "uart1_flush c env = uart_flush c env 1"

definition uart1_BytesToSend :: "usart_config \<Rightarrow> 'z board_scheme \<Rightarrow> u8" where
  "uart1_BytesToSend c = uart_BytesToSend c 1"

definition uart1_mpcm_transmit_addres_Frame :: "usart_config \<Rightarrow> 'z env \<Rightarrow> u8 \<Rightarrow> 'z board_scheme \<Rightarrow> 'z board_scheme outcome" where
  "uart1_mpcm_transmit_addres_Frame c env = uart_mpcm_transmit_addres_Frame env (uart1_putc c env) 1"

definition uart1_getc :: "usart_config \<Rightarrow> 'z env \<Rightarrow> 'z getc" where
  "uart1_getc c env = uart_getc c (uart1_putc c env) 1"

definition uart1_gets :: "usart_config \<Rightarrow> 'z env \<Rightarrow> u8 \<Rightarrow> 'z board_scheme \<Rightarrow> (u8 list \<times> 'z board_scheme) outcome" where
  "uart1_gets c env = uart_gets (uart1_getc c env)"

definition uart1_getln :: "usart_config \<Rightarrow> 'z env \<Rightarrow> u8 \<Rightarrow> 'z board_scheme \<Rightarrow> (u8 list \<times> 'z board_scheme) outcome" where
  "uart1_getln c env = uart_getln c env (uart1_getc c env)"

definition uart1_getlnToFirstWhiteSpace :: "usart_config \<Rightarrow> 'z env \<Rightarrow> u8 \<Rightarrow> 'z board_scheme \<Rightarrow> (u8 list \<times> 'z board_scheme) outcome" where
  "uart1_getlnToFirstWhiteSpace c env = uart_getlnToFirstWhiteSpace c env (uart1_getc c env)"

definition uart1_skipWhiteSpaces :: "usart_config \<Rightarrow> 'z env \<Rightarrow> 'z getc" where
  "uart1_skipWhiteSpaces c env = uart_skipWhiteSpaces env (uart1_getc c env)"

definition uart1_getint :: "usart_config \<Rightarrow> 'z env \<Rightarrow> 'z board_scheme \<Rightarrow> (u16 \<times> 'z board_scheme) outcome" where
  "uart1_getint c env = uart_getint c env (uart1_getc c env)"

definition uart1_getlong :: "usart_config \<Rightarrow> 'z env \<Rightarrow> 'z board_scheme \<Rightarrow> (u32 \<times> 'z board_scheme) outcome" where
  "uart1_getlong c env = uart_getlong c env (uart1_getc c env)"

definition uart1_getfloat :: "(u8 list \<Rightarrow> 'f) \<Rightarrow> usart_config \<Rightarrow> 'z env \<Rightarrow> 'z board_scheme \<Rightarrow> ('f \<times> 'z board_scheme) outcome" where
  "uart1_getfloat atof c env = uart_getfloat atof c env (uart1_getc c env)"

definition uart1_getData :: "usart_config \<Rightarrow> 'z board_scheme \<Rightarrow> int \<times> 'z board_scheme" where
  "uart1_getData c = uart_getData c 1"

definition uart1_LoadData :: "usart_config \<Rightarrow> 'z board_scheme \<Rightarrow> u8 option \<times> 'z board_scheme" where
  "uart1_LoadData c = uart_LoadData c 1"

definition uart1_AvailableBytes :: "usart_config \<Rightarrow> 'z board_scheme \<Rightarrow> u8" where
  "uart1_AvailableBytes c = uart_AvailableBytes c 1"

definition uart1_peek :: "usart_config \<Rightarrow> 'z board_scheme \<Rightarrow> u8" where
  "uart1_peek c = uart_peek c 1"

definition cts1_isr_handler :: "usart_config \<Rightarrow> 'z board_scheme \<Rightarrow> 'z board_scheme" where
  "cts1_isr_handler c = cts_isr_handler c 1"

definition naked_cts1_isr_handler :: "usart_config \<Rightarrow> u8 \<Rightarrow> 'z board_scheme \<Rightarrow> 'z board_scheme" where
  "naked_cts1_isr_handler c flags = naked_cts_isr_handler c 1 flags"

definition ISR_UDRE1 :: "usart_config \<Rightarrow> u8 \<Rightarrow> 'z board_scheme \<Rightarrow> 'z board_scheme" where
  "ISR_UDRE1 c flags = ISR_UDRE c 1 flags"

definition ISR_TXC1 :: "usart_config \<Rightarrow> 'z board_scheme \<Rightarrow> 'z board_scheme" where
  "ISR_TXC1 c = ISR_TXC c 1"

definition ISR_RX1 :: "usart_config \<Rightarrow> u8 \<Rightarrow> 'z board_scheme \<Rightarrow> 'z board_scheme" where
  "ISR_RX1 c flags = ISR_RX c 1 flags"

section \<open>Unit 2\<close>

definition uart2_init :: "usart_config \<Rightarrow> u16 \<Rightarrow> 'z board_scheme \<Rightarrow> 'z board_scheme" where
  "uart2_init c ubrr_value = uart_init c 2 ubrr_value"

definition uart2_set_FrameFormat :: "u8 \<Rightarrow> 'z board_scheme \<Rightarrow> 'z board_scheme" where
  "uart2_set_FrameFormat UCSRC_reg = uart_set_FrameFormat 2 UCSRC_reg"

definition uart2_set_U2X :: "'z board_scheme \<Rightarrow> 'z board_scheme" where
  "uart2_set_U2X = uart_set_U2X 2"

definition uart2_mpcm_slave_return_idle :: "'z board_scheme \<Rightarrow> 'z board_scheme" where
  "uart2_mpcm_slave_return_idle = uart_mpcm_slave_return_idle 2"

definition uart2_reinit :: "usart_config \<Rightarrow> u16 \<Rightarrow> 'z board_scheme \<Rightarrow> 'z board_scheme" where
  "uart2_reinit c ubrr_value = uart_reinit c 2 ubrr_value"

definition uart2_putc :: "usart_config \<Rightarrow> 'z env \<Rightarrow> 'z putc" where
  "uart2_putc c env = uart_putc c (TX_BUFFER_MASK c) env 2"

definition uart2_putc_noblock :: "usart_config \<Rightarrow> u8 \<Rightarrow> 'z board_scheme \<Rightarrow> bool \<times> 'z board_scheme" where
  "uart2_putc_noblock c data = uart_putc_noblock c 2 data"

definition uart2_putstr :: "usart_config \<Rightarrow> 'z env \<Rightarrow> u8 list \<Rightarrow> 'z board_scheme \<Rightarrow> 'z board_scheme outcome" where
  "uart2_putstr c env = uart_putstr (uart2_putc c env)"

definition uart2_putstrl :: "usart_config \<Rightarrow> 'z env \<Rightarrow> ptr \<Rightarrow> u8 list \<Rightarrow> u8 \<Rightarrow> 'z board_scheme \<Rightarrow> 'z board_scheme outcome" where
  "uart2_putstrl c env = uart_putstrl c (uart2_putc c env)"

definition uart2_puts_p :: "usart_config \<Rightarrow> 'z env \<Rightarrow> u8 list \<Rightarrow> 'z board_scheme \<Rightarrow> 'z board_scheme outcome" where
  "uart2_puts_p c env = uart_puts_p (uart2_putc c env)"

definition uart2_putint :: "usart_config \<Rightarrow> 'z env \<Rightarrow> u16 \<Rightarrow> 'z board_scheme \<Rightarrow> 'z board_scheme outcome" where
  "uart2_putint c env = uart_putint (uart2_putc c env)"

definition uart2_putintr :: "usart_config \<Rightarrow> 'z env \<Rightarrow> u16 \<Rightarrow> u8 \<Rightarrow> 'z board_scheme \<Rightarrow> 'z board_scheme outcome" where
  "uart2_putintr c env = uart_putintr (uart2_putc c env)"

definition uart2_putuint :: "usart_config \<Rightarrow> 'z env \<Rightarrow> u16 \<Rightarrow> 'z board_scheme \<Rightarrow> 'z board_scheme outcome" where
  "uart2_putuint c env = uart_putuint (uart2_putc c env)"

definition uart2_putuintr :: "usart_config \<Rightarrow> 'z env \<Rightarrow> u16 \<Rightarrow> u8 \<Rightarrow> 'z board_scheme \<Rightarrow> 'z board_scheme outcome" where
  "uart2_putuintr c env = uart_putuintr (uart2_putc c env)"

definition uart2_putlong :: "usart_config \<Rightarrow> 'z env \<Rightarrow> u32 \<Rightarrow> 'z board_scheme \<Rightarrow> 'z board_scheme outcome" where
  "uart2_putlong c env = uart_putlong (uart2_putc c env)"

definition uart2_putlongr :: "usart_config \<Rightarrow> 'z env \<Rightarrow> u32 \<Rightarrow> u8 \<Rightarrow> 'z board_scheme \<Rightarrow> 'z board_scheme outcome" where
  "uart2_putlongr c env = uart_putlongr (uart2_putc c env)"

definition uart2_putulong :: "usart_config \<Rightarrow> 'z env \<Rightarrow> u32 \<Rightarrow> 'z board_scheme \<Rightarrow> 'z board_scheme outcome" where
  "uart2_putulong c env = uart_putulong (uart2_putc c env)"

definition uart2_putulongr :: "usart_config \<Rightarrow> 'z env \<Rightarrow> u32 \<Rightarrow> u8 \<Rightarrow> 'z board_scheme \<Rightarrow> 'z board_scheme outcome" where
  "uart2_putulongr c env = uart_putulongr (uart2_putc c env)"

definition uart2_puthex :: "usart_config \<Rightarrow> 'z env \<Rightarrow> u8 \<Rightarrow> 'z board_scheme \<Rightarrow> 'z board_scheme outcome" where
  "uart2_puthex c env = uart_puthex c (uart2_putc c env)"

definition uart2_putfloat :: "('f \<Rightarrow> nat \<Rightarrow> nat \<Rightarrow> u8 list) \<Rightarrow> usart_config \<Rightarrow> 'z env \<Rightarrow> 'f \<Rightarrow> 'z board_scheme \<Rightarrow> 'z board_scheme outcome" where
  "uart2_putfloat dtostrf c env = uart_putfloat dtostrf (uart2_putc c env)"

definition uart2_fputfloat :: "('f \<Rightarrow> nat \<Rightarrow> nat \<Rightarrow> u8 list) \<Rightarrow> usart_config \<Rightarrow> 'z env \<Rightarrow> 'f \<Rightarrow> u8 \<Rightarrow> 'z board_scheme \<Rightarrow> 'z board_scheme outcome" where
  "uart2_fputfloat dtostrf c env = uart_fputfloat dtostrf (uart2_putc c env)"

definition uart2_flush :: "usart_config \<Rightarrow> 'z env \<Rightarrow> 'z board_scheme \<Rightarrow> 'z board_scheme option" where
  "uart2_flush c env = uart_flush c env 2"

definition uart2_BytesToSend :: "usart_config \<Rightarrow> 'z board_scheme \<Rightarrow> u8" where
  "uart2_BytesToSend c = uart_BytesToSend c 2"

definition uart2_mpcm_transmit_addres_Frame :: "usart_config \<Rightarrow> 'z env \<Rightarrow> u8 \<Rightarrow> 'z board_scheme \<Rightarrow> 'z board_scheme outcome" where
  "uart2_mpcm_transmit_addres_Frame c env = uart_mpcm_transmit_addres_Frame env (uart2_putc c env) 2"

definition uart2_getc :: "usart_config \<Rightarrow> 'z env \<Rightarrow> 'z getc" where
  "uart2_getc c env = uart_getc c (uart2_putc c env) 2"

definition uart2_gets :: "usart_config \<Rightarrow> 'z env \<Rightarrow> u8 \<Rightarrow> 'z board_scheme \<Rightarrow> (u8 list \<times> 'z board_scheme) outcome" where
  "uart2_gets c env = uart_gets (uart2_getc c env)"

definition uart2_getln :: "usart_config \<Rightarrow> 'z env \<Rightarrow> u8 \<Rightarrow> 'z board_scheme \<Rightarrow> (u8 list \<times> 'z board_scheme) outcome" where
  "uart2_getln c env = uart_getln c env (uart2_getc c env)"

definition uart2_getlnToFirstWhiteSpace :: "usart_config \<Rightarrow> 'z env \<Rightarrow> u8 \<Rightarrow> 'z board_scheme \<Rightarrow> (u8 list \<times> 'z board_scheme) outcome" where
  "uart2_getlnToFirstWhiteSpace c env = uart_getlnToFirstWhiteSpace c env (uart2_getc c env)"

definition uart2_skipWhiteSpaces :: "usart_config \<Rightarrow> 'z env \<Rightarrow> 'z getc" where
  "uart2_skipWhiteSpaces c env = uart_skipWhiteSpaces env (uart2_getc c env)"

definition uart2_getint :: "usart_config \<Rightarrow> 'z env \<Rightarrow> 'z board_scheme \<Rightarrow> (u16 \<times> 'z board_scheme) outcome" where
  "uart2_getint c env = uart_getint c env (uart2_getc c env)"

definition uart2_getlong :: "usart_config \<Rightarrow> 'z env \<Rightarrow> 'z board_scheme \<Rightarrow> (u32 \<times> 'z board_scheme) outcome" where
  "uart2_getlong c env = uart_getlong c env (uart2_getc c env)"

definition uart2_getfloat :: "(u8 list \<Rightarrow> 'f) \<Rightarrow> usart_config \<Rightarrow> 'z env \<Rightarrow> 'z board_scheme \<Rightarrow> ('f \<times> 'z board_scheme) outcome" where
  "uart2_getfloat atof c env = uart_getfloat atof c env (uart2_getc c env)"

definition uart2_getData :: "usart_config \<Rightarrow> 'z board_scheme \<Rightarrow> int \<times> 'z board_scheme" where
  "uart2_getData c = uart_getData c 2"

definition uart2_LoadData :: "usart_config \<Rightarrow> 'z board_scheme \<Rightarrow> u8 option \<times> 'z board_scheme" where
  "uart2_LoadData c = uart_LoadData c 2"

definition uart2_AvailableBytes :: "usart_config \<Rightarrow> 'z board_scheme \<Rightarrow> u8" where
  "uart2_AvailableBytes c = uart_AvailableBytes c 2"

definition uart2_peek :: "usart_config \<Rightarrow> 'z board_scheme \<Rightarrow> u8" where
  "uart2_peek c = uart_peek c 2"

definition cts2_isr_handler :: "usart_config \<Rightarrow> 'z board_scheme \<Rightarrow> 'z board_scheme" where
  "cts2_isr_handler c = cts_isr_handler c 2"

definition naked_cts2_isr_handler :: "usart_config \<Rightarrow> u8 \<Rightarrow> 'z board_scheme \<Rightarrow> 'z board_scheme" where
  "naked_cts2_isr_handler c flags = naked_cts_isr_handler c 2 flags"

definition ISR_UDRE2 :: "usart_config \<Rightarrow> u8 \<Rightarrow> 'z board_scheme \<Rightarrow> 'z board_scheme" where
  "ISR_UDRE2 c flags = ISR_UDRE c 2 flags"

definition ISR_TXC2 :: "usart_config \<Rightarrow> 'z board_scheme \<Rightarrow> 'z board_scheme" where
  "ISR_TXC2 c = ISR_TXC c 2"

definition ISR_RX2 :: "usart_config \<Rightarrow> u8 \<Rightarrow> 'z board_scheme \<Rightarrow> 'z board_scheme" where
  "ISR_RX2 c flags = ISR_RX c 2 flags"

section \<open>Unit 3\<close>

definition uart3_init :: "usart_config \<Rightarrow> u16 \<Rightarrow> 'z board_scheme \<Rightarrow> 'z board_scheme" where
  "uart3_init c ubrr_value = uart_init c 3 ubrr_value"

definition uart3_set_FrameFormat :: "u8 \<Rightarrow> 'z board_scheme \<Rightarrow> 'z board_scheme" where
  "uart3_set_FrameFormat UCSRC_reg = uart_set_FrameFormat 3 UCSRC_reg"

definition uart3_set_U2X :: "'z board_scheme \<Rightarrow> 'z board_scheme" where
  "uart3_set_U2X = uart_set_U2X 3"

definition uart3_mpcm_slave_return_idle :: "'z board_scheme \<Rightarrow> 'z board_scheme" where
  "uart3_mpcm_slave_return_idle = uart_mpcm_slave_return_idle 3"

definition uart3_reinit :: "usart_config \<Rightarrow> u16 \<Rightarrow> 'z board_scheme \<Rightarrow> 'z board_scheme" where
  "uart3_reinit c ubrr_value = uart_reinit c 3 ubrr_value"

definition uart3_putc :: "usart_config \<Rightarrow> usart_config \<Rightarrow> 'z env \<Rightarrow> 'z putc" where
  "uart3_putc c c2 env = uart_putc c (if FAST_INSERTIONS c then TX_BUFFER_MASK c2 else TX_BUFFER_MASK c) env 3"

definition uart3_putc_noblock :: "usart_config \<Rightarrow> u8 \<Rightarrow> 'z board_scheme \<Rightarrow> bool \<times> 'z board_scheme" where
  "uart3_putc_noblock c data = uart_putc_noblock c 3 data"

definition uart3_putstr :: "usart_config \<Rightarrow> usart_config \<Rightarrow> 'z env \<Rightarrow> u8 list \<Rightarrow> 'z board_scheme \<Rightarrow> 'z board_scheme outcome" where
  "uart3_putstr c c2 env = uart_putstr (uart3_putc c c2 env)"

definition uart3_putstrl :: "usart_config \<Rightarrow> usart_config \<Rightarrow> 'z env \<Rightarrow> ptr \<Rightarrow> u8 list \<Rightarrow> u8 \<Rightarrow> 'z board_scheme \<Rightarrow> 'z board_scheme outcome" where
  "uart3_putstrl c c2 env = uart_putstrl c (uart3_putc c c2 env)"

definition uart3_puts_p :: "usart_config \<Rightarrow> usart_config \<Rightarrow> 'z env \<Rightarrow> u8 list \<Rightarrow> 'z board_scheme \<Rightarrow> 'z board_scheme outcome" where
  "uart3_puts_p c c2 env = uart_puts_p (uart3_putc c c2 env)"

definition uart3_putint :: "usart_config \<Rightarrow> usart_config \<Rightarrow> 'z env \<Rightarrow> u16 \<Rightarrow> 'z board_scheme \<Rightarrow> 'z board_scheme outcome" where
  "uart3_putint c c2 env = uart_putint (uart3_putc c c2 env)"

definition uart3_putintr :: "usart_config \<Rightarrow> usart_config \<Rightarrow> 'z env \<Rightarrow> u16 \<Rightarrow> u8 \<Rightarrow> 'z board_scheme \<Rightarrow> 'z board_scheme outcome" where
  "uart3_putintr c c2 env = uart_putintr (uart3_putc c c2 env)"

definition uart3_putuint :: "usart_config \<Rightarrow> usart_config \<Rightarrow> 'z env \<Rightarrow> u16 \<Rightarrow> 'z board_scheme \<Rightarrow> 'z board_scheme outcome" where
  "uart3_putuint c c2 env = uart_putuint (uart3_putc c c2 env)"

definition uart3_putuintr :: "usart_config \<Rightarrow> usart_config \<Rightarrow> 'z env \<Rightarrow> u16 \<Rightarrow> u8 \<Rightarrow> 'z board_scheme \<Rightarrow> 'z board_scheme outcome" where
  "uart3_putuintr c c2 env = uart_putuintr (uart3_putc c c2 env)"

definition uart3_putlong :: "usart_config \<Rightarrow> usart_config \<Rightarrow> 'z env \<Rightarrow> u32 \<Rightarrow> 'z board_scheme \<Rightarrow> 'z board_scheme outcome" where
  "uart3_putlong c c2 env = uart_putlong (uart3_putc c c2 env)"

definition uart3_putlongr :: "usart_config \<Rightarrow> usart_config \<Rightarrow> 'z env \<Rightarrow> u32 \<Rightarrow> u8 \<Rightarrow> 'z board_scheme \<Rightarrow> 'z board_scheme outcome" where
  "uart3_putlongr c c2 env = uart_putlongr (uart3_putc c c2 env)"

definition uart3_putulong :: "usart_config \<Rightarrow> usart_config \<Rightarrow> 'z env \<Rightarrow> u32 \<Rightarrow> 'z board_scheme \<Rightarrow> 'z board_scheme outcome" where
  "uart3_putulong c c2 env = uart_putulong (uart3_putc c c2 env)"

definition uart3_putulongr :: "usart_config \<Rightarrow> usart_config \<Rightarrow> 'z env \<Rightarrow> u32 \<Rightarrow> u8 \<Rightarrow> 'z board_scheme \<Rightarrow> 'z board_scheme outcome" where
  "uart3_putulongr c c2 env = uart_putulongr (uart3_putc c c2 env)"

definition uart3_puthex :: "usart_config \<Rightarrow> usart_config \<Rightarrow> 'z env \<Rightarrow> u8 \<Rightarrow> 'z board_scheme \<Rightarrow> 'z board_scheme outcome" where
  "uart3_puthex c c2 env = uart_puthex c (uart3_putc c c2 env)"

definition uart3_putfloat :: "('f \<Rightarrow> nat \<Rightarrow> nat \<Rightarrow> u8 list) \<Rightarrow> usart_config \<Rightarrow> usart_config \<Rightarrow> 'z env \<Rightarrow> 'f \<Rightarrow> 'z board_scheme \<Rightarrow> 'z board_scheme outcome" where
  "uart3_putfloat dtostrf c c2 env = uart_putfloat dtostrf (uart3_putc c c2 env)"

definition uart3_fputfloat :: "('f \<Rightarrow> nat \<Rightarrow> nat \<Rightarrow> u8 list) \<Rightarrow> usart_config \<Rightarrow> usart_config \<Rightarrow> 'z env \<Rightarrow> 'f \<Rightarrow> u8 \<Rightarrow> 'z board_scheme \<Rightarrow> 'z board_scheme outcome" where
  "uart3_fputfloat dtostrf c c2 env = uart_fputfloat dtostrf (uart3_putc c c2 env)"

definition uart3_flush :: "usart_config \<Rightarrow> 'z env \<Rightarrow> 'z board_scheme \<Rightarrow> 'z board_scheme option" where
  "uart3_flush c env = uart_flush c env 3"

definition uart3_BytesToSend :: "usart_config \<Rightarrow> 'z board_scheme \<Rightarrow> u8" where
  "uart3_BytesToSend c = uart_BytesToSend c 3"

definition uart3_mpcm_transmit_addres_Frame :: "usart_config \<Rightarrow> usart_config \<Rightarrow> 'z env \<Rightarrow> u8 \<Rightarrow> 'z board_scheme \<Rightarrow> 'z board_scheme outcome" where
  "uart3_mpcm_transmit_addres_Frame c c2 env = uart_mpcm_transmit_addres_Frame env (uart3_putc c c2 env) 3"

definition uart3_getc :: "usart_config \<Rightarrow> usart_config \<Rightarrow> 'z env \<Rightarrow> 'z getc" where
  "uart3_getc c c2 env = uart_getc c (uart3_putc c c2 env) 3"

definition uart3_gets :: "usart_config \<Rightarrow> usart_config \<Rightarrow> 'z env \<Rightarrow> u8 \<Rightarrow> 'z board_scheme \<Rightarrow> (u8 list \<times> 'z board_scheme) outcome" where
  "uart3_gets c c2 env = uart_gets (uart3_getc c c2 env)"

definition uart3_getln :: "usart_config \<Rightarrow> usart_config \<Rightarrow> 'z env \<Rightarrow> u8 \<Rightarrow> 'z board_scheme \<Rightarrow> (u8 list \<times> 'z board_scheme) outcome" where
  "uart3_getln c c2 env = uart_getln c env (uart3_getc c c2 env)"

definition uart3_getlnToFirstWhiteSpace :: "usart_config \<Rightarrow> usart_config \<Rightarrow> 'z env \<Rightarrow> u8 \<Rightarrow> 'z board_scheme \<Rightarrow> (u8 list \<times> 'z board_scheme) outcome" where
  "uart3_getlnToFirstWhiteSpace c c2 env = uart_getlnToFirstWhiteSpace c env (uart3_getc c c2 env)"

definition uart3_skipWhiteSpaces :: "usart_config \<Rightarrow> usart_config \<Rightarrow> 'z env \<Rightarrow> 'z getc" where
  "uart3_skipWhiteSpaces c c2 env = uart_skipWhiteSpaces env (uart3_getc c c2 env)"

definition uart3_getint :: "usart_config \<Rightarrow> usart_config \<Rightarrow> 'z env \<Rightarrow> 'z board_scheme \<Rightarrow> (u16 \<times> 'z board_scheme) outcome" where
  "uart3_getint c c2 env = uart_getint c env (uart3_getc c c2 env)"

definition uart3_getlong :: "usart_config \<Rightarrow> usart_config \<Rightarrow> 'z env \<Rightarrow> 'z board_scheme \<Rightarrow> (u32 \<times> 'z board_scheme) outcome" where
  "uart3_getlong c c2 env = uart_getlong c env (uart3_getc c c2 env)"

definition uart3_getfloat :: "(u8 list \<Rightarrow> 'f) \<Rightarrow> usart_config \<Rightarrow> usart_config \<Rightarrow> 'z env \<Rightarrow> 'z board_scheme \<Rightarrow> ('f \<times> 'z board_scheme) outcome" where
  "uart3_getfloat atof c c2 env = uart_getfloat atof c env (uart3_getc c c2 env)"

definition uart3_getData :: "usart_config \<Rightarrow> 'z board_scheme \<Rightarrow> int \<times> 'z board_scheme" where
  "uart3_getData c = uart_getData c 3"

definition uart3_LoadData :: "usart_config \<Rightarrow> 'z board_scheme \<Rightarrow> u8 option \<times> 'z board_scheme" where
  "uart3_LoadData c = uart_LoadData c 3"

definition uart3_AvailableBytes :: "usart_config \<Rightarrow> 'z board_scheme \<Rightarrow> u8" where
  "uart3_AvailableBytes c = uart_AvailableBytes c 3"

definition uart3_peek :: "usart_config \<Rightarrow> 'z board_scheme \<Rightarrow> u8" where
  "uart3_peek c = uart_peek c 3"

definition cts3_isr_handler :: "usart_config \<Rightarrow> 'z board_scheme \<Rightarrow> 'z board_scheme" where
  "cts3_isr_handler c = cts_isr_handler c 3"

definition naked_cts3_isr_handler :: "usart_config \<Rightarrow> u8 \<Rightarrow> 'z board_scheme \<Rightarrow> 'z board_scheme" where
  "naked_cts3_isr_handler c flags = naked_cts_isr_handler c 3 flags"

definition ISR_UDRE3 :: "usart_config \<Rightarrow> u8 \<Rightarrow> 'z board_scheme \<Rightarrow> 'z board_scheme" where
  "ISR_UDRE3 c flags = ISR_UDRE c 3 flags"

definition ISR_TXC3 :: "usart_config \<Rightarrow> 'z board_scheme \<Rightarrow> 'z board_scheme" where
  "ISR_TXC3 c = ISR_TXC c 3"

definition ISR_RX3 :: "usart_config \<Rightarrow> u8 \<Rightarrow> 'z board_scheme \<Rightarrow> 'z board_scheme" where
  "ISR_RX3 c flags = ISR_RX c 3 flags"

section \<open>Standard streams of several units\<close>

text \<open>
  The stream names its unit. The cases of units that do not transmit (or receive) are left out of the \<open>switch\<close>, and its \<open>default\<close> stands
  before the first case that is left, so any other number means that unit. Without any unit the functions do not compile.
\<close>

definition switch_unit :: "(nat \<Rightarrow> bool) \<Rightarrow> u16 \<Rightarrow> nat option" where
  "switch_unit present udata = (if udata < 4 \<and> present (unat udata) then Some (unat udata) else find present [0, 1, 2, 3])"

definition uart_putchar_multi ::
  "(nat \<Rightarrow> usart_config) \<Rightarrow> 'z env \<Rightarrow> u16 \<Rightarrow> u8 \<Rightarrow> 'z board_scheme \<Rightarrow> 'z board_scheme outcome" where
  "uart_putchar_multi cs env udata data s =
     (case switch_unit (\<lambda>k. \<not> NO_TX_INTERRUPT (cs k)) udata of
        None \<Rightarrow> None
      | Some k \<Rightarrow>
          if k = 0 then uart_putchar (uart0_putc (cs 0) env) data s
          else if k = 1 then uart_putchar (uart1_putc (cs 1) env) data s
          else if k = 2 then uart_putchar (uart2_putc (cs 2) env) data s
          else uart_putchar (uart3_putc (cs 3) (cs 2) env) data s)"

definition uart_getchar_multi ::
  "(nat \<Rightarrow> usart_config) \<Rightarrow> 'z env \<Rightarrow> u16 \<Rightarrow> 'z board_scheme \<Rightarrow> (u8 \<times> 'z board_scheme) outcome" where
  "uart_getchar_multi cs env udata s =
     (case switch_unit (\<lambda>k. \<not> NO_RX_INTERRUPT (cs k)) udata of
        None \<Rightarrow> None
      | Some k \<Rightarrow>
          if k = 0 then uart_getchar (cs 0) env (uart0_putc (cs 0) env) (uart0_getData (cs 0)) s
          else if k = 1 then uart_getchar (cs 1) env (uart1_putc (cs 1) env) (uart1_getData (cs 1)) s
          else if k = 2 then uart_getchar (cs 2) env (uart2_putc (cs 2) env) (uart2_getData (cs 2)) s
          else uart_getchar (cs 3) env (uart3_putc (cs 3) (cs 2) env) (uart3_getData (cs 3)) s)"

section \<open>The units are independent\<close>

lemma on_unit_other: "m \<noteq> n \<Longrightarrow> units (on_unit m f s) n = units s n"
  by simp

lemma RX_effect_other: "m \<noteq> n \<Longrightarrow> RX_effect c m s n = units s n"
  by (simp add: RX_effect_def RX_body_units RX_accept_units RX_disable_units Let_def)

lemma rx_taken_other: "m \<noteq> n \<Longrightarrow> units (rx_taken c m t s) n = units s n"
  by (simp add: rx_taken_def set_UCSRB_def Let_def)

lemma putc_noblock_other: "m \<noteq> n \<Longrightarrow> units (snd (uart_putc_noblock c m x s)) n = units s n"
  by (simp add: uart_putc_noblock_eq uart_putc_noblock_C_def write_UDR_def atomic_restorestate_def tx_publish_def
      store_tx_def set_UCSRB_def on_unit_def Let_def cli_def)



end
