(* ===== verification/Uart.thy ===== *)
theory Uart
  imports Usart_Instances
begin

text \<open>
  The serial port as the console of the scheduler, \<^verbatim>\<open>src/drivers/uart/uart.cpp\<close>, and the initialisation of the whole
  system, \<open>init_scheduler\<close> of \<^verbatim>\<open>src/scheduler.cpp\<close>.
\<close>

section \<open>State and operations\<close>

text \<open>The two standard streams are either unset or the stream of unit 0.\<close>

datatype stream = No_stream | uart0_io

record console = board +
  stdin :: stream
  stdout :: stream

definition CONF_UART_BAUD_RATE :: nat where
  "CONF_UART_BAUD_RATE = 921600"

definition initialize_uart :: "usart_config \<Rightarrow> 'z console_scheme \<Rightarrow> 'z console_scheme" where
  "initialize_uart c s =
     (let sreg = SREG s;
          s = cli s;
          s = uart0_init c (of_nat (BAUD_CALC CONF_UART_BAUD_RATE)) s;
          s = (if U2X_SPEED c then uart0_set_U2X s else s);
          s = s\<lparr>stdout := uart0_io\<rparr>;
          s = s\<lparr>stdin := uart0_io\<rparr>
      in s\<lparr>SREG := sreg\<rparr>)"

definition init_scheduler :: "usart_config \<Rightarrow> 'z console_scheme \<Rightarrow> 'z console_scheme" where
  "init_scheduler c s =
     (let sreg = SREG s;
          s = cli s;
          s = initialize_uart c s;
          s = initialize_clock s
      in s\<lparr>SREG := sreg\<rparr>)"

definition console_reset :: console where
  "console_reset = board.extend board_reset (console.fields No_stream No_stream)"

section \<open>Initialisation\<close>

lemma initialize_clock_units [simp]:
  "units (initialize_clock s) = units s" "stdin (initialize_clock t) = stdin t" "stdout (initialize_clock t) = stdout t"
  "SREG (initialize_clock s) = SREG s"
  for s :: "'z board_scheme" and t :: "'z console_scheme"
  by (simp_all add: initialize_clock_def timer_op_defs Let_def cli_def)

lemma SREG_initialize_clock: "(initialize_clock s)\<lparr>SREG := b\<rparr> = initialize_clock (s\<lparr>SREG := b\<rparr>)"
  by (simp add: initialize_clock_def timer_op_defs Let_def cli_def)

lemma uart0_init_effect:
  "uart0_init (build_config tx rx) b s = s\<lparr>units := (units s)(0 := (units s 0)\<lparr>UBRRL := lo8 b, UBRRH := hi8 b, UCSRB := 0x98\<rparr>)\<rparr>"
  by (simp add: uart0_init_def uart_init_def on_unit_def build_config_def CONFIG_B_def Let_def)

lemma initialize_uart_effect:
  "initialize_uart (build_config tx rx) s =
     s\<lparr>units := (units s)(0 := (units s 0)\<lparr>UBRRL := 0, UBRRH := 0, UCSRB := 0x98\<rparr>), stdout := uart0_io, stdin := uart0_io\<rparr>"
proof -
  have "BAUD_CALC CONF_UART_BAUD_RATE = 0" by (simp add: BAUD_CALC_def CONF_UART_BAUD_RATE_def F_CPU_def)
  then show ?thesis
    by (simp add: initialize_uart_def uart0_init_effect Let_def cli_def lo8_def hi8_def) (simp add: build_config_def)
qed



section \<open>The console\<close>

text \<open>\<open>putchar\<close> of the single-unit build: a line feed is preceded by a carriage return.\<close>

definition uart_putchar0 :: "usart_config \<Rightarrow> 'z env \<Rightarrow> u8 \<Rightarrow> 'z board_scheme \<Rightarrow> 'z board_scheme outcome" where
  "uart_putchar0 c env data = uart_putchar (uart0_putc c env) data"

definition uart_getchar0 :: "usart_config \<Rightarrow> 'z env \<Rightarrow> 'z board_scheme \<Rightarrow> (u8 \<times> 'z board_scheme) outcome" where
  "uart_getchar0 c env = uart_getchar c env (uart0_putc c env) (uart0_getData c)"

end
