(* ===== verification/Boot.thy ===== *)
theory Boot
  imports Scheduler Uart
begin

text \<open>
  Bringing the system up, as a program that uses the scheduler does (\<^verbatim>\<open>test/avr/two-tasks-gpio.cpp\<close>):
  \<open>init_scheduler\<close>, one \<open>create_task\<close> per task, \<open>start_scheduler\<close>. The result is a well-formed running
  system in which each task, when it gets the processor for the first time, starts at its entry point.
\<close>

section \<open>Creating the tasks\<close>

text \<open>The arguments of one call of \<open>create_task\<close>.\<close>

record task_spec =
  spec_task :: ptr
  spec_stack :: ptr
  spec_size :: u16
  spec_name :: "char list"
  spec_slice :: u8
  spec_entry :: u16

primrec create_all :: "task_spec list \<Rightarrow> 'z kernel_scheme \<Rightarrow> (bool \<times> 'z kernel_scheme) outcome" where
  "create_all [] s = ret (False, s)"
| "create_all (x # xs) s =
     obind (create_task (spec_task x) (spec_stack x) (spec_size x) (spec_name x) (spec_slice x) (spec_entry x) s)
       (\<lambda>(err, s). if err then ret (True, s) else create_all xs s)"

text \<open>The last address of the task's stack, and the five bytes the kernel needs there.\<close>

definition stack_top :: "task_spec \<Rightarrow> ptr" where
  "stack_top x = spec_stack x + (spec_size x - 1)"

definition top_bytes :: "task_spec \<Rightarrow> ptr set" where
  "top_bytes x = {stack_top x, stack_top x - 1, stack_top x - 2, stack_top x - 3, stack_top x - 4}"

definition specs_ok :: "stacks \<Rightarrow> task_spec list \<Rightarrow> bool" where
  "specs_ok stk xs \<longleftrightarrow>
     distinct (map spec_task xs) \<and>
     (\<forall>x \<in> set xs. spec_task x \<noteq> nullptr \<and> strlen (spec_name x) < CONF_TASK_NAME_MAX_LENGTH \<and>
        top_bytes x \<subseteq> stk (spec_task x)) \<and>
     (\<forall>p \<in> spec_task ` set xs. \<forall>q \<in> spec_task ` set xs. p \<noteq> q \<longrightarrow> stk p \<inter> stk q = {})"

text \<open>A created task that has not run yet, and the same task at its first instruction.\<close>

definition waiting :: "task_spec \<Rightarrow> 'z kernel_scheme \<Rightarrow> bool" where
  "waiting x s \<longleftrightarrow>
     (\<exists>c. task_context s (spec_task x) = Some c \<and> sreg c = 0x80 \<and> sp c = stack_top x - 2) \<and>
     SRAM s (stack_top x) = lo8 (spec_entry x) \<and> SRAM s (stack_top x - 1) = hi8 (spec_entry x)"

definition entered :: "task_spec \<Rightarrow> 'z kernel_scheme \<Rightarrow> bool" where
  "entered x s \<longleftrightarrow>
     c_task s = spec_task x \<and> PC s = spec_entry x \<and> SP s = stack_top x \<and> irq_enabled s"

definition created :: "task_spec list \<Rightarrow> 'z kernel_scheme \<Rightarrow> bool" where
  "created xs s \<longleftrightarrow>
     ready_list s (map spec_task xs) \<and> (\<forall>x \<in> set xs. waiting x s) \<and>
     c_task s = (if xs = [] then nullptr else spec_task (hd xs))"

lemma stack_top_offsets:
  "spec_stack x + (spec_size x - 1) = stack_top x" "spec_stack x + (spec_size x - 2) = stack_top x - 1"
  "spec_stack x + (spec_size x - 3) = stack_top x - 2"
  by (simp_all add: stack_top_def)

lemma stack_top_pop [simp]: "stack_top x - 2 + 2 = stack_top x" "stack_top x - 2 + 1 = stack_top x - 1"
  "stack_top x - 2 - 1 = stack_top x - 3"
  by simp_all

lemma specs_okD:
  assumes "specs_ok stk xs" "x \<in> set xs"
  shows "spec_task x \<noteq> nullptr" "strlen (spec_name x) < CONF_TASK_NAME_MAX_LENGTH"
    "top_bytes x \<subseteq> stk (spec_task x)"
    "y \<in> set xs \<Longrightarrow> spec_task x \<noteq> spec_task y \<Longrightarrow> stk (spec_task x) \<inter> stk (spec_task y) = {}"
  using assms by (simp_all add: specs_ok_def)

lemma specs_ok_apart:
  assumes "specs_ok stk xs" "x \<in> set xs" "y \<in> set xs" "spec_task y \<noteq> spec_task x"
  shows "top_bytes y \<inter> top_bytes x = {}"
  using specs_okD(3) [OF assms(1,2)] specs_okD(3,4) [OF assms(1,3)] assms(2,4) by blast

lemma task_context_unlinked:
  assumes "map_option unlinked (tasks s' q) = map_option unlinked (tasks s q)"
  shows "task_context s' q = task_context s q"
proof -
  have "map_option (cpu_state \<circ> unlinked) (tasks s' q) = map_option (cpu_state \<circ> unlinked) (tasks s q)"
    using assms by (metis option.map_comp)
  then show ?thesis by (simp add: task_context_def unlinked_def comp_def)
qed

text \<open>One more task created.\<close>

lemma created_step:
  assumes ok: "specs_ok stk (ys @ [x])" and cr: "created ys s" and t: "tasks s (spec_task x) \<noteq> None"
  shows "\<exists>s'. create_task (spec_task x) (spec_stack x) (spec_size x) (spec_name x) (spec_slice x) (spec_entry x) s
      = ret (False, s') \<and> created (ys @ [x]) s' \<and> (\<forall>q. tasks s' q = None \<longleftrightarrow> tasks s q = None)"
proof -
  note x = specs_okD(1-3) [OF ok, of x, simplified]
  have fresh: "spec_task x \<notin> set (map spec_task ys)" using ok by (auto simp: specs_ok_def)
  have r: "ready_list s (map spec_task ys)" using cr by (simp add: created_def)
  obtain t where t: "tasks s (spec_task x) = Some t" using t by blast
  let ?run = "create_task (spec_task x) (spec_stack x) (spec_size x) (spec_name x) (spec_slice x) (spec_entry x) s"
  let ?t = "new_task (spec_stack x) (spec_size x) (spec_name x) (spec_slice x) t"
  obtain s' where s': "?run = ret (False, s')" "ready_list s' (map spec_task ys @ [spec_task x])"
    "c_task s' = (if c_task s = nullptr then hd (map spec_task ys @ [spec_task x]) else c_task s)"
    "tasks s' (spec_task x) = Some ?t"
    "\<forall>q. q \<noteq> spec_task x \<longrightarrow> map_option unlinked (tasks s' q) = map_option unlinked (tasks s q)"
    "SRAM s' = (SRAM s)(stack_top x := lo8 (spec_entry x), stack_top x - 1 := hi8 (spec_entry x))"
    using create_task_ok [OF r t x(1) fresh x(2), of "spec_stack x" "spec_size x" "spec_slice x" "spec_entry x"]
    unfolding stack_top_offsets by blast
  have "waiting x s'"
    using s'(4,6) by (simp add: waiting_def task_context_def stack_top_offsets del: add_diff_eq)
  moreover have "waiting y s'" if y: "y \<in> set ys" for y
  proof -
    have ne: "spec_task y \<noteq> spec_task x" using y fresh by (metis imageI set_map)
    have "top_bytes y \<inter> top_bytes x = {}" using specs_ok_apart [OF ok _ _ ne] y by simp
    then have "SRAM s' (stack_top y) = SRAM s (stack_top y)" "SRAM s' (stack_top y - 1) = SRAM s (stack_top y - 1)"
      unfolding s'(6) by (auto simp: top_bytes_def)
    then show ?thesis
      using cr y task_context_unlinked [of s' "spec_task y" s] s'(5) ne by (simp add: created_def waiting_def)
  qed
  moreover have "c_task s' = spec_task (hd (ys @ [x]))"
    using s'(3) cr ready_list_member [OF r] by (cases ys) (auto simp: created_def)
  moreover have "tasks s' q = None \<longleftrightarrow> tasks s q = None" for q
    using s'(4,5) t by (cases "q = spec_task x") (auto dest!: spec [of _ q])
  ultimately show ?thesis using s'(1,2) by (auto simp: created_def)
qed

lemma specs_ok_prefix: "specs_ok stk (xs @ ys) \<Longrightarrow> specs_ok stk xs"
  by (auto simp: specs_ok_def)

lemma create_all_created:
  assumes "specs_ok stk (ys @ xs)" "created ys s" "\<forall>x \<in> set xs. tasks s (spec_task x) \<noteq> None"
  shows "\<exists>s'. create_all xs s = ret (False, s') \<and> created (ys @ xs) s'"
  using assms
proof (induction xs arbitrary: ys s)
  case (Cons x xs)
  have ok: "specs_ok stk (ys @ [x])" using specs_ok_prefix [of stk "ys @ [x]" xs] Cons.prems(1) by simp
  obtain s' where "create_task (spec_task x) (spec_stack x) (spec_size x) (spec_name x) (spec_slice x) (spec_entry x) s
      = ret (False, s')" "created (ys @ [x]) s'" "\<forall>q. tasks s' q = None \<longleftrightarrow> tasks s q = None"
    using created_step [OF ok Cons.prems(2)] Cons.prems(3) by auto
  moreover from this have "\<exists>s''. create_all xs s' = ret (False, s'') \<and> created ((ys @ [x]) @ xs) s''"
    using Cons.prems by (intro Cons.IH) auto
  ultimately show ?case by auto
qed simp

section \<open>Starting\<close>

lemma ready_list_init_timer: "ready_list (kernel_init_timer s) ps = ready_list s ps"
  by (simp add: ready_list_def kernel_init_timer_def enable_timer0_interrupt_def Let_def cli_def)

lemma start_created:
  assumes ok: "specs_ok stk (x # xs)" and cr: "created (x # xs) s"
  shows "\<exists>s'. start_scheduler s = ret s' \<and> system_ok stk (map spec_task (x # xs)) s' \<and> entered x s'
    \<and> stack_room stk s' \<and> (\<forall>y \<in> set xs. waiting y s')
    \<and> irq_unmasked COMPB_INTERRUPT s' \<and> OCR0B s' = 246 + TCNT0 s'"
proof -
  have r: "ready_list s (map spec_task (x # xs))" and c: "c_task s = spec_task x"
    and w: "\<forall>y \<in> set (x # xs). waiting y s" using cr by (auto simp: created_def)
  obtain t where t: "tasks s (c_task s) = Some t" using ready_list_member [OF r, of "spec_task x"] c by auto
  have ctx: "sreg (cpu_state t) = 0x80" "sp (cpu_state t) = stack_top x - 2"
    "SRAM s (stack_top x) = lo8 (spec_entry x)" "SRAM s (stack_top x - 1) = hi8 (spec_entry x)"
    using w t c by (auto simp: waiting_def task_context_def)
  let ?s = "do_ret (restored (kernel_init_timer s) t)"
  have run: "start_scheduler s = ret ?s" using kernel_start_eq [OF t] by (simp add: start_scheduler_def)
  have mem: "SRAM ?s a = SRAM s a" if "a \<notin> {stack_top x - 2, stack_top x - 3}" for a
    using that by (auto simp: restored_def Let_def ctx)
  have tasks: "task_context ?s q = task_context s q" for q by (simp add: task_context_def)
  have ent: "entered x ?s"
    using ctx c by (simp add: entered_def restored_def Let_def irq_enabled_def bit_simps)
  have wait: "waiting y ?s" if y: "y \<in> set xs" for y
  proof -
    have "spec_task x \<notin> spec_task ` set xs" using ok by (simp add: specs_ok_def)
    then have ne: "spec_task y \<noteq> spec_task x" using y by (metis imageI)
    have "top_bytes y \<inter> top_bytes x = {}" using specs_ok_apart [OF ok _ _ ne] y by simp
    then have "SRAM ?s (stack_top y) = SRAM s (stack_top y)" "SRAM ?s (stack_top y - 1) = SRAM s (stack_top y - 1)"
      using mem [of "stack_top y"] mem [of "stack_top y - 1"] by (auto simp: top_bytes_def)
    then show ?thesis using w y tasks by (auto simp: waiting_def)
  qed
  have susp: "suspended_ok stk (spec_task y) ?s" if "y \<in> set xs" for y
    using wait [OF that] specs_okD(3) [OF ok, of y] that
    by (auto simp: waiting_def suspended_ok_def top_bytes_def)
  have rl: "ready_list ?s (map spec_task (x # xs))"
    using r by (simp only: ready_list_frame ready_list_init_timer)
  have sys: "system_ok stk (map spec_task (x # xs)) ?s"
    unfolding system_ok_def using rl ok ent susp by (auto simp: entered_def specs_ok_def)
  moreover have "stack_room stk ?s"
    using ent specs_okD(3) [OF ok, of x] by (simp add: entered_def stack_room_def top_bytes_def)
  moreover have "irq_unmasked COMPB_INTERRUPT ?s" "OCR0B ?s = 246 + TCNT0 ?s"
    using kernel_init_timer_sels(5,6) [of s]
    by (simp_all add: restored_def Let_def irq_unmasked_def do_ret_def pop_byte_def)
  ultimately show ?thesis using run ent wait by blast
qed

section \<open>The first turn of each task\<close>

lemma waiting_task_code:
  assumes "waiting y u" "task_code stk ps u v" "spec_task y \<in> set ps" "c_task u \<noteq> spec_task y"
    "top_bytes y \<subseteq> stk (spec_task y)"
  shows "waiting y v"
  using assms by (auto simp: waiting_def task_code_def top_bytes_def)

lemma waiting_hands_over:
  assumes sys: "system_ok stk ps u" and room: "stack_room stk u" and e: "called_from u e"
    and h: "hands_over e q v" and q: "q \<in> set ps" and y: "spec_task y \<in> set ps" "spec_task y \<noteq> c_task u"
    and w: "waiting y u" and top: "top_bytes y \<subseteq> stk (spec_task y)"
  shows "waiting y v \<and> (q = spec_task y \<longrightarrow> entered y v)"
proof -
  obtain c where c: "task_context v (spec_task y) = Some c" "sreg c = 0x80" "sp c = stack_top y - 2"
    using w h y by (auto simp: waiting_def hands_over_def called_from_kernel [OF e])
  obtain d where d: "task_context v q = Some d" "SP v = sp d + 2" "SREG v = sreg d OR 0x80"
      "PC v = join16 (SRAM v (sp d + 1)) (SRAM v (sp d + 2))"
    using h by (auto simp: hands_over_def)
  have m: "SRAM v a = SRAM u a" if "a \<in> {stack_top y, stack_top y - 1}" for a
  proof (rule hands_over_stack [OF sys room e h q y d(1)])
    show "a \<in> stk (spec_task y)" using that top by (auto simp: top_bytes_def)
    assume "spec_task y = q"
    then show "a \<notin> {sp d, sp d - 1}" using that c d(1) by auto
  qed
  have "entered y v" if "q = spec_task y"
  proof -
    have "d = c" "c_task v = spec_task y" using that c(1) d(1) h by (simp_all add: hands_over_def)
    then show ?thesis
      using c(2,3) d(2-4) w m by (simp add: entered_def waiting_def irq_enabled_def bit_simps)
  qed
  then show ?thesis using w c m by (auto simp: waiting_def)
qed

lemma others_run_first_turn:
  assumes "others_run stk ps (spec_task y) s w" and sys: "system_ok stk ps s" and y: "waiting y s"
    "spec_task y \<in> set ps" "c_task s \<noteq> spec_task y" and top: "top_bytes y \<subseteq> stk (spec_task y)"
  shows "system_ok stk ps w \<and> waiting y w \<and> (c_task w = spec_task y \<longrightarrow> entered y w)"
  using assms(1)
proof induction
  case start
  then show ?case using assms by simp
next
  case (code u v)
  then show ?case
    using system_ok_task_code [of stk ps u v] waiting_task_code [of y u stk ps v] y top
    by (auto simp: task_code_def)
next
  case (switch u v)
  obtain e q where e: "called_from u e" "successor ps (c_task u) q" "hands_over e q v"
    using switch_step_hands_over [OF switch.hyps(3), of ps] switch.IH by (auto simp: system_ok_def)
  have room: "stack_room stk u" using switch.hyps(3) by cases
  have "waiting y v \<and> (q = spec_task y \<longrightarrow> entered y v)"
    using waiting_hands_over [OF _ room e(1,3) successor_mem [OF e(2)] y(2) _ _ top] switch by auto
  moreover have "c_task v = q" using e(3) by (simp add: hands_over_def)
  ultimately show ?case using system_ok_switch_step(1) [OF _ switch.hyps(3)] switch.IH by auto
qed

section \<open>The clock while the system comes up\<close>

text \<open>Timer 0 is powered, counts with prescaler 64 in normal mode and its overflow interrupt is unmasked.\<close>

definition clock_running :: "'z mcu_scheme \<Rightarrow> bool" where
  "clock_running s \<longleftrightarrow>
     wgm_field s = wgm_value NORMAL \<and> cs_field s = clock_select_value PRESCALER_64 \<and>
     irq_unmasked OVERFLOW_INTERRUPT s \<and> \<not> bit (PRR s) PRTIM0"

definition timer_regs :: "'z mcu_scheme \<Rightarrow> u8 \<times> u8 \<times> u8 \<times> u8" where
  "timer_regs s = (TCCR0A s, TCCR0B s, TIMSK0 s, PRR s)"

lemma clock_running_cong: "timer_regs s = timer_regs s' \<Longrightarrow> clock_running s = clock_running s'"
  by (simp add: clock_running_def timer_regs_def wgm_field_def cs_field_def irq_unmasked_def)

lemma timer_regs_simps [simp]:
  "timer_regs (put_task p t s) = timer_regs s" "timer_regs (poke a v s) = timer_regs s"
  "timer_regs (cli s) = timer_regs s" "timer_regs (s\<lparr>SREG := b\<rparr>) = timer_regs s"
  "timer_regs (s\<lparr>c_task := p\<rparr>) = timer_regs s" "timer_regs (s\<lparr>ready_list_head := p\<rparr>) = timer_regs s"
  by (simp_all add: timer_regs_def put_task_def poke_def cli_def)

lemma timer_regs_add_task: "add_task p s = ret s' \<Longrightarrow> timer_regs s' = timer_regs s"
  by (auto simp: add_task_def set_next_node_def obind_eq_ret split: if_splits)

lemma timer_regs_create_task:
  assumes "create_task p a n nm ms entry s = ret (err, s')"
  shows "timer_regs s' = timer_regs s"
proof (cases "strlen nm \<ge> CONF_TASK_NAME_MAX_LENGTH")
  case True
  then show ?thesis using assms by (auto simp: create_task_def obind_eq_ret Let_def)
next
  case False
  then obtain u v where uv: "add_task p u = ret v" "timer_regs u = timer_regs s"
    "s' = (if c_task v = nullptr then v\<lparr>c_task := get_head_task v\<rparr> else v)\<lparr>SREG := SREG s\<rparr>"
    using assms by (simp add: create_task_def obind_eq_ret Let_def) (metis timer_regs_simps(1,2,3))
  have "timer_regs s' = timer_regs v" unfolding uv(3) by simp
  then show ?thesis using timer_regs_add_task [OF uv(1)] uv(2) by simp
qed

lemma timer_regs_create_all: "create_all xs s = ret (err, s') \<Longrightarrow> timer_regs s' = timer_regs s"
  by (induction xs arbitrary: s)
    (auto simp: obind_eq_ret split: if_splits prod.splits dest!: timer_regs_create_task)

lemma clock_running_started:
  assumes "clock_running s" "tasks s (c_task s) = Some t" "start_scheduler s = ret s'"
  shows "clock_running s'"
proof -
  have "s' = do_ret (restored (kernel_init_timer s) t)"
    using kernel_start_eq [OF assms(2)] assms(3) by (simp add: start_scheduler_def)
  then show ?thesis
    using assms(1)
    by (simp add: clock_running_def wgm_field_def cs_field_def irq_unmasked_def restored_def do_ret_def pop_byte_def
        kernel_init_timer_def enable_timer0_interrupt_def Let_def cli_def bit_simps)
qed

section \<open>The whole start-up\<close>

lemma init_scheduler_kernel:
  "tasks (init_scheduler (build_config tx rx) s) = tasks s" "c_task (init_scheduler (build_config tx rx) s) = c_task s"
  "ready_list_head (init_scheduler (build_config tx rx) s) = ready_list_head s"
  "clock_running (init_scheduler (build_config tx rx) s)"
proof -
  let ?s = "s\<lparr>units := (units s)(0 := (units s 0)\<lparr>UBRRL := 0, UBRRH := 0, UCSRB := 0x98\<rparr>),
    stdout := uart0_io, stdin := uart0_io\<rparr>"
  have eq: "init_scheduler (build_config tx rx) s = initialize_clock ?s"
    by (simp add: init_scheduler_def initialize_uart_effect SREG_initialize_clock Let_def cli_def)
  have kern: "tasks (initialize_clock v) = tasks v" "c_task (initialize_clock v) = c_task v"
    "ready_list_head (initialize_clock v) = ready_list_head v" for v :: "'z console_scheme"
    by (simp_all add: initialize_clock_def timer_op_defs Let_def cli_def)
  show "tasks (init_scheduler (build_config tx rx) s) = tasks s"
    "c_task (init_scheduler (build_config tx rx) s) = c_task s"
    "ready_list_head (init_scheduler (build_config tx rx) s) = ready_list_head s"
    by (simp_all add: eq kern)
  show "clock_running (init_scheduler (build_config tx rx) s)"
    unfolding eq clock_running_def using initialize_clock_correct [of ?s OVERFLOW_INTERRUPT] by simp
qed

text \<open>
  C3: the system comes up, and every task starts at its entry point. With no task yet, \<open>init_scheduler\<close>, one \<open>create_task\<close>
  for each of any number of task objects (names that fit, stacks apart) and \<open>start_scheduler\<close> all succeed and leave a
  well-formed running system: the first task is at its entry point with the stack pointer at the last byte of its
  stack, interrupts enabled and room for a switch; the clock runs; the compare interrupt is unmasked and armed one
  time slice ahead. Whatever the tasks then do, within their own stacks, and however often they are switched, each other
  task is at its entry point, with its stack empty and interrupts enabled, when it is current for the first time.
\<close>

theorem system_boots:
  fixes s :: "'z console_scheme"
  assumes ok: "specs_ok stk (x # xs)" and empty: "ready_list_head s = nullptr" "c_task s = nullptr"
    and objects: "\<forall>y \<in> set (x # xs). tasks s (spec_task y) \<noteq> None"
  shows "\<exists>s1 s2. create_all (x # xs) (init_scheduler (build_config tx rx) s) = ret (False, s1)
    \<and> start_scheduler s1 = ret s2 \<and> system_ok stk (map spec_task (x # xs)) s2 \<and> entered x s2 \<and> stack_room stk s2
    \<and> clock_running s2 \<and> irq_unmasked COMPB_INTERRUPT s2 \<and> OCR0B s2 = 246 + TCNT0 s2
    \<and> (\<forall>y \<in> set xs. \<forall>w. others_run stk (map spec_task (x # xs)) (spec_task y) s2 w \<longrightarrow>
         system_ok stk (map spec_task (x # xs)) w \<and> (c_task w = spec_task y \<longrightarrow> entered y w))"
proof -
  let ?s = "init_scheduler (build_config tx rx) s"
  have "created [] ?s" using empty by (simp add: created_def init_scheduler_kernel)
  then obtain s1 where s1: "create_all (x # xs) ?s = ret (False, s1)" "created (x # xs) s1"
    using create_all_created [of stk "[]" "x # xs" ?s] ok objects by (auto simp: init_scheduler_kernel)
  obtain s2 where s2: "start_scheduler s1 = ret s2" "system_ok stk (map spec_task (x # xs)) s2" "entered x s2"
    "stack_room stk s2" "\<forall>y \<in> set xs. waiting y s2" "irq_unmasked COMPB_INTERRUPT s2" "OCR0B s2 = 246 + TCNT0 s2"
    using start_created [OF ok s1(2)] by blast
  have "clock_running s1"
    using clock_running_cong [OF timer_regs_create_all [OF s1(1)]] init_scheduler_kernel(4) by blast
  moreover obtain t where "tasks s1 (c_task s1) = Some t"
    using s1(2) ready_list_member [of s1 "map spec_task (x # xs)" "spec_task x"] by (auto simp: created_def)
  ultimately have clock: "clock_running s2" using clock_running_started s2(1) by blast
  have first: "system_ok stk (map spec_task (x # xs)) w \<and> (c_task w = spec_task y \<longrightarrow> entered y w)"
    if y: "y \<in> set xs" and w: "others_run stk (map spec_task (x # xs)) (spec_task y) s2 w" for y w
  proof -
    have "spec_task x \<notin> spec_task ` set xs" using ok by (simp add: specs_ok_def)
    then have "c_task s2 \<noteq> spec_task y" using s2(3) y by (auto simp: entered_def)
    then show ?thesis
      using others_run_first_turn [OF w s2(2)] s2(5) y specs_okD(3) [OF ok, of y] by simp
  qed
  show ?thesis using s1(1) s2 clock first by blast
qed

text \<open>Two tasks with stacks of 100 bytes, as in the test program.\<close>

definition two_specs :: "task_spec list" where
  "two_specs = [\<lparr>spec_task = 0x100, spec_stack = 0x200, spec_size = 100, spec_name = ''task_0'',
                  spec_slice = 1, spec_entry = 0x0ABC\<rparr>,
                \<lparr>spec_task = 0x180, spec_stack = 0x300, spec_size = 100, spec_name = ''task_1'',
                  spec_slice = 1, spec_entry = 0x0DEF\<rparr>]"

definition before_main :: console where
  "before_main = console_reset\<lparr>tasks := [0x100 \<mapsto> blank_task nullptr, 0x180 \<mapsto> blank_task nullptr]\<rparr>"

lemma system_boots_witness:
  "\<exists>s1 s2. create_all two_specs (init_scheduler (build_config 0x400 0x420) before_main) = ret (False, s1)
    \<and> start_scheduler s1 = ret s2 \<and> PC s2 = 0x0ABC \<and> SP s2 = 0x263 \<and> clock_running s2"
proof -
  let ?stk = "\<lambda>p. if p = 0x100 then {0x263, 0x262, 0x261, 0x260, 0x25F} else {0x363, 0x362, 0x361, 0x360, 0x35F :: ptr}"
  have ok: "specs_ok ?stk two_specs"
    by (simp add: specs_ok_def two_specs_def top_bytes_def stack_top_def strlen_def CONF_TASK_NAME_MAX_LENGTH_def)
  have empty: "ready_list_head before_main = nullptr" "c_task before_main = nullptr"
    by (simp_all add: before_main_def console_reset_def board_reset_def kernel_reset_def board.defs console.defs kernel.defs)
  have objects: "\<forall>y \<in> set two_specs. tasks before_main (spec_task y) \<noteq> None"
    by (simp add: two_specs_def before_main_def)
  have cons: "two_specs = hd two_specs # tl two_specs" by (simp add: two_specs_def)
  have top: "stack_top (hd two_specs) = 0x263" "spec_entry (hd two_specs) = 0x0ABC"
    by (simp_all add: two_specs_def stack_top_def)
  show ?thesis
    using system_boots [of ?stk "hd two_specs" "tl two_specs" before_main "0x400" "0x420", folded cons, OF ok empty objects]
    unfolding entered_def top by blast
qed

end
