(* ===== verification/Mutex.thy ===== *)
theory Mutex
  imports Preemption
begin

text \<open>
  The mutex of \<^verbatim>\<open>src/drivers/synchronization/mutex.h\<close> and \<^verbatim>\<open>mutex.cpp\<close>. Every operation
  masks interrupts, so what it does between two calls of \<open>yield\<close> is one atomic step.
  The operation \<open>mtx_lock\<close> may yield many times; \<open>ys k s\<close> is the state in which its \<open>k\<close>-th call of
  \<open>yield\<close>, made in state \<open>s\<close>, returns, after the other tasks ran, and \<^term>\<open>None\<close> if it never
  does. The last section lets any number of tasks use one mutex in any interleaving.
\<close>

section \<open>Data and operations\<close>

datatype mutex_errno_t =
  MUTEX_OK | MUTEX_FREE | MUTEX_LOCKED | MUTEX_ERR_ALREADY_LOCKED | MUTEX_ERR_NOT_OWNER

record mutex_t =
  owner :: ptr
  blocked_head :: ptr

record sync = kernel +
  mutexes :: "ptr \<Rightarrow> mutex_t"

definition set_owner :: "ptr \<Rightarrow> ptr \<Rightarrow> 'z sync_scheme \<Rightarrow> 'z sync_scheme" where
  "set_owner mtx p s = s\<lparr>mutexes := (mutexes s)(mtx := (mutexes s mtx)\<lparr>owner := p\<rparr>)\<rparr>"

definition mtx_init :: "ptr \<Rightarrow> 'z sync_scheme \<Rightarrow> 'z sync_scheme" where
  "mtx_init mtx s = s\<lparr>mutexes := (mutexes s)(mtx := \<lparr>owner = nullptr, blocked_head = nullptr\<rparr>)\<rparr>"

partial_function (option) mtx_lock_loop ::
  "(nat \<Rightarrow> 'z sync_scheme \<Rightarrow> 'z sync_scheme option) \<Rightarrow> nat \<Rightarrow> ptr \<Rightarrow> 'z sync_scheme \<Rightarrow>
   'z sync_scheme option" where
  "mtx_lock_loop ys k mtx s =
     (if owner (mutexes s mtx) \<noteq> nullptr
      then (case ys k s of
              None \<Rightarrow> None
            | Some s \<Rightarrow> mtx_lock_loop ys (Suc k) mtx (cli s))
      else Some s)"

definition mtx_lock ::
  "(nat \<Rightarrow> 'z sync_scheme \<Rightarrow> 'z sync_scheme option) \<Rightarrow> ptr \<Rightarrow> 'z sync_scheme \<Rightarrow>
   'z sync_scheme option" where
  "mtx_lock ys mtx s =
     (let saved = SREG s; s = cli s in
      if owner (mutexes s mtx) = c_task s then Some (s\<lparr>SREG := saved\<rparr>)
      else
        case mtx_lock_loop ys 0 mtx s of
          None \<Rightarrow> None
        | Some s \<Rightarrow> Some ((set_owner mtx (c_task s) s)\<lparr>SREG := saved\<rparr>))"

definition mtx_try_lock :: "ptr \<Rightarrow> 'z sync_scheme \<Rightarrow> mutex_errno_t \<times> 'z sync_scheme" where
  "mtx_try_lock mtx s =
     (let saved = SREG s; s = cli s in
      if owner (mutexes s mtx) \<noteq> nullptr then (MUTEX_ERR_ALREADY_LOCKED, s\<lparr>SREG := saved\<rparr>)
      else (MUTEX_OK, (set_owner mtx (c_task s) s)\<lparr>SREG := saved\<rparr>))"

definition mtx_release :: "ptr \<Rightarrow> 'z sync_scheme \<Rightarrow> mutex_errno_t \<times> 'z sync_scheme" where
  "mtx_release mtx s =
     (let saved = SREG s; s = cli s in
      if c_task s \<noteq> owner (mutexes s mtx) then (MUTEX_ERR_NOT_OWNER, s\<lparr>SREG := saved\<rparr>)
      else (MUTEX_OK, (set_owner mtx nullptr s)\<lparr>SREG := saved\<rparr>))"

section \<open>Lemmas\<close>

lemma sync_frame [simp]:
  "mutexes (cli s) = mutexes s" "mutexes (s\<lparr>SREG := x\<rparr>) = mutexes s"
  "c_task (s\<lparr>SREG := x\<rparr>) = c_task s"
  by (simp_all add: cli_def)

lemma set_owner_sels [simp]:
  "owner (mutexes (set_owner mtx p s) m) = (if m = mtx then p else owner (mutexes s m))"
  "c_task (set_owner mtx p s) = c_task s" "SREG (set_owner mtx p s) = SREG s"
  by (simp_all add: set_owner_def)

text \<open>The state in which the loop of \<open>mtx_lock\<close> tests the owner for the \<open>k\<close>-th time.\<close>

primrec after_yields ::
  "(nat \<Rightarrow> 'z sync_scheme \<Rightarrow> 'z sync_scheme option) \<Rightarrow> nat \<Rightarrow> nat \<Rightarrow> 'z sync_scheme \<Rightarrow>
   'z sync_scheme option" where
  "after_yields ys j 0 s = Some s"
| "after_yields ys j (Suc k) s =
     (case ys j s of None \<Rightarrow> None | Some x \<Rightarrow> after_yields ys (Suc j) k (cli x))"

lemma mtx_lock_loop_found:
  assumes "after_yields ys j k s = Some s'" "owner (mutexes s' mtx) = nullptr"
    and "\<And>i x. i < k \<Longrightarrow> after_yields ys j i s = Some x \<Longrightarrow> owner (mutexes x mtx) \<noteq> nullptr"
  shows "mtx_lock_loop ys j mtx s = Some s'"
  using assms
proof (induction k arbitrary: j s)
  case 0
  then show ?case by (subst mtx_lock_loop.simps) simp
next
  case (Suc k)
  then obtain x where x: "ys j s = Some x" "after_yields ys (Suc j) k (cli x) = Some s'"
    by (auto split: option.splits)
  have "owner (mutexes s mtx) \<noteq> nullptr" using Suc.prems(3) [of 0 s] by simp
  moreover have "mtx_lock_loop ys (Suc j) mtx (cli x) = Some s'"
    using Suc.IH [OF x(2) Suc.prems(2)] Suc.prems(3) [of "Suc i" for i] x(1) by auto
  ultimately show ?case using x(1) by (subst mtx_lock_loop.simps) simp
qed

text \<open>The loop returns only in a state in which it found the mutex free.\<close>

lemma mtx_lock_loop_returns:
  assumes "mtx_lock_loop ys j mtx s = Some s'"
  shows "\<exists>k. after_yields ys j k s = Some s' \<and> owner (mutexes s' mtx) = nullptr
    \<and> (\<forall>i < k. \<exists>x. after_yields ys j i s = Some x \<and> owner (mutexes x mtx) \<noteq> nullptr)"
proof (rule mtx_lock_loop.raw_induct [OF _ assms])
  fix loop ys j mtx s s'
  assume 1: "\<And>ys j mtx s s'. loop ys j mtx s = Some s' \<Longrightarrow>
      \<exists>k. after_yields ys j k s = Some s' \<and> owner (mutexes s' mtx) = nullptr
        \<and> (\<forall>i < k. \<exists>x. after_yields ys j i s = Some x \<and> owner (mutexes x mtx) \<noteq> nullptr)"
    "(if owner (mutexes s mtx) \<noteq> nullptr
      then case ys j s of None \<Rightarrow> None | Some s \<Rightarrow> loop ys (Suc j) mtx (cli s) else Some s) = Some s'"
  show "\<exists>k. after_yields ys j k s = Some s' \<and> owner (mutexes s' mtx) = nullptr
        \<and> (\<forall>i < k. \<exists>x. after_yields ys j i s = Some x \<and> owner (mutexes x mtx) \<noteq> nullptr)"
  proof (cases "owner (mutexes s mtx) = nullptr")
    case True
    then show ?thesis using 1(2) by (intro exI [of _ 0]) simp
  next
    case False
    then obtain x where x: "ys j s = Some x" "loop ys (Suc j) mtx (cli x) = Some s'"
      using 1(2) by (auto split: option.splits)
    then obtain k where k: "after_yields ys (Suc j) k (cli x) = Some s'" "owner (mutexes s' mtx) = nullptr"
      "\<forall>i < k. \<exists>y. after_yields ys (Suc j) i (cli x) = Some y \<and> owner (mutexes y mtx) \<noteq> nullptr"
      using 1(1) by meson
    show ?thesis
      using k x(1) False by (intro exI [of _ "Suc k"]) (auto simp: less_Suc_eq_0_disj)
  qed
qed

lemma mtx_lock_loop_iff:
  "mtx_lock_loop ys j mtx s = Some s' \<longleftrightarrow>
   (\<exists>k. after_yields ys j k s = Some s' \<and> owner (mutexes s' mtx) = nullptr
     \<and> (\<forall>i < k. \<exists>x. after_yields ys j i s = Some x \<and> owner (mutexes x mtx) \<noteq> nullptr))"
proof
  assume "\<exists>k. after_yields ys j k s = Some s' \<and> owner (mutexes s' mtx) = nullptr
     \<and> (\<forall>i < k. \<exists>x. after_yields ys j i s = Some x \<and> owner (mutexes x mtx) \<noteq> nullptr)"
  then obtain k where k: "after_yields ys j k s = Some s'" "owner (mutexes s' mtx) = nullptr"
    "\<forall>i < k. \<exists>x. after_yields ys j i s = Some x \<and> owner (mutexes x mtx) \<noteq> nullptr" by blast
  show "mtx_lock_loop ys j mtx s = Some s'"
  proof (rule mtx_lock_loop_found [OF k(1,2)])
    fix i x
    assume "i < k" "after_yields ys j i s = Some x"
    then show "owner (mutexes x mtx) \<noteq> nullptr" using k(3) by auto
  qed
qed (rule mtx_lock_loop_returns)

section \<open>The interface of a lock\<close>

text \<open>
  What a critical section relies on: once \<open>lock\<close> returns, the caller holds the lock; \<open>release\<close> by
  the holder frees it; neither touches the data \<open>rest\<close> that the lock does not consist of,
  if the lock was free. The client lemma runs a body between the two.
\<close>

locale lock_interface =
  fixes lock :: "'s \<Rightarrow> 's option"
    and release :: "'s \<Rightarrow> 's"
    and held :: "'s \<Rightarrow> bool"
    and free :: "'s \<Rightarrow> bool"
    and rest :: "'s \<Rightarrow> 'r"
  assumes lock_held: "lock s = Some s' \<Longrightarrow> held s'"
    and lock_free: "free s \<Longrightarrow> \<exists>s'. lock s = Some s' \<and> rest s' = rest s"
    and release_free: "held s \<Longrightarrow> free (release s) \<and> rest (release s) = rest s"
begin

definition locked :: "('s \<Rightarrow> ('a \<times> 's) outcome) \<Rightarrow> 's \<Rightarrow> ('a \<times> 's) outcome" where
  "locked body s =
     (case lock s of
        None \<Rightarrow> None
      | Some s \<Rightarrow> obind (body s) (\<lambda>(v, s). ret (v, release s)))"

lemma locked_section:
  assumes "lock s = Some x" and "body x = ret (v, y)" and "held y"
  shows "held x \<and> locked body s = ret (v, release y) \<and> free (release y) \<and> rest (release y) = rest y"
  using assms lock_held [OF assms(1)] release_free [OF assms(3)] by (simp add: locked_def)

end

definition mtx_held :: "ptr \<Rightarrow> 'z sync_scheme \<Rightarrow> bool" where
  "mtx_held mtx s \<longleftrightarrow> owner (mutexes s mtx) = c_task s"

definition mtx_free :: "ptr \<Rightarrow> 'z sync_scheme \<Rightarrow> bool" where
  "mtx_free mtx s \<longleftrightarrow> owner (mutexes s mtx) = nullptr"

definition without_mutex :: "ptr \<Rightarrow> 'z sync_scheme \<Rightarrow> 'z sync_scheme" where
  "without_mutex mtx s = set_owner mtx nullptr s"

lemma without_mutex_set_owner [simp]:
  "without_mutex mtx (set_owner mtx p s) = without_mutex mtx s"
  "without_mutex mtx (set_owner mtx p s\<lparr>SREG := x\<rparr>) = without_mutex mtx (s\<lparr>SREG := x\<rparr>)"
  by (simp_all add: without_mutex_def set_owner_def)

text \<open>All that \<open>mtx_lock\<close> does, in each case; it does not return if the mutex is never seen free.\<close>

lemma mtx_lock_cases:
  "mtx_lock ys mtx s = Some s' \<longleftrightarrow>
     (if mtx_held mtx s then s' = s
      else \<exists>k x. after_yields ys 0 k (cli s) = Some x \<and> mtx_free mtx x
        \<and> (\<forall>i < k. \<exists>y. after_yields ys 0 i (cli s) = Some y \<and> \<not> mtx_free mtx y)
        \<and> s' = (set_owner mtx (c_task x) x)\<lparr>SREG := SREG s\<rparr>)"
proof (cases "mtx_held mtx s")
  case True
  then show ?thesis by (auto simp: mtx_lock_def mtx_held_def Let_def)
next
  case False
  then have "mtx_lock ys mtx s = Some s' \<longleftrightarrow>
      (\<exists>x. mtx_lock_loop ys 0 mtx (cli s) = Some x \<and> s' = (set_owner mtx (c_task x) x)\<lparr>SREG := SREG s\<rparr>)"
    by (auto simp: mtx_lock_def mtx_held_def Let_def split: option.splits)
  also have "\<dots> \<longleftrightarrow> (\<exists>k x. after_yields ys 0 k (cli s) = Some x \<and> mtx_free mtx x
        \<and> (\<forall>i < k. \<exists>y. after_yields ys 0 i (cli s) = Some y \<and> \<not> mtx_free mtx y)
        \<and> s' = (set_owner mtx (c_task x) x)\<lparr>SREG := SREG s\<rparr>)"
    unfolding mtx_free_def mtx_lock_loop_iff by blast
  finally show ?thesis using False by simp
qed

interpretation mtx: lock_interface "mtx_lock ys m" "\<lambda>s. snd (mtx_release m s)" "mtx_held m" "mtx_free m" "without_mutex m"
  for ys m
proof
  fix s s' :: "'a sync_scheme"
  show "mtx_held m s'" if "mtx_lock ys m s = Some s'"
    using that by (auto simp: mtx_lock_cases mtx_held_def split: if_splits)
  show "\<exists>s'. mtx_lock ys m s = Some s' \<and> without_mutex m s' = without_mutex m s" if "mtx_free m s"
  proof (cases "mtx_held m s")
    case False
    have "mtx_lock ys m s = Some ((set_owner m (c_task s) (cli s))\<lparr>SREG := SREG s\<rparr>)"
      using False that by (subst mtx_lock_cases) (auto simp: mtx_free_def intro!: exI [of _ 0])
    then show ?thesis by simp
  qed (auto simp: mtx_lock_cases)
  show "mtx_free m (snd (mtx_release m s)) \<and> without_mutex m (snd (mtx_release m s)) = without_mutex m s"
    if "mtx_held m s"
    using that by (simp add: mtx_release_def mtx_held_def mtx_free_def Let_def)
qed

section \<open>Properties\<close>

text \<open>
  C19: what \<open>mtx_lock\<close> does, whatever the other tasks do while it waits. It returns at once if the
  current task owns the mutex. Otherwise it returns exactly if the mutex is free when it is first called or
  after some number of yields, it then owns the mutex and has the caller's SREG; it never returns if
  every state it wakes up in has an owner, or if one of its yields does not return.
\<close>

theorem mtx_lock_correct:
  "mtx_lock ys mtx s = Some s' \<longleftrightarrow>
     (if owner (mutexes s mtx) = c_task s then s' = s
      else \<exists>k x. after_yields ys 0 k (cli s) = Some x \<and> owner (mutexes x mtx) = nullptr
        \<and> (\<forall>i < k. \<exists>y. after_yields ys 0 i (cli s) = Some y \<and> owner (mutexes y mtx) \<noteq> nullptr)
        \<and> s' = (set_owner mtx (c_task x) x)\<lparr>SREG := SREG s\<rparr>)"
  using mtx_lock_cases [of ys mtx s s'] by (simp add: mtx_held_def mtx_free_def)

text \<open>
  Any number of tasks using one mutex. The second argument of \<open>mutex_run\<close> collects the tasks that are between
  an acquisition and the release: \<open>lock\<close> is a call of \<open>mtx_lock\<close> that need not wait, \<open>wake\<close> is a
  waiting call that finds the mutex free after its yield returned, and \<open>other\<close> is everything
  else, in particular a task switch.
\<close>

abbreviation no_yield :: "nat \<Rightarrow> 'z sync_scheme \<Rightarrow> 'z sync_scheme option" where
  "no_yield \<equiv> \<lambda>_ _. None"

inductive mutex_run :: "ptr \<Rightarrow> 'z sync_scheme \<Rightarrow> ptr set \<Rightarrow> bool" for mtx where
  init: "mutex_run mtx (mtx_init mtx s) {}"
| lock: "mutex_run mtx s H \<Longrightarrow> c_task s \<noteq> nullptr \<Longrightarrow> mtx_lock no_yield mtx s = Some s' \<Longrightarrow>
    mutex_run mtx s' (insert (c_task s) H)"
| wake: "mutex_run mtx s H \<Longrightarrow> c_task s \<noteq> nullptr \<Longrightarrow> mtx_lock_loop no_yield k mtx (cli s) = Some s' \<Longrightarrow>
    mutex_run mtx ((set_owner mtx (c_task s') s')\<lparr>SREG := sr\<rparr>) (insert (c_task s) H)"
| try_lock: "mutex_run mtx s H \<Longrightarrow> c_task s \<noteq> nullptr \<Longrightarrow> mtx_try_lock mtx s = (e, s') \<Longrightarrow>
    mutex_run mtx s' (if e = MUTEX_OK then insert (c_task s) H else H)"
| release: "mutex_run mtx s H \<Longrightarrow> c_task s \<noteq> nullptr \<Longrightarrow> mtx_release mtx s = (e, s') \<Longrightarrow>
    mutex_run mtx s' (if e = MUTEX_OK then H - {c_task s} else H)"
| other: "mutex_run mtx s H \<Longrightarrow> mutexes s' mtx = mutexes s mtx \<Longrightarrow> mutex_run mtx s' H"

lemma no_yield_lock:
  "mtx_lock no_yield mtx s =
     (if mtx_held mtx s then Some s
      else if mtx_free mtx s then Some ((set_owner mtx (c_task s) (cli s))\<lparr>SREG := SREG s\<rparr>) else None)"
  by (auto simp: mtx_lock_def mtx_held_def mtx_free_def Let_def mtx_lock_loop.simps)

lemma no_yield_loop:
  "mtx_lock_loop no_yield k mtx s = (if mtx_free mtx s then Some s else None)"
  by (subst mtx_lock_loop.simps) (simp add: mtx_free_def)

lemma mutex_run_holders:
  "mutex_run mtx s H \<Longrightarrow> H = (if owner (mutexes s mtx) = nullptr then {} else {owner (mutexes s mtx)})"
proof (induction rule: mutex_run.induct)
  case (lock s H s')
  then show ?case by (auto simp: no_yield_lock mtx_held_def mtx_free_def split: if_splits)
next
  case (wake s H k s' sr)
  then show ?case by (auto simp: no_yield_loop mtx_free_def split: if_splits)
next
  case (try_lock s H e s')
  then show ?case by (auto simp: mtx_try_lock_def Let_def split: if_splits)
next
  case (release s H e s')
  then show ?case by (auto simp: mtx_release_def Let_def split: if_splits)
qed (simp_all add: mtx_init_def)

text \<open>
  C4: mutual exclusion. However the calls of any number of tasks interleave, no two tasks are ever between
  an acquisition of the mutex and its release, and the mutex's owner field names the task that is.
\<close>

theorem mutual_exclusion:
  assumes "mutex_run mtx s H" "p \<in> H" "q \<in> H"
  shows "p = q \<and> owner (mutexes s mtx) = p"
  using mutex_run_holders [OF assms(1)] assms(2,3) by (simp split: if_splits)

definition sync_start :: sync where
  "sync_start = kernel.extend (kernel.truncate three_tasks) \<lparr>mutexes = \<lambda>_. \<lparr>owner = nullptr, blocked_head = nullptr\<rparr>\<rparr>"

lemma c_task_sync_start: "c_task sync_start = 0x200" "owner (mutexes sync_start m) = nullptr"
  by (simp_all add: sync_start_def kernel.extend_def kernel.truncate_def three_tasks_def)

lemma mtx_lock_correct_witness:
  "\<exists>s'. mtx_lock no_yield 0x700 sync_start = Some s' \<and> owner (mutexes s' 0x700) = 0x200"
proof -
  let ?s' = "set_owner 0x700 0x200 (cli sync_start)\<lparr>SREG := SREG sync_start\<rparr>"
  have "\<exists>k x. after_yields no_yield 0 k (cli sync_start) = Some x \<and> owner (mutexes x 0x700) = nullptr
      \<and> (\<forall>i < k. \<exists>y. after_yields no_yield 0 i (cli sync_start) = Some y \<and> owner (mutexes y 0x700) \<noteq> nullptr)
      \<and> ?s' = (set_owner 0x700 (c_task x) x)\<lparr>SREG := SREG sync_start\<rparr>"
    by (intro exI [of _ 0] exI [of _ "cli sync_start"]) (simp add: c_task_sync_start)
  then have "mtx_lock no_yield 0x700 sync_start = Some ?s'"
    by (subst mtx_lock_correct) (simp add: c_task_sync_start)
  then show ?thesis by simp
qed

lemma mutual_exclusion_witness:
  "\<exists>s :: sync. mutex_run 0x700 s {0x200} \<and> owner (mutexes s 0x700) = 0x200"
proof -
  let ?s = "mtx_init 0x700 sync_start"
  have c: "c_task ?s = 0x200" "owner (mutexes ?s 0x700) = nullptr"
    by (simp_all add: mtx_init_def c_task_sync_start)
  obtain s' where s': "mtx_lock no_yield 0x700 ?s = Some s'"
    using c by (simp add: no_yield_lock mtx_free_def mtx_held_def)
  have run: "mutex_run 0x700 s' {0x200}"
    using mutex_run.lock [OF mutex_run.init _ s'] c by simp
  then show ?thesis using mutual_exclusion [OF run, of "0x200" "0x200"] by auto
qed

end
