(* ===== verification/Fifo.thy ===== *)
theory Fifo
  imports Bounded_Queue "HOL-Library.Signed_Division"
begin

text \<open>
  The ring buffer \<open>fifo_t\<close> of \<^verbatim>\<open>src/drivers/data_types/fifo.h\<close>. \<open>int\<close> has 16 bits on the
  target: results are wrapped to that range. The buffer is the array the pointer names,
  \<^term>\<open>None\<close> for the null pointer; an index outside it is a fault, and so is a
  remainder by zero. The lemmas refine the ring buffer to a bounded queue.
\<close>

section \<open>Structure and operations\<close>

definition int16 :: "int \<Rightarrow> int" where
  "int16 i = signed_take_bit 15 i"

record 'a fifo_t =
  buffer :: "'a list option"
  fsize :: int
  fcount :: int
  fhead :: int
  ftail :: int

definition fifo_get_size :: "'a fifo_t \<Rightarrow> int" where
  "fifo_get_size f = fsize f"

definition fifo_get_used_size :: "'a fifo_t \<Rightarrow> int" where
  "fifo_get_used_size f = fcount f"

definition fifo_is_full :: "'a fifo_t \<Rightarrow> bool" where
  "fifo_is_full f \<longleftrightarrow> fifo_get_used_size f = fsize f"

definition increment_head :: "'a fifo_t \<Rightarrow> (bool \<times> 'a fifo_t) outcome" where
  "increment_head f =
     (if fifo_get_used_size f = fsize f then ret (True, f)
      else if fsize f = 0 then fail Div_by_zero
      else ret (False, f\<lparr>fhead := int16 (fhead f + 1) smod fsize f, fcount := int16 (fcount f + 1)\<rparr>))"

definition increment_tail :: "'a fifo_t \<Rightarrow> (bool \<times> 'a fifo_t) outcome" where
  "increment_tail f =
     (if fifo_get_used_size f = 0 then ret (True, f)
      else if fsize f = 0 then fail Div_by_zero
      else ret (False, f\<lparr>ftail := int16 (ftail f + 1) smod fsize f, fcount := int16 (fcount f - 1)\<rparr>))"

definition fifo_init :: "'a list option \<Rightarrow> nat \<Rightarrow> 'a fifo_t" where
  "fifo_init buf n = \<lparr>buffer = buf, fsize = int16 (int n), fcount = 0, fhead = 0, ftail = 0\<rparr>"

text \<open>Access to the array through the buffer pointer.\<close>

definition buf_read :: "'a fifo_t \<Rightarrow> int \<Rightarrow> 'a outcome" where
  "buf_read f i =
     (case buffer f of
        None \<Rightarrow> fail Null_deref
      | Some b \<Rightarrow> if 0 \<le> i \<and> i < int (length b) then ret (b ! nat i) else fail Out_of_bounds)"

definition buf_write :: "int \<Rightarrow> 'a \<Rightarrow> 'a fifo_t \<Rightarrow> 'a fifo_t outcome" where
  "buf_write i x f =
     (case buffer f of
        None \<Rightarrow> fail Null_deref
      | Some b \<Rightarrow> if 0 \<le> i \<and> i < int (length b) then ret (f\<lparr>buffer := Some (b[nat i := x])\<rparr>)
                  else fail Out_of_bounds)"

definition fifo_enqueue :: "'a \<Rightarrow> 'a fifo_t \<Rightarrow> (bool \<times> 'a fifo_t) outcome" where
  "fifo_enqueue item f =
     (if buffer f = None then ret (True, f)
      else if fifo_get_used_size f = fsize f then ret (True, f)
      else obind (buf_write (fhead f) item f) (\<lambda>f.
           obind (increment_head f) (\<lambda>(_, f). ret (False, f))))"

definition fifo_dequeue :: "'a fifo_t \<Rightarrow> ('a \<times> 'a fifo_t) outcome" where
  "fifo_dequeue f =
     (if fifo_get_used_size f = 0 then obind (buf_read f (ftail f)) (\<lambda>x. ret (x, f))
      else obind (buf_read f (ftail f)) (\<lambda>item.
           obind (increment_tail f) (\<lambda>(_, f). ret (item, f))))"

section \<open>Invariant and contents\<close>

definition fifo_ok :: "'a fifo_t \<Rightarrow> bool" where
  "fifo_ok f \<longleftrightarrow>
     (\<exists>b. buffer f = Some b \<and> fsize f \<le> int (length b)) \<and>
     0 < fsize f \<and> fsize f < 2 ^ 15 \<and> 0 \<le> ftail f \<and> ftail f < fsize f \<and>
     0 \<le> fcount f \<and> fcount f \<le> fsize f \<and> fhead f = (ftail f + fcount f) mod fsize f"

definition fifo_contents :: "'a fifo_t \<Rightarrow> 'a list" where
  "fifo_contents f =
     map (\<lambda>i. the (buffer f) ! nat ((ftail f + int i) mod fsize f)) [0..<nat (fcount f)]"

definition fifo_capacity :: "'a fifo_t \<Rightarrow> nat" where
  "fifo_capacity f = nat (fsize f)"

lemma length_fifo_contents [simp]: "length (fifo_contents f) = nat (fcount f)"
  by (simp add: fifo_contents_def)

lemma int16_id: "0 \<le> i \<Longrightarrow> i < 2 ^ 15 \<Longrightarrow> int16 i = i"
  unfolding int16_def by (subst signed_take_bit_int_eq_self_iff) simp

lemma smod_nonneg: "0 \<le> a \<Longrightarrow> 0 < b \<Longrightarrow> a smod b = (a mod b :: int)"
  by (simp add: signed_modulo_int_def sgn_if)

lemma fifo_init_ok:
  assumes "0 < n" "n < 2 ^ 15" "n \<le> length b"
  shows "fifo_ok (fifo_init (Some b) n)" "fifo_contents (fifo_init (Some b) n) = []"
    "fifo_capacity (fifo_init (Some b) n) = n"
  using assms by (simp_all add: fifo_ok_def fifo_init_def fifo_contents_def fifo_capacity_def int16_id)

lemma fifo_enqueue_free:
  assumes ok: "fifo_ok f" and free: "fcount f < fsize f"
  shows "\<exists>f'. fifo_enqueue x f = ret (False, f') \<and> fifo_ok f' \<and> fifo_contents f' = fifo_contents f @ [x]
    \<and> fsize f' = fsize f"
proof -
  obtain b where b: "buffer f = Some b" "fsize f \<le> int (length b)" using ok by (auto simp: fifo_ok_def)
  let ?n = "fsize f"
  have n: "0 < ?n" "?n < 2 ^ 15" "0 \<le> ftail f" "ftail f < ?n" "0 \<le> fcount f" "fcount f \<le> ?n"
    "fhead f = (ftail f + fcount f) mod ?n" using ok by (auto simp: fifo_ok_def)
  have h: "0 \<le> fhead f" "fhead f < ?n" using n by simp_all
  let ?f = "f\<lparr>buffer := Some (b[nat (fhead f) := x]), fhead := (fhead f + 1) mod ?n, fcount := fcount f + 1\<rparr>"
  have "fifo_enqueue x f = ret (False, ?f)"
    using b n(1-6) h free by (simp add: fifo_enqueue_def increment_head_def buf_write_def fifo_get_used_size_def
        int16_id smod_nonneg)
  moreover have "fifo_ok ?f"
    using b n free by (auto simp: fifo_ok_def mod_simps algebra_simps)
  moreover have "fifo_contents ?f = fifo_contents f @ [x]"
  proof -
    have other: "nat (fhead f) \<noteq> nat ((ftail f + int i) mod ?n)" if "i < nat (fcount f)" for i
    proof
      assume "nat (fhead f) = nat ((ftail f + int i) mod ?n)"
      then have "(ftail f + fcount f) mod ?n = (ftail f + int i) mod ?n"
        using n by (simp add: nat_eq_iff pos_mod_sign)
      then have "?n dvd fcount f - int i" by (simp add: mod_eq_dvd_iff algebra_simps)
      moreover have "int i < fcount f" using that by linarith
      ultimately show False using n free zdvd_imp_le [of ?n "fcount f - int i"] by auto
    qed
    have "nat (fcount f + 1) = Suc (nat (fcount f))" "int (nat (fcount f)) = fcount f" using n by simp_all
    moreover have "nat ((ftail f + fcount f) mod ?n) < length b" using h b(2) n(7) by linarith
    ultimately show ?thesis
      using b n other by (simp add: fifo_contents_def)
  qed
  ultimately show ?thesis by auto
qed

lemma fifo_dequeue_some:
  assumes ok: "fifo_ok f" and c: "fifo_contents f = x # xs"
  shows "\<exists>f'. fifo_dequeue f = ret (x, f') \<and> fifo_ok f' \<and> fifo_contents f' = xs \<and> fsize f' = fsize f"
proof -
  obtain b where b: "buffer f = Some b" "fsize f \<le> int (length b)" using ok by (auto simp: fifo_ok_def)
  let ?n = "fsize f"
  have n: "0 < ?n" "?n < 2 ^ 15" "0 \<le> ftail f" "ftail f < ?n" "fcount f \<le> ?n"
    "fhead f = (ftail f + fcount f) mod ?n" using ok by (auto simp: fifo_ok_def)
  have cnt: "0 < fcount f" using c by (cases "0 < fcount f") (simp_all add: fifo_contents_def)
  let ?f = "f\<lparr>ftail := (ftail f + 1) mod ?n, fcount := fcount f - 1\<rparr>"
  have "fifo_contents f = b ! nat (ftail f) # fifo_contents ?f"
  proof -
    have "[0..<nat (fcount f)] = 0 # map Suc [0..<nat (fcount f - 1)]"
      using cnt by (simp add: upt_conv_Cons map_Suc_upt nat_diff_distrib)
    then show ?thesis using n b by (simp add: fifo_contents_def mod_simps algebra_simps)
  qed
  then have x: "x = b ! nat (ftail f)" "xs = fifo_contents ?f" using c by simp_all
  have "fifo_dequeue f = ret (x, ?f)"
    using b n cnt x(1) by (simp add: fifo_dequeue_def increment_tail_def buf_read_def fifo_get_used_size_def
        int16_id smod_nonneg)
  moreover have "(ftail f + fcount f) mod ?n = ((ftail f + 1) mod ?n + (fcount f - 1)) mod ?n"
    by (simp add: mod_add_left_eq)
  then have "fifo_ok ?f"
    using b n cnt by (auto simp: fifo_ok_def)
  ultimately show ?thesis using x(2) by auto
qed

interpretation fifo: strict_queue fifo_ok fifo_contents fifo_capacity fifo_enqueue fifo_dequeue
proof
  fix f :: "'a fifo_t" and x :: 'a and xs
  assume ok: "fifo_ok f"
  show "\<exists>f'. fifo_enqueue x f = ret (False, f') \<and> fifo_ok f' \<and> fifo_contents f' = fifo_contents f @ [x]
      \<and> fifo_capacity f' = fifo_capacity f" if "length (fifo_contents f) < fifo_capacity f"
    using fifo_enqueue_free [OF ok, of x] that by (auto simp: fifo_capacity_def)
  show full: "fifo_enqueue x f = ret (True, f)" if "length (fifo_contents f) = fifo_capacity f"
    using that ok by (auto simp: fifo_enqueue_def fifo_get_used_size_def fifo_capacity_def fifo_ok_def)
  show "\<exists>f'. fifo_enqueue x f = ret (True, f') \<and> fifo_ok f' \<and> fifo_contents f' = fifo_contents f
      \<and> fifo_capacity f' = fifo_capacity f" if "length (fifo_contents f) = fifo_capacity f"
    using full [OF that] ok by simp
  show "\<exists>f'. fifo_dequeue f = ret (x, f') \<and> fifo_ok f' \<and> fifo_contents f' = xs
      \<and> fifo_capacity f' = fifo_capacity f" if "fifo_contents f = x # xs"
    using fifo_dequeue_some [OF ok that] by (auto simp: fifo_capacity_def)
  show "length (fifo_contents f) \<le> fifo_capacity f"
    using ok by (auto simp: fifo_capacity_def fifo_ok_def)
qed

lemma fifo_enqueue_spec:
  assumes ok: "fifo_ok f"
  shows "\<exists>full f1. fifo_enqueue x f = ret (full, f1) \<and> fifo_ok f1
      \<and> full = fifo_is_full f \<and> full = (length (fifo_contents f) = fifo_capacity f)
      \<and> fifo_contents f1 = (if full then fifo_contents f else fifo_contents f @ [x])"
proof -
  have full: "fifo_is_full f \<longleftrightarrow> length (fifo_contents f) = fifo_capacity f"
    using ok by (auto simp: fifo_is_full_def fifo_get_used_size_def fifo_capacity_def fifo_ok_def)
  show ?thesis
    using fifo.put_free [OF ok, of x] fifo.put_full [OF ok, of x] fifo.contents_le [OF ok] ok full
    by (cases "fifo_is_full f") auto
qed

lemma fifo_dequeue_spec:
  assumes ok: "fifo_ok f"
  shows "\<exists>y f2. fifo_dequeue f = ret (y, f2) \<and> fifo_ok f2
      \<and> (case fifo_contents f of [] \<Rightarrow> f2 = f | z # zs \<Rightarrow> y = z \<and> fifo_contents f2 = zs)"
proof (cases "fifo_contents f")
  case Nil
  then have "fcount f = 0" using ok by (auto simp: fifo_contents_def fifo_ok_def)
  then show ?thesis
    using ok Nil by (auto simp: fifo_dequeue_def fifo_get_used_size_def buf_read_def fifo_ok_def)
next
  case (Cons z zs)
  then show ?thesis using fifo.take_some [OF ok Cons] by auto
qed

section \<open>Properties\<close>

text \<open>
  C21: the ring buffer is a bounded queue. In a well-formed buffer, \<open>enqueue\<close> appends and reports
  success if fewer than \<open>size\<close> items are stored and otherwise reports that it is full and changes nothing;
  \<open>dequeue\<close> removes and returns the oldest item. On an empty buffer \<open>dequeue\<close> returns
  whatever byte the tail points at and changes nothing, which the caller cannot tell from an item.
  No operation faults, and the invariant is kept. So what is stored comes out first in, first out, across the wrap-around of the
  indices: storing a list that fits into an empty buffer and fetching as many items returns the list.
\<close>

theorem fifo_operations_correct:
  assumes ok: "fifo_ok f"
  shows "(\<exists>full f1. fifo_enqueue x f = ret (full, f1) \<and> fifo_ok f1
      \<and> full = fifo_is_full f \<and> full = (length (fifo_contents f) = fifo_capacity f)
      \<and> fifo_contents f1 = (if full then fifo_contents f else fifo_contents f @ [x]))
    \<and> (\<exists>y f2. fifo_dequeue f = ret (y, f2) \<and> fifo_ok f2
      \<and> (case fifo_contents f of [] \<Rightarrow> f2 = f | z # zs \<Rightarrow> y = z \<and> fifo_contents f2 = zs))
    \<and> (fifo_contents f = [] \<and> length xs \<le> fifo_capacity f \<longrightarrow>
        (\<exists>f3. obind (fifo.put_list xs f) (fifo.take_list (length xs)) = ret (xs, f3) \<and> fifo_ok f3 \<and> fifo_contents f3 = []))"
  using fifo_enqueue_spec [OF ok] fifo_dequeue_spec [OF ok] fifo.fifo_order [OF ok] by blast

definition small_fifo :: "u8 fifo_t" where
  "small_fifo = fifo_init (Some [0, 0, 0]) 3"

lemma small_fifo_ok: "fifo_ok small_fifo" "fifo_contents small_fifo = []" "fifo_capacity small_fifo = 3"
  unfolding small_fifo_def by (rule fifo_init_ok; simp)+

lemma fifo_operations_correct_witness:
  "(\<exists>f1. fifo_enqueue 7 small_fifo = ret (False, f1) \<and> fifo_contents f1 = [7])
   \<and> (\<exists>y. fifo_dequeue small_fifo = ret (y, small_fifo))
   \<and> (\<exists>f3. obind (fifo.put_list [1, 2, 3] small_fifo) (fifo.take_list (length [1, 2, 3 :: u8])) = ret ([1, 2, 3], f3))"
  using fifo_operations_correct [OF small_fifo_ok(1), of 7 "[1, 2, 3]"] by (auto simp: small_fifo_ok)

end
