(* ===== verification/Ipc_Fifo.thy ===== *)
theory Ipc_Fifo
  imports Mutex Fifo
begin

text \<open>
  The queue between tasks of \<^verbatim>\<open>src/drivers/ipc/ipc_fifo.h\<close>: a FIFO and the mutex that guards
  it. The object at address \<open>q\<close> has its FIFO in \<open>ipc_fifos s q\<close> and its mutex in
  \<open>mutexes s q\<close>. As for \<open>mtx_lock\<close>, \<open>ys\<close> says how the yields of a waiting call return.
\<close>

section \<open>Operations\<close>

record 'a ipc = sync +
  ipc_fifos :: "ptr \<Rightarrow> 'a fifo_t"

type_synonym ('a, 'z) yields = "nat \<Rightarrow> ('a, 'z) ipc_scheme \<Rightarrow> ('a, 'z) ipc_scheme option"

definition set_fifo :: "ptr \<Rightarrow> 'a fifo_t \<Rightarrow> ('a, 'z) ipc_scheme \<Rightarrow> ('a, 'z) ipc_scheme" where
  "set_fifo q f s = s\<lparr>ipc_fifos := (ipc_fifos s)(q := f)\<rparr>"

definition ipc_init :: "ptr \<Rightarrow> 'a list option \<Rightarrow> nat \<Rightarrow> ('a, 'z) ipc_scheme \<Rightarrow> ('a, 'z) ipc_scheme" where
  "ipc_init q buf sz s = mtx_init q (set_fifo q (fifo_init buf sz) s)"

definition ipc_get_size ::
  "('a, 'z) yields \<Rightarrow> ptr \<Rightarrow> ('a, 'z) ipc_scheme \<Rightarrow> (int \<times> ('a, 'z) ipc_scheme) outcome" where
  "ipc_get_size ys q s =
     (case mtx_lock ys q s of
        None \<Rightarrow> None
      | Some s \<Rightarrow>
          let sz = fifo_get_size (ipc_fifos s q); (_, s) = mtx_release q s
          in ret (sz, s))"

definition ipc_get_used_size ::
  "('a, 'z) yields \<Rightarrow> ptr \<Rightarrow> ('a, 'z) ipc_scheme \<Rightarrow> (int \<times> ('a, 'z) ipc_scheme) outcome" where
  "ipc_get_used_size ys q s =
     (case mtx_lock ys q s of
        None \<Rightarrow> None
      | Some s \<Rightarrow>
          let sz = fifo_get_used_size (ipc_fifos s q); (_, s) = mtx_release q s
          in ret (sz, s))"

definition ipc_is_full ::
  "('a, 'z) yields \<Rightarrow> ptr \<Rightarrow> ('a, 'z) ipc_scheme \<Rightarrow> (bool \<times> ('a, 'z) ipc_scheme) outcome" where
  "ipc_is_full ys q s =
     (case mtx_lock ys q s of
        None \<Rightarrow> None
      | Some s \<Rightarrow>
          let v = fifo_is_full (ipc_fifos s q); (_, s) = mtx_release q s
          in ret (v, s))"

definition ipc_enqueue ::
  "('a, 'z) yields \<Rightarrow> ptr \<Rightarrow> 'a \<Rightarrow> ('a, 'z) ipc_scheme \<Rightarrow> (bool \<times> ('a, 'z) ipc_scheme) outcome" where
  "ipc_enqueue ys q item s =
     (case mtx_lock ys q s of
        None \<Rightarrow> None
      | Some s \<Rightarrow>
          obind (fifo_enqueue item (ipc_fifos s q)) (\<lambda>(err, f).
          let (_, s) = mtx_release q (set_fifo q f s)
          in ret (err, s)))"

definition ipc_dequeue ::
  "('a, 'z) yields \<Rightarrow> ptr \<Rightarrow> ('a, 'z) ipc_scheme \<Rightarrow> ('a \<times> ('a, 'z) ipc_scheme) outcome" where
  "ipc_dequeue ys q s =
     (case mtx_lock ys q s of
        None \<Rightarrow> None
      | Some s \<Rightarrow>
          obind (fifo_dequeue (ipc_fifos s q)) (\<lambda>(item, f).
          let (_, s) = mtx_release q (set_fifo q f s)
          in ret (item, s)))"

section \<open>The operations as critical sections\<close>

definition on_fifo ::
  "ptr \<Rightarrow> ('a fifo_t \<Rightarrow> ('b \<times> 'a fifo_t) outcome) \<Rightarrow> ('a, 'z) ipc_scheme \<Rightarrow> ('b \<times> ('a, 'z) ipc_scheme) outcome" where
  "on_fifo q op s = obind (op (ipc_fifos s q)) (\<lambda>(v, f). ret (v, set_fifo q f s))"

lemma set_fifo_same [simp]: "set_fifo q (ipc_fifos s q) s = s"
  by (simp add: set_fifo_def)

lemma set_fifo_sels [simp]:
  "mutexes (set_fifo q f s) = mutexes s" "c_task (set_fifo q f s) = c_task s"
  "ipc_fifos (set_fifo q f s) = (ipc_fifos s)(q := f)"
  by (simp_all add: set_fifo_def)

lemma mtx_held_set_fifo [simp]: "mtx_held m (set_fifo q f s) = mtx_held m s"
  by (simp add: mtx_held_def)

lemma ipc_operations_locked:
  "ipc_get_size ys q s = mtx.locked ys q (on_fifo q (\<lambda>f. ret (fifo_get_size f, f))) s"
  "ipc_get_used_size ys q s = mtx.locked ys q (on_fifo q (\<lambda>f. ret (fifo_get_used_size f, f))) s"
  "ipc_is_full ys q s = mtx.locked ys q (on_fifo q (\<lambda>f. ret (fifo_is_full f, f))) s"
  "ipc_enqueue ys q item s = mtx.locked ys q (on_fifo q (fifo_enqueue item)) s"
  "ipc_dequeue ys q s = mtx.locked ys q (on_fifo q fifo_dequeue) s"
  by (simp_all add: ipc_get_size_def ipc_get_used_size_def ipc_is_full_def ipc_enqueue_def ipc_dequeue_def
      mtx.locked_def on_fifo_def obind_assoc case_prod_beta' Let_def split: option.splits)

lemma without_mutex_fifos: "without_mutex m s = without_mutex m s' \<Longrightarrow> ipc_fifos s = ipc_fifos s'"
  by (metis (no_types, lifting) without_mutex_def set_owner_def ipc.select_convs(1) sync.update_convs(1) sync.surjective ipc.ext_inject ipc.surjective)

lemma mtx_release_fifos [simp]: "ipc_fifos (snd (mtx_release m s)) = ipc_fifos s"
  by (simp add: mtx_release_def set_owner_def cli_def Let_def)

text \<open>A call that gets the mutex applies the FIFO operation to the FIFO it finds then, and frees the mutex.\<close>

lemma ipc_section:
  assumes "mtx_lock ys q s = Some x" and "op (ipc_fifos x q) = ret (v, f)"
  shows "\<exists>s'. mtx.locked ys q (on_fifo q op) s = ret (v, s') \<and> mtx_free q s'
    \<and> ipc_fifos s' = (ipc_fifos x)(q := f)"
proof -
  have held: "mtx_held q x" using mtx.lock_held [OF assms(1)] .
  have body: "on_fifo q op x = ret (v, set_fifo q f x)" using assms(2) by (simp add: on_fifo_def)
  show ?thesis
    using mtx.locked_section [where body = "on_fifo q op", OF assms(1) body] held by auto
qed

section \<open>Properties\<close>

text \<open>
  C20: the operations of the shared queue. Whenever a call obtains the mutex, in a state whose FIFO is
  well-formed, it holds the mutex while it works, does to the FIFO what the sequential operation does,
  and returns with the mutex free: \<open>enqueue\<close> appends or reports a full queue, \<open>dequeue\<close> returns the
  oldest item, the queries return the size, the number of items and whether it is full.
\<close>

theorem ipc_operations_correct:
  assumes lock: "mtx_lock ys q s = Some x" and ok: "fifo_ok (ipc_fifos x q)"
  shows "mtx_held q x
    \<and> (\<exists>full s'. ipc_enqueue ys q item s = ret (full, s') \<and> mtx_free q s' \<and> fifo_ok (ipc_fifos s' q)
        \<and> full = (length (fifo_contents (ipc_fifos x q)) = fifo_capacity (ipc_fifos x q))
        \<and> fifo_contents (ipc_fifos s' q) =
            (if full then fifo_contents (ipc_fifos x q) else fifo_contents (ipc_fifos x q) @ [item]))
    \<and> (\<exists>y s'. ipc_dequeue ys q s = ret (y, s') \<and> mtx_free q s' \<and> fifo_ok (ipc_fifos s' q)
        \<and> (case fifo_contents (ipc_fifos x q) of
              [] \<Rightarrow> fifo_contents (ipc_fifos s' q) = []
            | z # zs \<Rightarrow> y = z \<and> fifo_contents (ipc_fifos s' q) = zs))
    \<and> (\<exists>s'. ipc_get_used_size ys q s = ret (int (length (fifo_contents (ipc_fifos x q))), s') \<and> mtx_free q s')
    \<and> (\<exists>s'. ipc_get_size ys q s = ret (int (fifo_capacity (ipc_fifos x q)), s') \<and> mtx_free q s')
    \<and> (\<exists>s'. ipc_is_full ys q s =
          ret (length (fifo_contents (ipc_fifos x q)) = fifo_capacity (ipc_fifos x q), s') \<and> mtx_free q s')"
proof (intro conjI)
  let ?f = "ipc_fifos x q"
  note sec = ipc_section [OF lock]
  show "mtx_held q x" using mtx.lock_held [OF lock] .
  obtain full f1 where e: "fifo_enqueue item ?f = ret (full, f1)" "fifo_ok f1"
    "full = fifo_is_full ?f" "full = (length (fifo_contents ?f) = fifo_capacity ?f)"
    "fifo_contents f1 = (if full then fifo_contents ?f else fifo_contents ?f @ [item])"
    using fifo_enqueue_spec [OF ok] by blast
  show "\<exists>full s'. ipc_enqueue ys q item s = ret (full, s') \<and> mtx_free q s' \<and> fifo_ok (ipc_fifos s' q)
        \<and> full = (length (fifo_contents ?f) = fifo_capacity ?f)
        \<and> fifo_contents (ipc_fifos s' q) = (if full then fifo_contents ?f else fifo_contents ?f @ [item])"
    using sec [of "fifo_enqueue item", OF e(1)] e(2,4,5) by (auto simp: ipc_operations_locked)
  obtain y f2 where d: "fifo_dequeue ?f = ret (y, f2)" "fifo_ok f2"
    "case fifo_contents ?f of [] \<Rightarrow> f2 = ?f | z # zs \<Rightarrow> y = z \<and> fifo_contents f2 = zs"
    using fifo_dequeue_spec [OF ok] by blast
  show "\<exists>y s'. ipc_dequeue ys q s = ret (y, s') \<and> mtx_free q s' \<and> fifo_ok (ipc_fifos s' q)
        \<and> (case fifo_contents ?f of [] \<Rightarrow> fifo_contents (ipc_fifos s' q) = []
            | z # zs \<Rightarrow> y = z \<and> fifo_contents (ipc_fifos s' q) = zs)"
    using sec [of fifo_dequeue, OF d(1)] d(2,3) by (auto simp: ipc_operations_locked split: list.splits)
  have sizes: "fifo_get_used_size ?f = int (length (fifo_contents ?f))" "fifo_get_size ?f = int (fifo_capacity ?f)"
    using ok by (auto simp: fifo_get_used_size_def fifo_get_size_def fifo_capacity_def fifo_ok_def)
  show "\<exists>s'. ipc_get_used_size ys q s = ret (int (length (fifo_contents ?f)), s') \<and> mtx_free q s'"
    using sec [of "\<lambda>f. ret (fifo_get_used_size f, f)", OF refl] sizes by (auto simp: ipc_operations_locked)
  show "\<exists>s'. ipc_get_size ys q s = ret (int (fifo_capacity ?f), s') \<and> mtx_free q s'"
    using sec [of "\<lambda>f. ret (fifo_get_size f, f)", OF refl] sizes by (auto simp: ipc_operations_locked)
  show "\<exists>s'. ipc_is_full ys q s = ret (length (fifo_contents ?f) = fifo_capacity ?f, s') \<and> mtx_free q s'"
    using sec [of "\<lambda>f. ret (fifo_is_full f, f)", OF refl] e(3,4) by (auto simp: ipc_operations_locked)
qed

definition ipc_start :: "u8 ipc" where
  "ipc_start = ipc_init 0x700 (Some [0, 0, 0]) 3 (sync.extend sync_start \<lparr>ipc_fifos = \<lambda>_. small_fifo\<rparr>)"

lemma ipc_operations_correct_witness:
  "\<exists>x s'. mtx_lock no_yield 0x700 ipc_start = Some x \<and> ipc_enqueue no_yield 0x700 5 ipc_start = ret (False, s')
    \<and> fifo_contents (ipc_fifos s' 0x700) = [5]"
proof -
  have f: "mtx_free 0x700 ipc_start" "ipc_fifos ipc_start 0x700 = small_fifo"
    by (simp_all add: ipc_start_def ipc_init_def mtx_init_def mtx_free_def set_fifo_def small_fifo_def)
  obtain x where x: "mtx_lock no_yield 0x700 ipc_start = Some x" "without_mutex 0x700 x = without_mutex 0x700 ipc_start"
    using mtx.lock_free [OF f(1)] by blast
  have "ipc_fifos x 0x700 = small_fifo" using without_mutex_fifos [OF x(2)] f(2) by simp
  then show ?thesis
    using ipc_operations_correct [OF x(1), of 5] x(1) small_fifo_ok by (auto simp: ipc_operations_locked)
qed

end
