(* ===== verification/Serial_Client.thy ===== *)
theory Serial_Client
  imports Usart_Instances
begin

text \<open>
  What a program may rely on when it prints through a serial unit while interrupts are served. The locale
  \<open>served_line\<close> states the interface: the environment of a waiting loop sends at least one waiting byte, loses none,
  and leaves alone what the program observes (\<open>keep\<close>). Its lemmas say that the blocking
  functions return and append exactly their bytes to the stream \<open>sent\<close> of the unit. The interpretation at the end
  discharges the laws for the data register empty interrupt of the driver.
\<close>

section \<open>The stream of a unit\<close>

definition sent :: "usart_config \<Rightarrow> nat \<Rightarrow> 'z board_scheme \<Rightarrow> u8 list" where
  "sent c n s = UDR_out (units s n) @ tx_contents c (units s n)"

text \<open>Two states of a unit with the same receive side.\<close>

definition same_rx :: "usart \<Rightarrow> usart \<Rightarrow> bool" where
  "same_rx u u' \<longleftrightarrow> rx_Head u' = rx_Head u \<and> rx_Tail u' = rx_Tail u \<and> rx_buffer u' = rx_buffer u"

lemma tx_full_iff:
  assumes "tx_ok c u"
  shows "tx_Tail u = (tx_Head u + 1) AND TX_BUFFER_MASK c \<longleftrightarrow> length (tx_contents c u) = TX_BUFFER_SIZE c - 1"
proof -
  have r: "ring_ok (buffer_bits (TX_BUFFER_SIZE c)) (tx_Head u) (tx_Tail u)"
    and sz: "size_ok (TX_BUFFER_SIZE c)" "2 ^ buffer_bits (TX_BUFFER_SIZE c) = TX_BUFFER_SIZE c"
    using assms by (auto simp: tx_ok_def size_ok_def)
  show ?thesis
    unfolding tx_contents_def and_TX_MASK [OF sz(1)] using ring_full [OF r, of "tx_buffer u"] sz(2) by auto
qed

lemma tx_empty_iff: "tx_ok c u \<Longrightarrow> tx_contents c u = [] \<longleftrightarrow> tx_Head u = tx_Tail u"
  using ring_items_Nil by (simp add: tx_ok_def tx_contents_def)

lemma putc_char_eq:
  assumes ok: "tx_ok c (units s n)" and opts: "\<not> SOFT_CTS c" "\<not> LF_TO_CRLF c"
    and w: "wait_tx_space env n ((tx_Head (units s n) + 1) AND TX_BUFFER_MASK c) s = Some t"
    and t: "tx_ok c (units t n)" "tx_Head (units t n) = tx_Head (units s n)"
      "tx_Tail (units t n) \<noteq> (tx_Head (units s n) + 1) AND TX_BUFFER_MASK c"
  shows "\<exists>x u'. uart_putc c (TX_BUFFER_MASK c) env n b s = ret (t\<lparr>SREG := x, units := (units t)(n := u')\<rparr>)
    \<and> tx_ok c u' \<and> UDR_out u' @ tx_contents c u' = sent c n t @ [b] \<and> same_rx (units t n) u'"
proof -
  let ?h = "(tx_Head (units s n) + 1) AND TX_BUFFER_MASK c"
  obtain r t' where p: "uart_putc_noblock c n b t = (r, t')" by fastforce
  have fast: "\<not> FAST_INSERTIONS c" using ok by (simp add: tx_ok_def)
  have r: "r" and t': "t' = atomic_restorestate (tx_publish c n ?h) (store_tx n ?h b t)"
    using p t(2,3) fast by (auto simp: uart_putc_noblock_eq uart_putc_noblock_C_def fast_insertion_C_def Let_def)
  have m: "(if TX_BUFFER_MASK c \<noteq> 0xFF then h AND TX_BUFFER_MASK c else h) = h AND TX_BUFFER_MASK c" for h
    by simp
  have "uart_putc c (TX_BUFFER_MASK c) env n b s
      = ret (t\<lparr>SREG := if NO_ABI_BREAKING c then SREG t else SREG (sei (cli t)), units := (units t)(n := units t' n)\<rparr>)"
    using w fast opts
    by (auto simp: uart_putc_def uart_putc_C_def uart_putc_asm_def uart_putc_char_C_def uart_putc_char_asm_def t'
        fast_insertion_C_def fast_insertion_asm_def m Let_def asm_element_address atomic_restorestate_def
        tx_publish_def store_tx_def set_UCSRB_def on_unit_def cli_def sei_def cts_clear_def)
  moreover have "same_rx (units t n) (units t' n)"
    by (simp add: t' atomic_restorestate_def tx_publish_def store_tx_def set_UCSRB_def on_unit_def cli_def cts_clear_def
        same_rx_def Let_def)
  ultimately show ?thesis
    using putc_noblock_queue(1,2,4) [OF t(1) p] r by (fastforce simp: sent_def)
qed

section \<open>Statements that print\<close>

text \<open>Statements one after the other.\<close>

primrec in_order :: "('s \<Rightarrow> 's outcome) list \<Rightarrow> 's \<Rightarrow> 's outcome" where
  "in_order [] s = ret s"
| "in_order (f # fs) s = obind (f s) (in_order fs)"

text \<open>A statement that returns and whose only visible effect is to append \<open>bs\<close> to the stream of the unit.\<close>

definition prints ::
  "usart_config \<Rightarrow> nat \<Rightarrow> ('z board_scheme \<Rightarrow> 'k) \<Rightarrow> ('z board_scheme \<Rightarrow> 'z board_scheme outcome) \<Rightarrow> u8 list \<Rightarrow> bool" where
  "prints c n keep f bs \<longleftrightarrow> (\<forall>s. tx_ok c (units s n) \<longrightarrow>
     (\<exists>s'. f s = ret s' \<and> tx_ok c (units s' n) \<and> sent c n s' = sent c n s @ bs \<and> keep s' = keep s))"

lemma printsE:
  assumes "prints c n keep f bs" "tx_ok c (units s n)"
  obtains s' where "f s = ret s'" "tx_ok c (units s' n)" "sent c n s' = sent c n s @ bs" "keep s' = keep s"
  using assms unfolding prints_def by blast

lemma prints_ret [intro]: "prints c n keep ret []"
  by (simp add: prints_def)

lemma prints_seq:
  assumes "prints c n keep f as" "prints c n keep g bs"
  shows "prints c n keep (\<lambda>s. obind (f s) g) (as @ bs)"
  unfolding prints_def
proof (intro allI impI)
  fix s :: "'a board_scheme"
  assume "tx_ok c (units s n)"
  with assms(1) obtain t where t: "f s = ret t" "tx_ok c (units t n)" "sent c n t = sent c n s @ as" "keep t = keep s"
    by (rule printsE)
  from assms(2) t(2) obtain u where "g t = ret u" "tx_ok c (units u n)" "sent c n u = sent c n t @ bs" "keep u = keep t"
    by (rule printsE)
  with t show "\<exists>s'. obind (f s) g = ret s' \<and> tx_ok c (units s' n) \<and> sent c n s' = sent c n s @ as @ bs \<and> keep s' = keep s"
    by simp
qed

text \<open>The same for a function with a result.\<close>

definition yields ::
  "usart_config \<Rightarrow> nat \<Rightarrow> ('z board_scheme \<Rightarrow> 'k) \<Rightarrow> ('z board_scheme \<Rightarrow> ('v \<times> 'z board_scheme) outcome) \<Rightarrow> 'v \<Rightarrow> u8 list \<Rightarrow> bool" where
  "yields c n keep f v bs \<longleftrightarrow> (\<forall>s. tx_ok c (units s n) \<longrightarrow>
     (\<exists>s'. f s = ret (v, s') \<and> tx_ok c (units s' n) \<and> sent c n s' = sent c n s @ bs \<and> keep s' = keep s))"

lemma yields_ret: "yields c n keep (\<lambda>s. ret (v, s)) v []"
  by (simp add: yields_def)

lemma prints_yields:
  assumes "prints c n keep f as" "yields c n keep g v bs"
  shows "yields c n keep (\<lambda>s. obind (f s) g) v (as @ bs)"
  using assms unfolding prints_def yields_def by (metis (no_types, lifting) append.assoc obind_ret)

lemma yields_bind:
  assumes "yields c n keep f v as" "yields c n keep (\<lambda>s. g (v, s)) w bs"
  shows "yields c n keep (\<lambda>s. obind (f s) g) w (as @ bs)"
  using assms unfolding yields_def by (metis (no_types, lifting) append.assoc obind_ret)

lemma yields_prints:
  assumes "yields c n keep f v as" "prints c n keep (\<lambda>s. g (v, s)) bs"
  shows "prints c n keep (\<lambda>s. obind (f s) g) (as @ bs)"
  using assms unfolding yields_def prints_def by (metis (no_types, lifting) append.assoc obind_ret)

lemma prints_in_order:
  assumes "list_all2 (prints c n keep) fs bss"
  shows "prints c n keep (in_order fs) (concat bss)"
  using assms
proof (induction rule: list_all2_induct)
  case Nil
  then show ?case by (simp add: prints_def)
next
  case (Cons f fs bs bss)
  then show ?case using prints_seq [of c n keep f bs "in_order fs" "concat bss"] by (simp add: prints_def)
qed

section \<open>The interface\<close>

locale served_line =
  fixes c :: usart_config and n :: nat and env :: "'z env" and keep :: "'z board_scheme \<Rightarrow> 'k"
  assumes no_cts: "\<not> SOFT_CTS c" and no_crlf: "\<not> LF_TO_CRLF c"
    and env_ok: "tx_ok c (units s n) \<Longrightarrow> tx_ok c (units (env s) n)"
    and env_sent: "tx_ok c (units s n) \<Longrightarrow> sent c n (env s) = sent c n s"
    and env_head: "tx_ok c (units s n) \<Longrightarrow> tx_Head (units (env s) n) = tx_Head (units s n)"
    and env_sends: "tx_ok c (units s n) \<Longrightarrow> tx_contents c (units s n) \<noteq> [] \<Longrightarrow>
      length (tx_contents c (units (env s) n)) < length (tx_contents c (units s n))"
    and env_keep: "keep (env s) = keep s"
    and keep_SREG: "keep (s\<lparr>SREG := x\<rparr>) = keep s"
    and keep_tx: "same_rx (units s n) u \<Longrightarrow> keep (s\<lparr>units := (units s)(n := u)\<rparr>) = keep s"
begin

lemma wait_returns:
  assumes ok: "tx_ok c (units s n)" and h: "h = (tx_Head (units s n) + 1) AND TX_BUFFER_MASK c"
  shows "\<exists>t. wait_tx_space env n h s = Some t \<and> tx_Tail (units t n) \<noteq> h \<and> tx_ok c (units t n)
    \<and> tx_Head (units t n) = tx_Head (units s n) \<and> sent c n t = sent c n s \<and> keep t = keep s"
proof (cases "tx_Tail (units s n) = h")
  case True
  then have full: "length (tx_contents c (units s n)) = TX_BUFFER_SIZE c - 1" using tx_full_iff [OF ok] h by simp
  moreover have "2 \<le> TX_BUFFER_SIZE c" using ok by (simp add: tx_ok_def size_ok_def)
  ultimately have "tx_contents c (units s n) \<noteq> []" by (metis One_nat_def Suc_1 diff_is_0_eq list.size(3) not_less_eq_eq)
  then have "tx_Tail (units (env s) n) \<noteq> h"
    using tx_full_iff [OF env_ok [OF ok]] env_sends [OF ok] env_head [OF ok] full h by auto
  then have "wait_tx_space env n h s = Some (env s)"
    using True by (simp add: wait_tx_space.simps)
  then show ?thesis
    using env_ok [OF ok] env_sent [OF ok] env_head [OF ok] env_keep \<open>tx_Tail (units (env s) n) \<noteq> h\<close> by simp
next
  case False
  then show ?thesis using ok by (simp add: wait_tx_space.simps)
qed

lemma putc_prints [intro]: "prints c n keep (uart_putc c (TX_BUFFER_MASK c) env n b) [b]"
  unfolding prints_def
proof (intro allI impI)
  fix s :: "'z board_scheme"
  assume ok: "tx_ok c (units s n)"
  obtain t where t: "wait_tx_space env n ((tx_Head (units s n) + 1) AND TX_BUFFER_MASK c) s = Some t"
    "tx_Tail (units t n) \<noteq> (tx_Head (units s n) + 1) AND TX_BUFFER_MASK c" "tx_ok c (units t n)"
    "tx_Head (units t n) = tx_Head (units s n)" "sent c n t = sent c n s" "keep t = keep s"
    using wait_returns [OF ok refl] by blast
  obtain x u' where u: "uart_putc c (TX_BUFFER_MASK c) env n b s = ret (t\<lparr>SREG := x, units := (units t)(n := u')\<rparr>)"
    "tx_ok c u'" "UDR_out u' @ tx_contents c u' = sent c n t @ [b]" "same_rx (units t n) u'"
    using putc_char_eq [OF ok no_cts no_crlf t(1,3,4,2)] by blast
  have "keep (t\<lparr>SREG := x, units := (units t)(n := u')\<rparr>) = keep s"
    using keep_tx [of "t\<lparr>SREG := x\<rparr>" u'] keep_SREG u(4) t(6) by simp
  then show "\<exists>s'. uart_putc c (TX_BUFFER_MASK c) env n b s = ret s' \<and> tx_ok c (units s' n)
      \<and> sent c n s' = sent c n s @ [b] \<and> keep s' = keep s"
    using u t(5) by (simp add: sent_def)
qed

lemma putstr_prints:
  "0 \<notin> set bs \<Longrightarrow> prints c n keep (uart_putstr (uart_putc c (TX_BUFFER_MASK c) env n) (bs @ 0 # rest)) bs"
proof (induction bs)
  case Nil
  then show ?case by (simp add: prints_def)
next
  case (Cons b bs)
  then have "uart_putstr (uart_putc c (TX_BUFFER_MASK c) env n) ((b # bs) @ 0 # rest)
      = (\<lambda>s. obind (uart_putc c (TX_BUFFER_MASK c) env n b s) (uart_putstr (uart_putc c (TX_BUFFER_MASK c) env n) (bs @ 0 # rest)))"
    by (intro ext) auto
  then show ?case using prints_seq [OF putc_prints Cons.IH] Cons.prems by simp
qed

lemma puthex_prints:
  "prints c n keep (uart_puthex c (uart_putc c (TX_BUFFER_MASK c) env n) d) [hex_char c (drop_bit 4 d), hex_char c (d AND 0x0F)]"
  using prints_seq [OF putc_prints putc_prints, of "hex_char c (drop_bit 4 d)" "hex_char c (d AND 0x0F)"]
  by (simp add: prints_def puthex_digits [THEN conjunct1])

end

section \<open>The driver's interrupt serves the line\<close>

lemma udre_fires_frame:
  obtains x m u where "udre_fires c n v flags s = s\<lparr>SREG := x, SRAM := m, units := (units s)(n := u)\<rparr>" "same_rx (units s n) u"
proof (cases "bit (UCSRB (units s n)) UDRIE_BIT")
  case True
  obtain m where "ISR_UDRE c n flags (irq_enter v s)
      = s\<lparr>SREG := SREG s OR 0x80, SRAM := m, units := (units s)(n := ISR_TX_C c (units s n))\<rparr>"
    using ISR_UDRE_frame [of c n flags v s] by blast
  moreover have "same_rx (units s n) (ISR_TX_C c (units s n))" by (simp add: same_rx_def ISR_TX_C_def Let_def)
  ultimately show ?thesis using that True by (simp add: udre_fires_def)
next
  case False
  then show ?thesis by (intro that [where x = "SREG s" and m = "SRAM s" and u = "units s n"]) (simp_all add: udre_fires_def same_rx_def)
qed

lemma udre_fires_sends:
  assumes ok: "tx_ok c (units s n)" and cts: "\<not> SOFT_CTS c"
  shows "tx_ok c (units (udre_fires c n v flags s) n)" "sent c n (udre_fires c n v flags s) = sent c n s"
    "tx_Head (units (udre_fires c n v flags s) n) = tx_Head (units s n)"
    "tx_contents c (units s n) \<noteq> [] \<Longrightarrow>
     length (tx_contents c (units (udre_fires c n v flags s) n)) < length (tx_contents c (units s n))"
proof -
  have irq: "bit (UCSRB (units s n)) UDRIE_BIT \<longleftrightarrow> tx_contents c (units s n) \<noteq> []"
    using ok cts tx_empty_iff [OF ok] unfolding tx_ok_def by auto
  have "tx_ok c (units (udre_fires c n v flags s) n) \<and> sent c n (udre_fires c n v flags s) = sent c n s
    \<and> tx_Head (units (udre_fires c n v flags s) n) = tx_Head (units s n)
    \<and> (tx_contents c (units s n) \<noteq> [] \<longrightarrow>
       length (tx_contents c (units (udre_fires c n v flags s) n)) < length (tx_contents c (units s n)))"
  proof (cases "tx_contents c (units s n)")
    case Nil
    then show ?thesis using irq ok by (simp add: udre_fires_def)
  next
    case (Cons x xs)
    then show ?thesis
      using irq ISR_TX_C_queue [OF ok Cons] by (simp add: udre_fires_def udre_unit sent_def) (simp add: ISR_TX_C_def Let_def)
  qed
  then show "tx_ok c (units (udre_fires c n v flags s) n)" "sent c n (udre_fires c n v flags s) = sent c n s"
    "tx_Head (units (udre_fires c n v flags s) n) = tx_Head (units s n)"
    "tx_contents c (units s n) \<noteq> [] \<Longrightarrow>
     length (tx_contents c (units (udre_fires c n v flags s) n)) < length (tx_contents c (units s n))"
    by blast+
qed

text \<open>What transmission leaves alone: registers, tasks, received bytes and every extension of the state.\<close>

definition beside_tx where
  "beside_tx n s = (R s, SP s, PC s, c_task s, tasks s, ready_list_head s,
     rx_Head (units s n), rx_Tail (units s n), rx_buffer (units s n), board.more s)"

lemma beside_tx_udre [simp]: "beside_tx n (udre_fires c n v flags s) = beside_tx n s"
  by (rule udre_fires_frame [of c n v flags s]) (simp add: beside_tx_def same_rx_def)

lemma beside_tx_update [simp]:
  "beside_tx n (s\<lparr>SREG := x\<rparr>) = beside_tx n s"
  "same_rx (units s n) u \<Longrightarrow> beside_tx n (s\<lparr>units := (units s)(n := u)\<rparr>) = beside_tx n s"
  by (simp_all add: beside_tx_def same_rx_def)

lemma served_by_udre:
  assumes "\<not> SOFT_CTS c" "\<not> LF_TO_CRLF c"
  shows "served_line c n (udre_fires c n v flags) (beside_tx n)"
  using assms by unfold_locales (simp_all add: udre_fires_sends)

interpretation console: served_line "build_config tx rx" n "udre_fires (build_config tx rx) n v flags" "beside_tx n"
  for tx rx n v flags
  by (rule served_by_udre) (simp_all add: build_config_def)

end
