(* ===== verification/Xmodem_Packet.thy ===== *)
theory Xmodem_Packet
  imports Prelude
begin

text \<open>
  The packets of the XMODEM receiver in \<^verbatim>\<open>lib/AVR-UART-LIB/example(xmodem).c\<close>: checksum, cyclic redundancy
  check and \<open>validate_packet\<close>. A packet that a sender builds is accepted exactly once, and a packet with one wrong byte
  is refused, whichever byte it is.
\<close>

section \<open>Definitions\<close>

abbreviation (input) SOH :: u8 where "SOH \<equiv> 0x01"
abbreviation (input) EOT :: u8 where "EOT \<equiv> 0x04"
abbreviation (input) ACK :: u8 where "ACK \<equiv> 0x06"
abbreviation (input) NACK :: u8 where "NACK \<equiv> 0x15"
abbreviation (input) CAN :: u8 where "CAN \<equiv> 0x18"

abbreviation (input) bad_packet :: u8 where "bad_packet \<equiv> 0x00"
abbreviation (input) good_packet :: u8 where "good_packet \<equiv> 0x01"
abbreviation (input) duplicate :: u8 where "duplicate \<equiv> 0x02"

text \<open>\<open>_crc_xmodem_update\<close> of \<^verbatim>\<open>util/crc16.h\<close>: the byte enters at the top, then eight shifts.\<close>

definition crc_shift :: "u16 \<Rightarrow> u16" where
  "crc_shift crc = (if crc AND 0x8000 \<noteq> 0 then push_bit 1 crc XOR 0x1021 else push_bit 1 crc)"

definition crc_xmodem_update :: "u16 \<Rightarrow> u8 \<Rightarrow> u16" where
  "crc_xmodem_update crc data = (crc_shift ^^ 8) (crc XOR push_bit 8 (ucast data))"

text \<open>\<open>while (size--)\<close> over the array from the pointer on; reading past its end is a fault.\<close>

primrec calcrc_loop :: "u8 list \<Rightarrow> u8 \<Rightarrow> u16 \<Rightarrow> u16 outcome" where
  "calcrc_loop [] sz crc = (if sz = 0 then ret crc else fail Out_of_bounds)"
| "calcrc_loop (b # bufptr) sz crc =
     (if sz = 0 then ret crc else calcrc_loop bufptr (sz - 1) (crc_xmodem_update crc b))"

definition calcrc :: "u8 list \<Rightarrow> u8 \<Rightarrow> u16 outcome" where
  "calcrc bufptr sz = calcrc_loop bufptr sz 0"

primrec calchecksum_loop :: "u8 list \<Rightarrow> u8 \<Rightarrow> u8 \<Rightarrow> u8 outcome" where
  "calchecksum_loop [] sz cksum = (if sz = 0 then ret cksum else fail Out_of_bounds)"
| "calchecksum_loop (b # bufptr) sz cksum =
     (if sz = 0 then ret cksum else calchecksum_loop bufptr (sz - 1) (cksum + b))"

definition calchecksum :: "u8 list \<Rightarrow> u8 \<Rightarrow> u8 outcome" where
  "calchecksum bufptr sz = calchecksum_loop bufptr sz 0"

text \<open>
  The array has 133 bytes. The sum of the number and its complement is computed in 16 bits; the result is the status
  and the number of the last packet.
\<close>

definition validate_packet :: "u8 list \<Rightarrow> u8 \<Rightarrow> u8 \<Rightarrow> (u8 \<times> u8) outcome" where
  "validate_packet bufptr packet_number fallback =
     (if bufptr ! 0 \<noteq> SOH then ret (bad_packet, packet_number)
      else if (ucast (bufptr ! 1) + ucast (bufptr ! 2) :: u16) \<noteq> 0xFF then ret (bad_packet, packet_number)
      else if bufptr ! 1 = packet_number then ret (duplicate, packet_number)
      else if (ucast (bufptr ! 1) :: u16) \<noteq> (ucast packet_number + 1) AND 0xFF then ret (bad_packet, packet_number)
      else
        obind (if fallback \<noteq> 0
               then obind (calchecksum (drop 3 bufptr) 128) (\<lambda>cksum. ret (bufptr ! 131 = cksum))
               else obind (calcrc (drop 3 bufptr) 128) (\<lambda>crc. ret (bufptr ! 131 = hi8 crc \<and> bufptr ! 132 = lo8 crc)))
        (\<lambda>valid. if valid then ret (good_packet, packet_number + 1) else ret (bad_packet, packet_number)))"

section \<open>The packets of a sender\<close>

definition block_crc :: "u8 list \<Rightarrow> u16" where
  "block_crc xs = foldl crc_xmodem_update 0 xs"

definition block_checksum :: "u8 list \<Rightarrow> u8" where
  "block_checksum xs = foldl (+) 0 xs"

text \<open>What a sender puts on the line for block number \<open>k\<close>; the second case is the mode with a checksum.\<close>

definition packet :: "bool \<Rightarrow> u8 \<Rightarrow> u8 list \<Rightarrow> u8 list" where
  "packet cksum k xs = [SOH, k, 255 - k] @ xs @ (if cksum then [block_checksum xs] else [hi8 (block_crc xs), lo8 (block_crc xs)])"

section \<open>Checksums\<close>

lemma calcrc_loop_eq: "unat sz \<le> length xs \<Longrightarrow> calcrc_loop xs sz crc = ret (foldl crc_xmodem_update crc (take (unat sz) xs))"
proof (induction xs arbitrary: sz crc)
  case (Cons x xs)
  show ?case
  proof (cases "sz = 0")
    case False
    then have "unat sz = Suc (unat (sz - 1))" by (simp add: unat_minus_one unat_gt_0)
    then show ?thesis using Cons.IH [of "sz - 1"] Cons.prems False by simp
  qed simp
qed (simp add: unat_eq_zero)

lemma calchecksum_loop_eq: "unat sz \<le> length xs \<Longrightarrow> calchecksum_loop xs sz a = ret (foldl (+) a (take (unat sz) xs))"
proof (induction xs arbitrary: sz a)
  case (Cons x xs)
  show ?case
  proof (cases "sz = 0")
    case False
    then have "unat sz = Suc (unat (sz - 1))" by (simp add: unat_minus_one unat_gt_0)
    then show ?thesis using Cons.IH [of "sz - 1"] Cons.prems False by simp
  qed simp
qed (simp add: unat_eq_zero)

lemma calcrc_eq: "128 \<le> length xs \<Longrightarrow> calcrc xs 128 = ret (block_crc (take 128 xs))"
  using calcrc_loop_eq [of 128 xs 0] by (simp add: calcrc_def block_crc_def)

lemma calchecksum_eq: "128 \<le> length xs \<Longrightarrow> calchecksum xs 128 = ret (block_checksum (take 128 xs))"
  using calchecksum_loop_eq [of 128 xs 0] by (simp add: calchecksum_def block_checksum_def)

text \<open>A check that is injective in its state and in the byte notices a single wrong byte.\<close>

lemma foldl_inj:
  assumes "\<And>b. inj (\<lambda>a. f a b)"
  shows "inj (\<lambda>a. foldl f a xs)"
proof (induction xs)
  case (Cons x xs)
  then show ?case using inj_compose [OF Cons.IH assms [of x]] by (simp add: comp_def)
qed simp

lemma foldl_update_neq:
  assumes "\<And>b. inj (\<lambda>a. f a b)" "\<And>a. inj (f a)" "i < length xs" "x \<noteq> xs ! i"
  shows "foldl f a (xs[i := x]) \<noteq> foldl f a xs"
  using assms(3,4)
proof (induction xs arbitrary: i a)
  case (Cons y ys)
  show ?case
  proof (cases i)
    case 0
    then have "f a x \<noteq> f a y" using injD [OF assms(2) [of a], of x y] Cons.prems by auto
    then show ?thesis using injD [OF foldl_inj [of f ys], OF assms(1)] 0 by auto
  next
    case (Suc j)
    then show ?thesis using Cons by simp
  qed
qed simp

lemma xor_cancel: "a XOR d = b XOR d \<longleftrightarrow> a = b" "d XOR a = d XOR b \<longleftrightarrow> a = b" for a b d :: u16
proof -
  have inv: "(w XOR d) XOR d = w" for w :: u16 by (simp add: xor.assoc)
  show "a XOR d = b XOR d \<longleftrightarrow> a = b" by (rule iffI, drule arg_cong [of _ _ "\<lambda>w. w XOR d"]) (simp_all only: inv)
  then show "d XOR a = d XOR b \<longleftrightarrow> a = b" by (simp add: xor.commute)
qed

lemma inj_crc_shift: "inj crc_shift"
proof (rule injI)
  fix a b :: u16
  assume eq: "crc_shift a = crc_shift b"
  have top: "w AND 0x8000 \<noteq> 0 \<longleftrightarrow> bit w 15" for w :: u16
  proof -
    have "(0x8000 :: u16) = push_bit 15 1" by simp
    then show ?thesis by (metis and_exp_eq_0_iff_not_bit push_bit_of_1)
  qed
  have low: "bit (crc_shift w) 0 \<longleftrightarrow> bit w 15" for w
    unfolding crc_shift_def top by (cases "bit w 15") (simp_all only: if_True if_False bit_xor_iff bit_push_bit_iff, simp_all)
  then have t: "bit a 15 = bit b 15" using eq by metis
  then have "push_bit 1 a = push_bit 1 b"
    using eq unfolding crc_shift_def top by (simp add: xor_cancel split: if_splits)
  then have "bit (push_bit 1 a) (Suc n) = bit (push_bit 1 b) (Suc n)" for n by simp
  then have "bit a n = bit b n" if "n < 15" for n using that unfolding bit_push_bit_iff by auto
  moreover have "n < 15 \<or> n = 15" if "n < LENGTH(16)" for n using that by auto
  ultimately show "a = b" using t by (intro bit_word_eqI) blast
qed

lemma crc_xmodem_update_inj: "inj (\<lambda>crc. crc_xmodem_update crc b)" "inj (crc_xmodem_update crc)"
proof -
  have i: "inj (crc_shift ^^ 8)" using inj_crc_shift by (rule inj_fn)
  have "inj (\<lambda>a. a XOR d)" for d :: u16 by (rule injI) (simp add: xor_cancel)
  then show "inj (\<lambda>crc. crc_xmodem_update crc b)"
    using inj_compose [OF i, of "\<lambda>a. a XOR push_bit 8 (ucast b)"] by (simp add: crc_xmodem_update_def comp_def)
  have "inj (\<lambda>d. crc XOR push_bit 8 (ucast (d :: u8)))"
  proof (rule injI)
    fix x y :: u8
    assume "crc XOR push_bit 8 (ucast x) = crc XOR push_bit 8 (ucast y)"
    then have "push_bit 8 (ucast x) = (push_bit 8 (ucast y) :: u16)" by (simp only: xor_cancel)
    then have "hi8 (push_bit 8 (ucast x)) = hi8 (push_bit 8 (ucast y))" by simp
    moreover have "hi8 (push_bit 8 (ucast z)) = z" for z :: u8 by (rule bit_word_eqI) (simp add: hi8_def bit_simps)
    ultimately show "x = y" by simp
  qed
  then show "inj (crc_xmodem_update crc)"
    using inj_compose [OF i, of "\<lambda>d. crc XOR push_bit 8 (ucast d)"] by (simp add: crc_xmodem_update_def [abs_def] comp_def)
qed

lemma block_crc_update: "i < length xs \<Longrightarrow> x \<noteq> xs ! i \<Longrightarrow> block_crc (xs[i := x]) \<noteq> block_crc xs"
  unfolding block_crc_def by (rule foldl_update_neq) (auto intro: crc_xmodem_update_inj)

lemma block_checksum_update: "i < length xs \<Longrightarrow> x \<noteq> xs ! i \<Longrightarrow> block_checksum (xs[i := x]) \<noteq> block_checksum xs"
  unfolding block_checksum_def by (rule foldl_update_neq) (auto intro: injI)

section \<open>Validation\<close>

lemma ucast_u8_inject: "(ucast a :: u16) = ucast b \<longleftrightarrow> a = b" for a b :: u8
  by (metis uint_ucast_u8 word_uint_eq_iff)

lemma number_sum: "(ucast a + ucast b :: u16) = 0xFF \<longleftrightarrow> b = 255 - a" for a b :: u8
proof -
  have "\<not> 255 < a" using unat_u8_less [of a] by (simp add: word_less_nat_alt del: unat_u8_less)
  then have "(ucast (255 - a) :: u16) = 0xFF - ucast a" using ucast_minus_borrow [of 255 a] by simp
  moreover have "(ucast a + ucast b :: u16) = 0xFF \<longleftrightarrow> ucast b = (0xFF :: u16) - ucast a" by (auto simp: algebra_simps)
  ultimately show ?thesis using ucast_u8_inject by metis
qed

lemma number_next: "(ucast a :: u16) = (ucast k + 1) AND 0xFF \<longleftrightarrow> a = k + 1" for a k :: u8
proof -
  have "(0xFF :: u16) = mask 8" by (simp add: mask_eq_exp_minus_1)
  then have "uint ((ucast k + 1 :: u16) AND 0xFF) = (uint k + 1) mod 65536 mod 256"
    by (simp only: take_bit_eq_mask [symmetric] unsigned_take_bit_eq) (simp add: uint_word_ariths take_bit_eq_mod)
  also have "\<dots> = uint (ucast (k + 1) :: u16)" by (simp add: uint_word_ariths mod_mod_cancel)
  finally show ?thesis using ucast_u8_inject by (metis word_uint_eq_iff)
qed

text \<open>The packet with its check, as \<open>validate_packet\<close> sees it.\<close>

definition check_ok :: "u8 \<Rightarrow> u8 list \<Rightarrow> bool" where
  "check_ok fallback p \<longleftrightarrow>
     (if fallback \<noteq> 0 then p ! 131 = block_checksum (take 128 (drop 3 p))
      else p ! 131 = hi8 (block_crc (take 128 (drop 3 p))) \<and> p ! 132 = lo8 (block_crc (take 128 (drop 3 p))))"

lemma validate_packet_eq:
  assumes "length p = 133"
  shows "validate_packet p k fallback =
    (if p ! 0 \<noteq> SOH \<or> p ! 2 \<noteq> 255 - p ! 1 then ret (bad_packet, k)
     else if p ! 1 = k then ret (duplicate, k)
     else if p ! 1 = k + 1 \<and> check_ok fallback p then ret (good_packet, k + 1)
     else ret (bad_packet, k))"
  using assms
  by (simp add: validate_packet_def number_sum number_next calcrc_eq calchecksum_eq check_ok_def)

text \<open>The checks notice a wrong byte of the data or of the check itself.\<close>

lemma check_notices:
  assumes p: "check_ok fallback p" "length p = 133"
    and i: "3 \<le> i" "i < (if fallback \<noteq> 0 then 132 else 133)" and x: "x \<noteq> p ! i"
  shows "\<not> check_ok fallback (p[i := x])"
proof (cases "i < 131")
  case True
  have "take 128 (drop 3 (p[i := x])) = (take 128 (drop 3 p))[i - 3 := x]"
    using i(1) True by (simp add: drop_update_swap take_update_swap)
  moreover have "i - 3 < length (take 128 (drop 3 p))" "x \<noteq> take 128 (drop 3 p) ! (i - 3)"
    using True i(1) p(2) x by simp_all
  ultimately have "block_crc (take 128 (drop 3 (p[i := x]))) \<noteq> block_crc (take 128 (drop 3 p))"
    "block_checksum (take 128 (drop 3 (p[i := x]))) \<noteq> block_checksum (take 128 (drop 3 p))"
    using block_crc_update block_checksum_update by metis+
  then show ?thesis using p(1) True by (auto simp: check_ok_def split: if_splits) (metis join16_split)
next
  case False
  have "take 128 (drop 3 (p[i := x])) = take 128 (drop 3 p)" using False by (simp add: drop_update_swap)
  moreover have "i = 131 \<or> i = 132" using False i(2) by (auto split: if_splits)
  ultimately show ?thesis using p i(2) x by (elim disjE) (auto simp: check_ok_def split: if_splits)
qed

text \<open>
  C28: A packet with one wrong byte is never taken for good: if the receiver accepts a packet, it answers every packet
  that differs from it in one byte (of the 133, or of the 132 that the checksum mode has) with \<open>bad_packet\<close> and keeps its packet number.
\<close>

theorem single_byte_error_detected:
  assumes "validate_packet p k fallback = ret (good_packet, k')" "length p = 133"
    and "i < (if fallback \<noteq> 0 then 132 else 133)" "x \<noteq> p ! i"
  shows "validate_packet (p[i := x]) k fallback = ret (bad_packet, k)"
proof -
  let ?q = "p[i := x]"
  have p: "p ! 0 = SOH" "p ! 2 = 255 - p ! 1" "p ! 1 = k + 1" "check_ok fallback p"
    using assms(1,2) by (auto simp: validate_packet_eq split: if_splits)
  have check: "3 \<le> i \<Longrightarrow> \<not> check_ok fallback ?q" using check_notices [OF p(4) assms(2) _ assms(3,4)] by simp
  have len: "length ?q = 133" using assms(2) by simp
  consider "i = 0" | "i = 1" | "i = 2" | "3 \<le> i" by linarith
  then show ?thesis
  proof cases
    case 1
    then have "?q ! 0 \<noteq> SOH" using p(1) assms(2,4) by simp
    then show ?thesis by (simp only: validate_packet_eq [OF len] simp_thms if_True)
  next
    case 2
    then have "?q ! 2 \<noteq> 255 - ?q ! 1" using p(2) assms(2,4) by simp
    then show ?thesis by (simp only: validate_packet_eq [OF len] simp_thms if_True)
  next
    case 3
    then have "?q ! 2 \<noteq> 255 - ?q ! 1" using p(2) assms(2,4) by simp
    then show ?thesis by (simp only: validate_packet_eq [OF len] simp_thms if_True)
  next
    case 4
    then have "?q ! 0 = p ! 0" "?q ! 1 = k + 1" "?q ! 2 = p ! 2" using p(3) by simp_all
    then show ?thesis using check [OF 4] p(1-3) by (simp add: validate_packet_eq [OF len])
  qed
qed

lemma take_packet: "length xs = 128 \<Longrightarrow> take 128 (drop 3 (packet cksum k xs @ r)) = xs"
  by (simp add: packet_def)

lemma packet_nth:
  assumes "length xs = 128"
  shows "(packet cksum k xs @ r) ! 0 = SOH" "(packet cksum k xs @ r) ! 1 = k" "(packet cksum k xs @ r) ! 2 = 255 - k"
    "(packet cksum k xs @ r) ! 131 = (if cksum then block_checksum xs else hi8 (block_crc xs))"
    "\<not> cksum \<Longrightarrow> (packet cksum k xs @ r) ! 132 = lo8 (block_crc xs)"
  using assms by (simp_all add: packet_def nth_append nth_Cons')

lemma length_packet: "length xs = 128 \<Longrightarrow> length (packet cksum k xs) = (if cksum then 132 else 133)"
  by (simp add: packet_def)

text \<open>
  The receiver takes the packet that a sender builds for the next block, and recognises the last one sent again. In
  the checksum mode the last byte of the array is left from an earlier packet.
\<close>

lemma validate_sent_packet:
  assumes "length xs = 128" "cksum \<longleftrightarrow> fallback \<noteq> 0" "length (packet cksum k xs @ r) = 133"
  shows "validate_packet (packet cksum k xs @ r) last_packet fallback =
    (if k = last_packet then ret (duplicate, last_packet)
     else if k = last_packet + 1 then ret (good_packet, k) else ret (bad_packet, last_packet))"
  unfolding validate_packet_eq [OF assms(3)] check_ok_def packet_nth(1-4) [OF assms(1)] take_packet [OF assms(1)]
  using packet_nth(5) [OF assms(1), of cksum k r] assms(2) by simp

lemma single_byte_error_detected_witness:
  "validate_packet ((packet False 1 (replicate 128 7))[40 := 8]) 0 0 = ret (0x00, 0)"
proof -
  let ?p = "packet False 1 (replicate 128 7)"
  have "length ?p = 133" by (simp add: length_packet)
  moreover have "validate_packet ?p 0 0 = ret (0x01, 1)" using validate_sent_packet [of "replicate 128 7" False 0 1 "[]" 0] by (simp add: length_packet)
  moreover have "?p ! 40 = 7" by (simp add: packet_def nth_append nth_Cons')
  ultimately show ?thesis using single_byte_error_detected [of ?p 0 0 1 40 8] by simp
qed

end
