(* ===== verification/Xmodem.thy ===== *)
theory Xmodem
  imports Serial_Client Xmodem_Packet
begin

text \<open>
  The file receiver \<^verbatim>\<open>lib/AVR-UART-LIB/example(xmodem).c\<close>, the largest program in the repository on top of the
  serial driver: the state machine of \<open>main\<close>, one definition per function, every output through \<open>uart0\<close>.
  \<open>main_iteration\<close> is one pass of the endless loop. Interrupts between two passes are steps of their own
  (\<open>Xmodem_Transfer\<close>); those during a pass are the environment \<open>env\<close> of the loops that wait.
\<close>

section \<open>State\<close>

datatype ProgramStatus =
    ready_for_transmission
  | awaiting_for_command
  | preparing_transmission
  | preparing_timeout
  | transmission_in_progres
  | transmission_completed
  | transmission_max_retransmits
  | transmission_aborted

record XmodemPacket =
  buff :: "u8 list"
  position :: u8
  last_packet :: u8
  retrycount :: u8
  starttime :: u16
  fallback :: u8

record xmodem = board +
  xmdm :: XmodemPacket
  milis :: u32
  file_array :: "u8 list"
  fileposition :: u16
  TCCR1A :: u8
  TCCR1B :: u8
  TIMSK1 :: u8
  ICR1 :: u16

abbreviation (input) SETUP_RETRIES_DELAY :: u16 where "SETUP_RETRIES_DELAY \<equiv> 1000"
abbreviation (input) SETUP_CRC_RETRIES_TO_FALLBACK :: u8 where "SETUP_CRC_RETRIES_TO_FALLBACK \<equiv> 15"
abbreviation (input) SETUP_CKSUM_RETRIES_TO_GIVE_UP :: u8 where "SETUP_CKSUM_RETRIES_TO_GIVE_UP \<equiv> 2"
abbreviation (input) PACKET_RETRY_DELAY :: u16 where "PACKET_RETRY_DELAY \<equiv> 1000"
abbreviation (input) PACKET_MAX_TIMEOUT_RETRANSMITS :: u8 where "PACKET_MAX_TIMEOUT_RETRANSMITS \<equiv> 15"

text \<open>The global variables start as zero.\<close>

definition xmodem_reset :: xmodem where
  "xmodem_reset = board.extend board_reset
     (xmodem.fields \<lparr>buff = replicate 133 0, position = 0, last_packet = 0, retrycount = 0, starttime = 0, fallback = 0\<rparr>
       0 (replicate 1024 0) 0 0 0 0 0)"

definition on_xmdm :: "(XmodemPacket \<Rightarrow> XmodemPacket) \<Rightarrow> 'z xmodem_scheme \<Rightarrow> 'z xmodem_scheme" where
  "on_xmdm f s = s\<lparr>xmdm := f (xmdm s)\<rparr>"

text \<open>A string constant with its terminating NUL.\<close>

definition cstr :: "string \<Rightarrow> u8 list" where
  "cstr cs = map of_char cs @ [0]"

abbreviation (input) CRLF :: string where "CRLF \<equiv> [CHR 0x0D, CHR 0x0A]"

section \<open>Time\<close>

definition getMilis :: "'z xmodem_scheme \<Rightarrow> u32" where
  "getMilis s = milis s"

definition timer1_init :: "'z xmodem_scheme \<Rightarrow> 'z xmodem_scheme" where
  "timer1_init s = s\<lparr>TCCR1A := 0, TCCR1B := bv 0 OR bv 3 OR bv 4, TIMSK1 := bv 5, ICR1 := of_nat (F_CPU div 1000)\<rparr>"

definition TIMER1_CAPT_vect :: "'z xmodem_scheme \<Rightarrow> 'z xmodem_scheme" where
  "TIMER1_CAPT_vect s = s\<lparr>milis := milis s + 1\<rparr>"

text \<open>\<open>xmdm.starttime = getMilis()\<close> and \<open>(uint16_t)getMilis() - xmdm.starttime\<close>, both in 16 bits.\<close>

definition restart_time :: "'z xmodem_scheme \<Rightarrow> 'z xmodem_scheme" where
  "restart_time s = on_xmdm (\<lambda>x. x\<lparr>starttime := ucast (getMilis s)\<rparr>) s"

definition elapsed :: "'z xmodem_scheme \<Rightarrow> u16" where
  "elapsed s = ucast (getMilis s) - starttime (xmdm s)"

section \<open>Received data\<close>

function MoveData_loop :: "u8 list \<Rightarrow> u8 \<Rightarrow> u8 \<Rightarrow> 'z xmodem_scheme \<Rightarrow> 'z xmodem_scheme outcome" where
  "MoveData_loop bufptr BytesToMove i s =
     (if i < BytesToMove
      then
        if unat i < length bufptr \<and> unat (fileposition s) < length (file_array s)
        then
          let s = s\<lparr>file_array := (file_array s)[unat (fileposition s) := bufptr ! unat i], fileposition := fileposition s + 1\<rparr>;
              s = s\<lparr>fileposition := fileposition s AND 1023\<rparr>
          in MoveData_loop bufptr BytesToMove (i + 1) s
        else fail Out_of_bounds
      else ret s)"
  by pat_completeness auto
termination
  by (relation "measure (\<lambda>(_, n, i, _). unat n - unat i)") (auto simp: unat_inc_measure)

definition MoveData :: "u8 list \<Rightarrow> u8 \<Rightarrow> 'z xmodem_scheme \<Rightarrow> 'z xmodem_scheme outcome" where
  "MoveData bufptr BytesToMove s = MoveData_loop bufptr BytesToMove 0 s"

text \<open>\<open>xmdm.buff[xmdm.position++] = dat\<close>\<close>

definition store_byte :: "u8 \<Rightarrow> 'z xmodem_scheme \<Rightarrow> 'z xmodem_scheme outcome" where
  "store_byte dat s =
     (if unat (position (xmdm s)) < length (buff (xmdm s))
      then ret (on_xmdm (\<lambda>x. x\<lparr>buff := (buff x)[unat (position x) := dat], position := position x + 1\<rparr>) s)
      else fail Out_of_bounds)"

definition HandleIncomingData ::
  "usart_config \<Rightarrow> 'z xmodem_ext env \<Rightarrow> u8 \<Rightarrow> 'z xmodem_scheme \<Rightarrow> (ProgramStatus \<times> 'z xmodem_scheme) outcome" where
  "HandleIncomingData c env dat s =
     (if dat = EOT \<and> position (xmdm s) = 0
      then
        obind (uart0_putc c env ACK s) (\<lambda>s.
        obind (uart0_putc c env ACK s) (\<lambda>s.
        ret (transmission_completed, s)))
      else if position (xmdm s) = 1 \<and> dat = CAN \<and> buff (xmdm s) ! 0 = CAN
      then ret (transmission_aborted, s)
      else
        obind (store_byte dat s) (\<lambda>s.
        if uint (position (xmdm s)) = 133 - uint (fallback (xmdm s))
        then
          let s = on_xmdm (\<lambda>x. x\<lparr>position := 0\<rparr>) s in
          obind (validate_packet (buff (xmdm s)) (last_packet (xmdm s)) (fallback (xmdm s))) (\<lambda>(packet_status, number).
          let s = on_xmdm (\<lambda>x. x\<lparr>last_packet := number\<rparr>) s in
          if packet_status = good_packet
          then
            obind (uart0_putc c env ACK s) (\<lambda>s.
            let s = restart_time s in
            obind (MoveData (drop 3 (buff (xmdm s))) 128 s) (\<lambda>s.
            ret (transmission_in_progres, s)))
          else if packet_status = duplicate
          then obind (uart0_putc c env ACK s) (\<lambda>s. ret (transmission_in_progres, restart_time s))
          else if packet_status = bad_packet
          then obind (uart0_putc c env NACK s) (\<lambda>s. ret (transmission_in_progres, restart_time s))
          else ret (transmission_in_progres, s))
        else ret (transmission_in_progres, s)))"

section \<open>The dump of the file\<close>

text \<open>
  \<open>line\<close> is the local array \<open>buff\<close> of 17 characters; its first 16 are not initialised. One pass of the loop over the bytes:
\<close>

definition HexDump16_byte ::
  "usart_config \<Rightarrow> 'z env \<Rightarrow> u8 list \<Rightarrow> u16 \<Rightarrow> u8 list \<Rightarrow> 'z board_scheme \<Rightarrow> (u8 list \<times> 'z board_scheme) outcome" where
  "HexDump16_byte c env bufptr i line s =
     obind
       (if i mod 16 = 0
        then
          obind (if i \<noteq> 0
                 then in_order [uart0_putstr c env (cstr ''  ''), uart0_putstr c env line, uart0_putstr c env (cstr CRLF)] s
                 else ret s)
          (in_order
            [uart0_putstr c env (cstr ''  ''), uart0_puthex c env (lo8 (drop_bit 8 i)), uart0_puthex c env (lo8 i),
             uart0_putc c env (of_char CHR '' '')])
        else ret s)
     (\<lambda>s.
     obind (uart0_putc c env (of_char CHR '' '') s) (\<lambda>s.
     if unat i < length bufptr
     then
       obind (uart0_puthex c env (bufptr ! unat i) s) (\<lambda>s.
       ret (line[unat (i mod 16) :=
              (if bufptr ! unat i < 0x20 \<or> bufptr ! unat i > 0x7E then of_char CHR ''.'' else bufptr ! unat i)], s))
     else fail Out_of_bounds))"

function HexDump16_loop ::
  "usart_config \<Rightarrow> 'z env \<Rightarrow> u8 list \<Rightarrow> u16 \<Rightarrow> u16 \<Rightarrow> u8 list \<Rightarrow> 'z board_scheme \<Rightarrow> (u8 list \<times> 'z board_scheme) outcome" where
  "HexDump16_loop c env bufptr Length i line s =
     (if i < Length
      then obind (HexDump16_byte c env bufptr i line s) (\<lambda>(line, s). HexDump16_loop c env bufptr Length (i + 1) line s)
      else ret (line, s))"
  by pat_completeness auto
termination
  by (relation "measure (\<lambda>(_, _, _, n, i, _, _). unat n - unat i)") (auto simp: unat_inc_measure)

lemma pad_less:
  fixes i :: u16
  assumes "i mod 16 \<noteq> 0"
  shows "(16 - unat (i + 1) mod 16) mod 16 < (16 - unat i mod 16) mod 16"
proof -
  have "unat (i mod 16) = unat i mod 16" by (simp add: unat_mod)
  then have "unat i mod 16 \<noteq> 0" using assms by (metis unat_eq_zero)
  moreover have "unat (i + 1) mod 16 = (unat i + 1) mod 16" by (simp add: unat_word_ariths mod_mod_cancel)
  moreover have "unat i mod 16 < 16" by simp
  ultimately show ?thesis by (simp add: mod_Suc) linarith
qed

text \<open>The last line is filled up to sixteen columns.\<close>

function HexDump16_pad ::
  "usart_config \<Rightarrow> 'z env \<Rightarrow> u16 \<Rightarrow> u8 list \<Rightarrow> 'z board_scheme \<Rightarrow> (u8 list \<times> 'z board_scheme) outcome" where
  "HexDump16_pad c env i line s =
     (if i mod 16 \<noteq> 0
      then obind (uart0_putstr c env (cstr ''   '') s) (HexDump16_pad c env (i + 1) (line[unat (i mod 16) := 0]))
      else ret (line, s))"
  by pat_completeness auto
termination
  by (relation "measure (\<lambda>(_, _, i, _, _). (16 - unat i mod 16) mod 16)") (auto simp: pad_less)

definition HexDump16 ::
  "usart_config \<Rightarrow> 'z env \<Rightarrow> u8 list \<Rightarrow> u8 list \<Rightarrow> u16 \<Rightarrow> 'z board_scheme \<Rightarrow> 'z board_scheme outcome" where
  "HexDump16 c env uninit bufptr Length s =
     (let line = uninit[16 := 0] in
      obind (HexDump16_loop c env bufptr Length 0 line s) (\<lambda>(line, s).
      obind (HexDump16_pad c env Length line s) (\<lambda>(line, s).
      in_order [uart0_putstr c env (cstr ''  ''), uart0_putstr c env line, uart0_putstr c env (cstr CRLF)] s)))"

declare MoveData_loop.simps [simp del] HexDump16_loop.simps [simp del] HexDump16_pad.simps [simp del]

section \<open>The main loop\<close>

text \<open>
  The cases of the \<open>switch\<close>. Each returns the new value of \<open>transmission_status\<close>. A character that was received is
  answered here:
\<close>

definition command ::
  "usart_config \<Rightarrow> 'z xmodem_ext env \<Rightarrow> u8 list \<Rightarrow> u8 \<Rightarrow> 'z xmodem_scheme \<Rightarrow> (ProgramStatus \<times> 'z xmodem_scheme) outcome" where
  "command c env uninit cmd s =
     obind (uart0_putstr c env (cstr CRLF) s) (\<lambda>s.
     if cmd = of_char CHR ''d''
     then
       obind (in_order
         [uart0_puts_p c env (cstr (''File transfer can be terminated by double ^X sequence before waiting for receiver timeout'' @ CRLF @ [CHR 0x0A])),
          uart0_puts_p c env (cstr (''Waiting for transmission ...'' @ CRLF))] s) (\<lambda>s.
       let s = on_xmdm (\<lambda>x. x\<lparr>last_packet := 0, retrycount := 0, fallback := 0\<rparr>) s;
           s = restart_time s
       in ret (preparing_transmission, s))
     else if cmd = of_char CHR ''t'' \<or> cmd = of_char CHR ''s''
     then obind (uart0_puts_p c env (cstr (''unsupported feature'' @ CRLF)) s) (\<lambda>s. ret (ready_for_transmission, s))
     else if cmd = of_char CHR ''x''
     then
       obind (uart0_puts_p c env (cstr (''hexdump of sent file : '' @ CRLF)) s) (\<lambda>s.
       obind (HexDump16 c env uninit (file_array s) 1024 s) (\<lambda>s. ret (ready_for_transmission, s)))
     else
       obind (in_order
         [uart0_puts_p c env (cstr (''Usage:'' @ CRLF)),
          uart0_puts_p c env (cstr (''d'' @ [CHR 0x09] @ '' download file from pc'' @ CRLF)),
          uart0_puts_p c env (cstr (''t'' @ [CHR 0x09] @ '' send file to pc [not supported by now]'' @ CRLF)),
          uart0_puts_p c env (cstr (''s'' @ [CHR 0x09] @ '' look for any readable strings in received file [not supported by now]'' @ CRLF)),
          uart0_puts_p c env (cstr (''x'' @ [CHR 0x09] @ '' show hexdump of stored file'' @ CRLF)),
          uart0_putc c env (of_char CHR ''>'')] s) (\<lambda>s.
       ret (awaiting_for_command, s)))"

text \<open>The time limit of the handshake, after a character other than SOH or no character.\<close>

definition setup_timeout ::
  "usart_config \<Rightarrow> 'z xmodem_ext env \<Rightarrow> ProgramStatus \<Rightarrow> 'z xmodem_scheme \<Rightarrow> (ProgramStatus \<times> 'z xmodem_scheme) outcome" where
  "setup_timeout c env transmission_status s =
     (if elapsed s > SETUP_RETRIES_DELAY
      then
        obind
          (if retrycount (xmdm s) < SETUP_CRC_RETRIES_TO_FALLBACK + SETUP_CKSUM_RETRIES_TO_GIVE_UP
           then
             obind (if fallback (xmdm s) \<noteq> 0 then uart0_putc c env NACK s else uart0_putc c env (of_char CHR ''C'') s) (\<lambda>s.
             let s = restart_time s;
                 s = on_xmdm (\<lambda>x. x\<lparr>retrycount := retrycount x + 1\<rparr>) s
             in ret (transmission_status, s))
           else ret (preparing_timeout, s))
        (\<lambda>(transmission_status, s).
        ret (transmission_status,
             if retrycount (xmdm s) \<ge> SETUP_CRC_RETRIES_TO_FALLBACK then on_xmdm (\<lambda>x. x\<lparr>fallback := 1\<rparr>) s else s))
      else ret (transmission_status, s))"

definition preparing ::
  "usart_config \<Rightarrow> 'z xmodem_ext env \<Rightarrow> 'z xmodem_scheme \<Rightarrow> (ProgramStatus \<times> 'z xmodem_scheme) outcome" where
  "preparing c env s =
     obind (uart0_getc c env s) (\<lambda>(cmd, s).
     if cmd = SOH
     then
       let s = on_xmdm (\<lambda>x. x\<lparr>retrycount := 0\<rparr>) s;
           s = restart_time s
       in HandleIncomingData c env cmd s
     else setup_timeout c env (if cmd = CAN then transmission_aborted else preparing_transmission) s)"

text \<open>\<open>while (uart_AvailableBytes())\<close>\<close>

partial_function (option) read_all ::
  "usart_config \<Rightarrow> 'z xmodem_ext env \<Rightarrow> ProgramStatus \<Rightarrow> 'z xmodem_scheme \<Rightarrow> (ProgramStatus \<times> 'z xmodem_scheme) outcome" where
  "read_all c env transmission_status s =
     (if uart0_AvailableBytes c s \<noteq> 0
      then
        (case obind (uart0_getc c env s) (\<lambda>(b, s). HandleIncomingData c env b s) of
           None \<Rightarrow> None
         | Some (Inl e) \<Rightarrow> Some (Inl e)
         | Some (Inr (transmission_status, s)) \<Rightarrow> read_all c env transmission_status (env s))
      else Some (Inr (transmission_status, s)))"

definition in_progress ::
  "usart_config \<Rightarrow> 'z xmodem_ext env \<Rightarrow> 'z xmodem_scheme \<Rightarrow> (ProgramStatus \<times> 'z xmodem_scheme) outcome" where
  "in_progress c env s =
     obind (read_all c env transmission_in_progres s) (\<lambda>(transmission_status, s).
     if elapsed s > PACKET_RETRY_DELAY
     then
       if retrycount (xmdm s) > PACKET_MAX_TIMEOUT_RETRANSMITS then ret (transmission_aborted, s)
       else
         obind (uart0_putc c env NACK s) (\<lambda>s.
         ret (transmission_status, on_xmdm (\<lambda>x. x\<lparr>position := 0, retrycount := retrycount x + 1\<rparr>) s))
     else ret (transmission_status, s))"

definition main_iteration ::
  "usart_config \<Rightarrow> 'z xmodem_ext env \<Rightarrow> u8 list \<Rightarrow> ProgramStatus \<Rightarrow> 'z xmodem_scheme \<Rightarrow>
   (ProgramStatus \<times> 'z xmodem_scheme) outcome" where
  "main_iteration c env uninit transmission_status s =
     (case transmission_status of
        ready_for_transmission \<Rightarrow>
          obind (in_order
            [uart0_puts_p c env (cstr (''Awaiting for command, type 'h' for help...'' @ CRLF)),
             uart0_putc c env (of_char CHR ''>'')] s) (\<lambda>s.
          ret (awaiting_for_command, s))
      | awaiting_for_command \<Rightarrow>
          obind (uart0_getc c env s) (\<lambda>(cmd, s).
          if cmd \<noteq> 0 then command c env uninit cmd s else ret (awaiting_for_command, s))
      | preparing_transmission \<Rightarrow> preparing c env s
      | preparing_timeout \<Rightarrow>
          obind (in_order
            [uart0_putc c env CAN, uart0_putc c env CAN,
             uart0_puts_p c env (cstr (CRLF @ ''failed to establish transmission with host'' @ CRLF))] s) (\<lambda>s.
          ret (ready_for_transmission, s))
      | transmission_in_progres \<Rightarrow> in_progress c env s
      | transmission_max_retransmits \<Rightarrow>
          obind (in_order
            [uart0_putc c env CAN, uart0_putc c env CAN,
             uart0_puts_p c env (cstr (''Timeout or short packets retransmits limit hit ... Aborting'' @ CRLF))] s) (\<lambda>s.
          ret (ready_for_transmission, s))
      | transmission_completed \<Rightarrow>
          obind (uart0_puts_p c env (cstr (''Transmission completed, thanks for your attention'' @ CRLF)) s) (\<lambda>s.
          ret (ready_for_transmission, s))
      | transmission_aborted \<Rightarrow>
          obind (uart0_puts_p c env (cstr (CRLF @ ''^X, Aborting ... '' @ CRLF)) s) (\<lambda>s.
          ret (ready_for_transmission, s)))"

text \<open>What \<open>main\<close> does before the loop.\<close>

definition main_start :: "usart_config \<Rightarrow> 'z xmodem_scheme \<Rightarrow> ProgramStatus \<times> 'z xmodem_scheme" where
  "main_start c s =
     (let s = uart0_init c (of_nat (BAUD_CALC 115200)) s;
          s = timer1_init s
      in (ready_for_transmission, sei s))"

end
