(* ===== verification/Xmodem_Env.thy ===== *)
theory Xmodem_Env
  imports Xmodem
begin

text \<open>
  The receiver of \<open>Xmodem\<close> and its surroundings: the interpretation of the interface \<open>served_line\<close> for the program with its
  interrupts, the interrupts that leave its variables and its output alone (\<open>quiet\<close>), and reading from the serial line.
\<close>

section \<open>The program as its environment\<close>

text \<open>The variables of the receiver, and with them the received bytes.\<close>

definition xvars :: "'z xmodem_scheme \<Rightarrow> XmodemPacket \<times> u8 list \<times> u16" where
  "xvars s = (xmdm s, file_array s, fileposition s)"

definition xkeep :: "'z xmodem_scheme \<Rightarrow> _" where
  "xkeep s = (xvars s, rx_Head (units s 0), rx_Tail (units s 0), rx_buffer (units s 0))"

text \<open>While a function waits, the transmit interrupt is served and a millisecond passes.\<close>

definition board_env :: "usart_config \<Rightarrow> u16 \<Rightarrow> u8 \<Rightarrow> 'z xmodem_ext env" where
  "board_env c v flags s = TIMER1_CAPT_vect (udre_fires c 0 v flags s)"

lemma served_coarser:
  assumes l: "served_line c n env keep" and k: "\<And>s s'. keep s = keep s' \<Longrightarrow> keep' s = keep' s'"
  shows "served_line c n env keep'"
  using served_line.no_cts [OF l] served_line.no_crlf [OF l] served_line.env_ok [OF l] served_line.env_sent [OF l]
    served_line.env_head [OF l] served_line.env_sends [OF l] k [OF served_line.env_keep [OF l]] k [OF served_line.keep_SREG [OF l]]
    k [OF served_line.keep_tx [OF l]]
  by unfold_locales

lemma xkeep_xvars: "served_line c 0 env xkeep \<Longrightarrow> served_line c 0 env xvars"
  by (rule served_coarser [where keep = xkeep]) (simp_all add: xkeep_def)

lemma TIMER1_CAPT_sels [simp]:
  "units (TIMER1_CAPT_vect s) = units s" "xvars (TIMER1_CAPT_vect s) = xvars s" "sent c n (TIMER1_CAPT_vect s) = sent c n s"
  by (simp_all add: TIMER1_CAPT_vect_def xvars_def sent_def)

lemma xkeep_udre: "xkeep (udre_fires c 0 v flags s) = xkeep s"
  by (rule udre_fires_frame [of c 0 v flags s]) (simp add: xkeep_def xvars_def same_rx_def)

lemma served_by_board_env:
  assumes "\<not> SOFT_CTS c" "\<not> LF_TO_CRLF c"
  shows "served_line c 0 (board_env c v flags) xkeep"
proof
  show "xkeep (board_env c v flags s) = xkeep s" for s
    using xkeep_udre [of c v flags s] by (simp add: board_env_def xkeep_def)
qed (use assms in \<open>simp_all add: board_env_def udre_fires_sends xkeep_def xvars_def same_rx_def\<close>)

interpretation receiver: served_line "build_config tx rx" 0 "board_env (build_config tx rx) v flags" xkeep
  for tx rx v flags
  by (rule served_by_board_env) (simp_all add: build_config_def)

text \<open>The program after reset.\<close>

lemma units_xmodem_reset: "units xmodem_reset n = usart_reset"
  by (simp add: xmodem_reset_def board_reset_def kernel.defs board.defs xmodem.defs)

lemma xmodem_reset_sels:
  "xmdm xmodem_reset = \<lparr>buff = replicate 133 0, position = 0, last_packet = 0, retrycount = 0, starttime = 0, fallback = 0\<rparr>"
  "file_array xmodem_reset = replicate 1024 0" "fileposition xmodem_reset = 0" "milis xmodem_reset = 0"
  by (simp_all add: xmodem_reset_def board_reset_def kernel.defs board.defs xmodem.defs)

lemma reset_ready:
  "served_line (build_config 0x200 0x220) 0 (board_env (build_config 0x200 0x220) 0x26 0) xvars"
  "tx_ok (build_config 0x200 0x220) (units xmodem_reset 0)" "sent (build_config 0x200 0x220) 0 xmodem_reset = []"
  using xkeep_xvars [OF receiver.served_line_axioms] by (simp_all add: units_xmodem_reset tx_ok_reset sent_def)

section \<open>Interrupts that do not disturb the receiver\<close>

text \<open>Interrupts and other code that leave the receiver and its output alone.\<close>

definition quiet :: "usart_config \<Rightarrow> 'z xmodem_scheme \<Rightarrow> 'z xmodem_scheme \<Rightarrow> bool" where
  "quiet c s s' \<longleftrightarrow> xvars s' = xvars s \<and> sent c 0 s' = sent c 0 s \<and> (tx_ok c (units s 0) \<longrightarrow> tx_ok c (units s' 0))"

definition same_tx :: "usart \<Rightarrow> usart \<Rightarrow> bool" where
  "same_tx u u' \<longleftrightarrow> UDR_out u' = UDR_out u \<and> tx_Head u' = tx_Head u \<and> tx_Tail u' = tx_Tail u \<and> tx_buffer u' = tx_buffer u
     \<and> bit (UCSRB u') UDRIE_BIT = bit (UCSRB u) UDRIE_BIT"

lemma same_tx:
  assumes "same_tx (units s n) (units t n)"
  shows "tx_ok c (units t n) = tx_ok c (units s n)" "sent c n t = sent c n s"
  using assms by (simp_all add: same_tx_def tx_ok_def sent_def tx_contents_def)

lemma quietI: "same_tx (units s 0) (units t 0) \<Longrightarrow> xvars t = xvars s \<Longrightarrow> quiet c s t"
  using same_tx [of s 0 t c] by (simp add: quiet_def)

lemma quiet_TIMER1: "quiet c s (TIMER1_CAPT_vect s)"
  by (simp add: quiet_def)

lemma quiet_udre: "\<not> SOFT_CTS c \<Longrightarrow> tx_ok c (units s 0) \<Longrightarrow> quiet c s (udre_fires c 0 v flags s)"
  using udre_fires_sends [of c s 0 v flags] xkeep_udre [of c v flags s] by (simp add: quiet_def xkeep_def)

lemma quiet_rx:
  assumes "rx_ok c (units s 0)"
  shows "quiet c s (rx_arrives c 0 v flags b s)"
proof -
  let ?t = "rx_arrives c 0 v flags b s"
  obtain m where m: "?t = s\<lparr>SREG := SREG s OR 0x80, SRAM := m,
      units := RX_effect c 0 (on_unit 0 (\<lambda>u. u\<lparr>UDR_in := b, UCSRA := UCSRA u OR bv RXC_BIT\<rparr>) s)\<rparr>"
    using rx_arrives_effect [OF assms, of v flags b] by blast
  have "\<not> MPCM_MODE c" using assms by (simp add: rx_ok_def)
  then have "same_tx (units s 0) (units ?t 0)"
    by (simp add: m same_tx_def RX_effect_def RX_body_units RX_accept_units RX_disable_units Let_def bit_simps)
  moreover have "xvars ?t = xvars s" by (simp add: m xvars_def)
  ultimately show ?thesis by (rule quietI)
qed

section \<open>Reading what was received\<close>

lemma getc_takes:
  assumes rx: "rx_ok c (units s 0)" and echo: "\<not> GETC_ECHO c"
  shows "case rx_contents c (units s 0) of
      [] \<Rightarrow> uart0_getc c env s = ret (0, s) \<and> uart0_AvailableBytes c s = 0
    | b # bs \<Rightarrow> uart0_AvailableBytes c s \<noteq> 0 \<and> (\<exists>s'. uart0_getc c env s = ret (b, s') \<and> quiet c s s' \<and> rx_ok c (units s' 0)
        \<and> rx_contents c (units s' 0) = bs \<and> milis s' = milis s)"
proof -
  let ?u = "units s 0" and ?k = "buffer_bits (RX_BUFFER_SIZE c)"
  have r: "ring_ok ?k (rx_Head ?u) (rx_Tail ?u)" and sz: "size_ok (RX_BUFFER_SIZE c)" using rx by (auto simp: rx_ok_def)
  have av: "unat (uart0_AvailableBytes c s) = length (rx_contents c ?u)"
    by (simp add: uart0_AvailableBytes_def uart_AvailableBytes_def rx_contents_def length_ring_items and_RX_MASK [OF sz])
  show ?thesis
  proof (cases "rx_contents c ?u")
    case Nil
    then have "rx_Head ?u = rx_Tail ?u" using ring_items_Nil [OF r] by (simp add: rx_contents_def)
    then show ?thesis using Nil av by (simp add: uart0_getc_def uart_getc_eq uart_getc_C_def unat_eq_zero)
  next
    case (Cons b bs)
    let ?t = "take_bit ?k (rx_Tail ?u + 1)"
    have ht: "rx_Head ?u \<noteq> rx_Tail ?u" using Cons ring_items_Nil [OF r, of "rx_buffer ?u"] by (auto simp: rx_contents_def)
    note t = ring_take(1) [OF r refl ht, of "rx_buffer ?u"] ring_take(2) [OF r refl ht]
    have b: "rx_buffer ?u ?t = b" "ring_items ?k (rx_buffer ?u) (rx_Head ?u) ?t = bs"
      using t(1) Cons by (simp_all add: rx_contents_def)
    have g: "uart0_getc c env s = ret (b, rx_taken c 0 ?t s)"
      using ht b echo by (auto simp: uart0_getc_def uart_getc_eq uart_getc_C_def getc_echo_def load_rx_def Let_def and_RX_MASK [OF sz])
    have "same_tx ?u (units (rx_taken c 0 ?t s) 0)"
      by (simp add: rx_taken_def same_tx_def Let_def set_UCSRB_def bit_simps)
    moreover have "xvars (rx_taken c 0 ?t s) = xvars s" "milis (rx_taken c 0 ?t s) = milis s"
      by (simp_all add: rx_taken_def xvars_def Let_def set_UCSRB_def on_unit_def)
    ultimately have "quiet c s (rx_taken c 0 ?t s)" by (simp add: quietI)
    moreover have "rx_ok c (units (rx_taken c 0 ?t s) 0)" "rx_contents c (units (rx_taken c 0 ?t s) 0) = bs"
      using rx t(2) b(2) by (simp_all add: rx_ok_def rx_contents_def)
    moreover have "uart0_AvailableBytes c s \<noteq> 0" using av Cons by (auto simp: unat_eq_zero [symmetric])
    ultimately show ?thesis using g Cons \<open>milis (rx_taken c 0 ?t s) = milis s\<close> by simp
  qed
qed

end
