(* ===== verification/Xmodem_Transfer.thy ===== *)
theory Xmodem_Transfer
  imports Xmodem_Env
begin

text \<open>
  Correctness of the file receiver of \<open>Xmodem\<close>. At the level of packets, \<open>receive\<close> says what the receiver must do with a
  packet; \<open>handled\<close> is the program working on a sequence of bytes with any interrupts in between. The byte machine
  refines the packet machine, and a sender that repeats packets over a line with errors gets its file
  through. The remaining sections treat the main loop.
\<close>

section \<open>Specification\<close>

text \<open>The answer, the number of the last packet and the data to store.\<close>

definition receive :: "bool \<Rightarrow> u8 \<Rightarrow> u8 list \<Rightarrow> u8 \<times> u8 \<times> u8 list" where
  "receive cksum k p =
     (let xs = take 128 (drop 3 p) in
      if take 3 p = [SOH, k, 255 - k] then (ACK, k, [])
      else if p = packet cksum (k + 1) xs then (ACK, k + 1, xs)
      else (NACK, k, []))"

text \<open>The file is a ring of 1024 bytes.\<close>

primrec write_ring :: "nat \<Rightarrow> u8 list \<Rightarrow> u8 list \<Rightarrow> u8 list" where
  "write_ring p [] f = f"
| "write_ring p (x # xs) f = write_ring ((p + 1) mod 1024) xs (f[p := x])"

text \<open>The lengths and ranges the variables of the receiver keep.\<close>

definition xm_ok :: "'z xmodem_scheme \<Rightarrow> bool" where
  "xm_ok s \<longleftrightarrow> length (buff (xmdm s)) = 133 \<and> length (file_array s) = 1024 \<and> unat (fileposition s) < 1024
     \<and> fallback (xmdm s) \<in> {0, 1} \<and> unat (position (xmdm s)) + unat (fallback (xmdm s)) < 133"

abbreviation packet_length :: "'z xmodem_scheme \<Rightarrow> nat" where
  "packet_length s \<equiv> 133 - unat (fallback (xmdm s))"

text \<open>The program has handled the bytes \<open>bs\<close>, with other activity in between.\<close>

inductive handled ::
  "usart_config \<Rightarrow> 'z xmodem_ext env \<Rightarrow> ProgramStatus \<times> 'z xmodem_scheme \<Rightarrow> u8 list \<Rightarrow> ProgramStatus \<times> 'z xmodem_scheme \<Rightarrow> bool"
  for c env a where
  nothing: "handled c env a [] a"
| meanwhile: "handled c env a bs (st, s) \<Longrightarrow> quiet c s s' \<Longrightarrow> handled c env a bs (st, s')"
| byte: "handled c env a bs (st, s) \<Longrightarrow> HandleIncomingData c env b s = ret (st', s') \<Longrightarrow> handled c env a (bs @ [b]) (st', s')"

section \<open>The file\<close>

lemma length_write_ring [simp]: "length (write_ring p xs f) = length f"
  by (induction xs arbitrary: p f) simp_all

lemma write_ring_append:
  "p < 1024 \<Longrightarrow> write_ring p (xs @ ys) f = write_ring ((p + length xs) mod 1024) ys (write_ring p xs f)"
  by (induction xs arbitrary: p f) (simp_all add: mod_add_left_eq)

lemma write_ring_straight:
  "p + length xs \<le> 1024 \<Longrightarrow> length f = 1024 \<Longrightarrow> write_ring p xs f = take p f @ xs @ drop (p + length xs) f"
proof (induction xs arbitrary: p f)
  case (Cons x xs)
  show ?case
  proof (cases "xs = []")
    case True
    then show ?thesis using Cons.prems by (simp add: upd_conv_take_nth_drop)
  next
    case False
    then have "p + 1 < 1024" using Cons.prems by (cases xs) auto
    then have "(p + 1) mod 1024 = p + 1" by simp
    then show ?thesis
      using Cons.IH [of "p + 1" "f[p := x]"] Cons.prems by (simp add: take_Suc_conv_app_nth)
  qed
qed simp

lemma and_1023: "unat (w AND 1023) = unat w mod 1024" for w :: u16
proof -
  have "(1023 :: u16) = mask 10" by (simp add: mask_eq_exp_minus_1)
  then show ?thesis by (simp only: take_bit_eq_mask [symmetric] unsigned_take_bit_eq) (simp add: take_bit_eq_mod)
qed

lemma MoveData_loop_writes:
  assumes "unat n \<le> length bufptr" "unat i \<le> unat n" "length (file_array s) = 1024" "unat (fileposition s) < 1024"
  shows "\<exists>w. MoveData_loop bufptr n i s = ret (s\<lparr>file_array := write_ring (unat (fileposition s)) (drop (unat i) (take (unat n) bufptr)) (file_array s),
      fileposition := w\<rparr>) \<and> unat w = (unat (fileposition s) + (unat n - unat i)) mod 1024"
  using assms
proof (induction bufptr n i s rule: MoveData_loop.induct)
  case (1 bufptr n i s)
  show ?case
  proof (cases "i < n")
    case True
    then have i: "unat i < unat n" "unat (i + 1) = unat i + 1" using unat_inc_less by (auto simp: word_less_nat_alt)
    let ?t = "s\<lparr>file_array := (file_array s)[unat (fileposition s) := bufptr ! unat i],
      fileposition := (fileposition s + 1) AND 1023\<rparr>"
    have fp: "unat (fileposition ?t) = (unat (fileposition s) + 1) mod 1024"
      by (simp add: and_1023 unat_word_ariths mod_mod_cancel)
    have eq: "MoveData_loop bufptr n i s = MoveData_loop bufptr n (i + 1) ?t"
      using True i "1.prems" by (subst MoveData_loop.simps) (simp add: Let_def)
    have d: "drop (unat i) (take (unat n) bufptr) = bufptr ! unat i # drop (unat i + 1) (take (unat n) bufptr)"
      using i "1.prems"(1) by (simp add: Cons_nth_drop_Suc [symmetric])
    obtain w where w: "MoveData_loop bufptr n (i + 1) ?t = ret (?t\<lparr>file_array := write_ring (unat (fileposition ?t))
        (drop (unat (i + 1)) (take (unat n) bufptr)) (file_array ?t), fileposition := w\<rparr>)"
      "unat w = (unat (fileposition ?t) + (unat n - unat (i + 1))) mod 1024"
      using "1.IH" [OF True _ refl refl] i fp "1.prems" by (auto simp: less_imp_le)
    have "unat w = (unat (fileposition s) + (unat n - unat i)) mod 1024"
    proof -
      have "unat w = (unat (fileposition s) + 1 + (unat n - unat (i + 1))) mod 1024"
        using w(2) unfolding fp by (simp only: mod_add_left_eq)
      also have "unat (fileposition s) + 1 + (unat n - unat (i + 1)) = unat (fileposition s) + (unat n - unat i)" using i by simp
      finally show ?thesis .
    qed
    then show ?thesis unfolding eq using w(1) d fp i by auto
  next
    case False
    then have "unat i = unat n" using "1.prems"(2) by (simp add: word_less_nat_alt)
    moreover have "MoveData_loop bufptr n i s = ret s" using False by (subst MoveData_loop.simps) simp
    ultimately show ?thesis using "1.prems" by (intro exI [of _ "fileposition s"]) simp
  qed
qed

lemma MoveData_writes:
  assumes "128 \<le> length bufptr" "length (file_array s) = 1024" "unat (fileposition s) < 1024"
  obtains w where "MoveData bufptr 128 s
      = ret (s\<lparr>file_array := write_ring (unat (fileposition s)) (take 128 bufptr) (file_array s), fileposition := w\<rparr>)"
    "unat w = (unat (fileposition s) + 128) mod 1024"
  using MoveData_loop_writes [of 128 bufptr 0 s] assms by (auto simp: MoveData_def)

section \<open>One byte\<close>

lemma on_xmdm_sels [simp]:
  "xmdm (on_xmdm f s) = f (xmdm s)" "units (on_xmdm f s) = units s" "milis (on_xmdm f s) = milis s"
  "file_array (on_xmdm f s) = file_array s" "fileposition (on_xmdm f s) = fileposition s" "sent c n (on_xmdm f s) = sent c n s"
  by (simp_all add: on_xmdm_def sent_def)

lemma restart_time_sels [simp]:
  "xmdm (restart_time s) = (xmdm s)\<lparr>starttime := ucast (milis s)\<rparr>" "units (restart_time s) = units s"
  "file_array (restart_time s) = file_array s" "fileposition (restart_time s) = fileposition s"
  "sent c n (restart_time s) = sent c n s"
  by (simp_all add: restart_time_def getMilis_def)

text \<open>A byte that does not complete a packet is stored.\<close>

lemma store_byte_ret:
  "xm_ok s \<Longrightarrow> store_byte b s = ret (on_xmdm (\<lambda>x. x\<lparr>buff := (buff x)[unat (position x) := b], position := position x + 1\<rparr>) s)"
  by (simp add: store_byte_def xm_ok_def)

lemma position_inc: "xm_ok s \<Longrightarrow> unat (position (xmdm s) + 1) = unat (position (xmdm s)) + 1"
  by (rule unat_inc_less [of _ 255]) (simp add: xm_ok_def word_less_nat_alt)

lemma complete_iff:
  assumes "xm_ok s"
  shows "uint (position (xmdm s) + 1) = 133 - uint (fallback (xmdm s)) \<longleftrightarrow> unat (position (xmdm s)) + 1 = packet_length s"
proof -
  have "uint (position (xmdm s) + 1) = int (unat (position (xmdm s)) + 1)"
    using position_inc [OF assms] by (simp only: uint_nat)
  moreover have "fallback (xmdm s) = 0 \<or> fallback (xmdm s) = 1" using assms by (simp add: xm_ok_def)
  ultimately show ?thesis by (elim disjE) (simp_all only: unsigned_0 unsigned_1, linarith+)
qed

lemma handle_stores:
  assumes ok: "xm_ok s" and more: "unat (position (xmdm s)) + 1 < packet_length s"
    and b: "\<not> (b = EOT \<and> position (xmdm s) = 0)" "\<not> (position (xmdm s) = 1 \<and> b = CAN \<and> buff (xmdm s) ! 0 = CAN)"
  shows "HandleIncomingData c env b s = ret (transmission_in_progres,
    on_xmdm (\<lambda>x. x\<lparr>buff := (buff x)[unat (position x) := b], position := position x + 1\<rparr>) s)"
  unfolding HandleIncomingData_def if_not_P [OF b(1)] if_not_P [OF b(2)]
  using more complete_iff [OF ok] by (simp add: store_byte_ret [OF ok])

text \<open>The last byte of a packet: \<open>p\<close> is the array after it has been stored.\<close>

lemma receive_validates:
  assumes len: "length p = 133" and fb: "fb \<in> {0, 1}" and q: "q = take (133 - unat fb) p"
  shows "validate_packet p k fb =
    (case receive (fb \<noteq> 0) k q of (answer, k', xs) \<Rightarrow>
       ret (if answer = NACK then bad_packet else if xs = [] then duplicate else good_packet, k'))
    \<and> (case receive (fb \<noteq> 0) k q of (answer, k', xs) \<Rightarrow> xs \<noteq> [] \<longrightarrow> xs = take 128 (drop 3 p))"
proof -
  let ?xs = "take 128 (drop 3 p)"
  have lq: "length q = 133 - unat fb" and fb01: "fb = 0 \<or> fb = 1" using len fb by (auto simp: q)
  have x: "take 128 (drop 3 q) = ?xs" using fb01 len by (auto simp: q drop_take min_def)
  have hd: "take 3 q = [p ! 0, p ! 1, p ! 2]"
    using fb01 len by (auto simp: q take_Suc_conv_app_nth numeral_3_eq_3 numeral_2_eq_2)
  have tl: "drop 131 q = (if fb \<noteq> 0 then [p ! 131] else [p ! 131, p ! 132])"
  proof -
    have "drop 131 p = [p ! 131, p ! 132]" using len by (simp add: Cons_nth_drop_Suc [symmetric])
    then show ?thesis using fb01 len by (auto simp: q drop_take)
  qed
  have "q = take 3 q @ take 128 (drop 3 q) @ drop 131 q"
    using append_take_drop_id [of 3 q] append_take_drop_id [of 128 "drop 3 q"] by simp
  then have "q = [p ! 0, p ! 1, p ! 2] @ ?xs @ drop 131 q" unfolding hd x .
  then have eq: "q = packet (fb \<noteq> 0) n ?xs \<longleftrightarrow> p ! 0 = SOH \<and> p ! 1 = n \<and> p ! 2 = 255 - n \<and> check_ok fb p" for n
    unfolding tl packet_def check_ok_def by auto
  show ?thesis
    unfolding validate_packet_eq [OF len] receive_def x hd eq Let_def using len by auto
qed

lemma receive_cases:
  assumes "receive cksum k q = (answer, k', xs)"
  obtains (bad) "answer = NACK" "k' = k" "xs = []" | (dup) "answer = ACK" "k' = k" "xs = []"
  | (good) "answer = ACK" "k' = k + 1" "xs = take 128 (drop 3 q)"
  using assms by (auto simp: receive_def Let_def split: if_splits)

lemma handle_completes:
  assumes line: "served_line c 0 env xvars" and tx: "tx_ok c (units s 0)" and ok: "xm_ok s"
    and full: "unat (position (xmdm s)) + 1 = packet_length s"
    and p: "p = (buff (xmdm s))[unat (position (xmdm s)) := b]"
    and rec: "receive (fallback (xmdm s) \<noteq> 0) (last_packet (xmdm s)) (take (packet_length s) p) = (answer, k', xs)"
  shows "\<exists>s' w. HandleIncomingData c env b s = ret (transmission_in_progres, s') \<and> tx_ok c (units s' 0)
    \<and> sent c 0 s' = sent c 0 s @ [answer]
    \<and> xmdm s' = (xmdm s)\<lparr>buff := p, position := 0, last_packet := k', starttime := w\<rparr>
    \<and> file_array s' = write_ring (unat (fileposition s)) xs (file_array s)
    \<and> unat (fileposition s') = (unat (fileposition s) + length xs) mod 1024"
proof -
  let ?t = "on_xmdm (\<lambda>x. x\<lparr>buff := p, position := 0, last_packet := k'\<rparr>) s"
  have len: "length p = 133" "fallback (xmdm s) \<in> {0, 1}" and fl: "length (file_array s) = 1024" "unat (fileposition s) < 1024"
    using ok by (auto simp: p xm_ok_def)
  note v = receive_validates [OF len refl, of "last_packet (xmdm s)", unfolded rec prod.case]
  have "packet_length s = 133 \<or> packet_length s = 132" using len(2) by auto
  then have pos: "position (xmdm s) \<noteq> 0" "position (xmdm s) \<noteq> 1" using full by auto
  have upd: "on_xmdm (\<lambda>x. x\<lparr>last_packet := k'\<rparr>) (on_xmdm (\<lambda>x. x\<lparr>position := 0\<rparr>)
      (on_xmdm (\<lambda>x. x\<lparr>buff := (buff x)[unat (position x) := b], position := position x + 1\<rparr>) s)) = ?t"
    by (simp add: on_xmdm_def p)
  let ?answer = "\<lambda>a. uart0_putc c env a ?t"
  have "prints c 0 xvars (uart0_putc c env a) [a]" for a
    unfolding uart0_putc_def by (rule served_line.putc_prints [OF line])
  then obtain t where t: "?answer answer = ret t" "tx_ok c (units t 0)" "sent c 0 t = sent c 0 ?t @ [answer]" "xvars t = xvars ?t"
    by (rule printsE [where s = ?t]) (use tx in simp)
  then have vars: "xmdm t = xmdm ?t" "file_array t = file_array s" "fileposition t = fileposition s" by (simp_all add: xvars_def)
  have handle: "HandleIncomingData c env b s =
      (if xs \<noteq> [] then obind (?answer ACK) (\<lambda>s. obind (MoveData (drop 3 (buff (xmdm s))) 128 (restart_time s)) (\<lambda>s. ret (transmission_in_progres, s)))
       else obind (?answer answer) (\<lambda>s. ret (transmission_in_progres, restart_time s)))"
    using pos v complete_iff [OF ok] full rec
    by (auto simp: HandleIncomingData_def store_byte_ret [OF ok] upd p [symmetric] Let_def elim: receive_cases)
  show ?thesis
  proof (cases "xs = []")
    case True
    then show ?thesis using handle t vars fl
      by (intro exI [of _ "restart_time t"] exI [of _ "ucast (milis t)"]) simp
  next
    case False
    then have xs: "xs = take 128 (drop 3 p)" "answer = ACK" using v rec by (auto elim: receive_cases)
    then have l: "length xs = 128" using len by simp
    obtain w where w: "MoveData (drop 3 (buff (xmdm t))) 128 (restart_time t) = ret ((restart_time t)\<lparr>file_array :=
        write_ring (unat (fileposition s)) xs (file_array s), fileposition := w\<rparr>)" "unat w = (unat (fileposition s) + 128) mod 1024"
      using MoveData_writes [of "drop 3 (buff (xmdm t))" "restart_time t"] len fl vars xs by auto
    then show ?thesis using handle False t vars xs l
      by (intro exI [of _ "(restart_time t)\<lparr>file_array := write_ring (unat (fileposition s)) xs (file_array s), fileposition := w\<rparr>"]
          exI [of _ "ucast (milis t)"]) (simp add: sent_def)
  qed
qed

section \<open>One packet\<close>

text \<open>From a state between two packets: after the first bytes of a packet, and after the whole packet.\<close>

definition stored :: "usart_config \<Rightarrow> 'z xmodem_scheme \<Rightarrow> u8 list \<Rightarrow> 'z xmodem_scheme \<Rightarrow> bool" where
  "stored c s bs t \<longleftrightarrow> tx_ok c (units t 0) \<and> sent c 0 t = sent c 0 s
     \<and> xmdm t = (xmdm s)\<lparr>buff := bs @ drop (length bs) (buff (xmdm s)), position := of_nat (length bs)\<rparr>
     \<and> file_array t = file_array s \<and> fileposition t = fileposition s"

definition answered :: "usart_config \<Rightarrow> 'z xmodem_scheme \<Rightarrow> u8 list \<Rightarrow> 'z xmodem_scheme \<Rightarrow> bool" where
  "answered c s p t \<longleftrightarrow>
     (case receive (fallback (xmdm s) \<noteq> 0) (last_packet (xmdm s)) p of (answer, k', xs) \<Rightarrow>
        tx_ok c (units t 0) \<and> sent c 0 t = sent c 0 s @ [answer]
        \<and> (\<exists>w. xmdm t = (xmdm s)\<lparr>buff := p @ drop (length p) (buff (xmdm s)), position := 0, last_packet := k', starttime := w\<rparr>)
        \<and> file_array t = write_ring (unat (fileposition s)) xs (file_array s)
        \<and> unat (fileposition t) = (unat (fileposition s) + length xs) mod 1024)"

text \<open>No end of transmission in place of a packet, and no double cancel.\<close>

definition no_control :: "u8 list \<Rightarrow> bool" where
  "no_control p \<longleftrightarrow> p ! 0 \<noteq> EOT \<and> \<not> (p ! 0 = CAN \<and> p ! 1 = CAN)"

lemma stored_quiet: "stored c s bs t \<Longrightarrow> quiet c t t' \<Longrightarrow> stored c s bs t'"
  by (simp add: stored_def quiet_def xvars_def)

lemma answered_quiet: "answered c s p t \<Longrightarrow> quiet c t t' \<Longrightarrow> answered c s p t'"
  by (auto simp: answered_def quiet_def xvars_def split: prod.splits)

lemma unat_of_nat_133: "n < 133 \<Longrightarrow> unat (of_nat n :: u8) = n"
  by (simp add: unat_of_nat)

lemma stored_xm_ok:
  assumes "xm_ok s" "stored c s bs t" "length bs < packet_length s"
  shows "xm_ok t" "unat (position (xmdm t)) = length bs" "packet_length t = packet_length s"
proof -
  have "length bs < 133" using assms(3) by simp
  then show "unat (position (xmdm t)) = length bs" using assms(2) by (simp add: stored_def unat_of_nat_133)
  then show "xm_ok t" "packet_length t = packet_length s"
    using assms by (auto simp: xm_ok_def stored_def)
qed

lemma update_append_drop:
  "length bs < length xs \<Longrightarrow> (bs @ drop (length bs) xs)[length bs := b] = (bs @ [b]) @ drop (length bs + 1) xs"
  by (simp add: list_update_append Cons_nth_drop_Suc [symmetric])

lemma handled_byte:
  assumes line: "served_line c 0 env xvars" and ok: "xm_ok s"
    and p: "length p = packet_length s" "no_control p" "n < length p"
    and t: "stored c s (take n p) t" and h: "HandleIncomingData c env (p ! n) t = ret (st, t')"
  shows "if n + 1 < length p then stored c s (take (n + 1) p) t' else answered c s p t'"
proof -
  let ?bs = "take n p"
  have len: "length ?bs = n" using p(3) by simp
  note ok_t = stored_xm_ok [OF ok t, unfolded len, OF p(3) [unfolded p(1)]]
  have x: "xmdm t = (xmdm s)\<lparr>buff := ?bs @ drop n (buff (xmdm s)), position := of_nat n\<rparr>"
    and tx: "tx_ok c (units t 0)" "sent c 0 t = sent c 0 s" "file_array t = file_array s" "fileposition t = fileposition s"
    using t len by (simp_all add: stored_def)
  have n: "n < 133" using p by simp
  have buff: "(buff (xmdm t))[n := p ! n] = take (n + 1) p @ drop (n + 1) (buff (xmdm s))"
    using update_append_drop [of ?bs "buff (xmdm s)" "p ! n"] len n ok p(3) x
    by (simp add: xm_ok_def take_Suc_conv_app_nth)
  show ?thesis
  proof (cases "n + 1 < length p")
    case True
    have "\<not> (p ! n = EOT \<and> position (xmdm t) = 0)" using p(2) ok_t(2) by (auto simp: no_control_def)
    moreover have "\<not> (position (xmdm t) = 1 \<and> p ! n = CAN \<and> buff (xmdm t) ! 0 = CAN)"
    proof
      assume a: "position (xmdm t) = 1 \<and> p ! n = CAN \<and> buff (xmdm t) ! 0 = CAN"
      then have "n = 1" using ok_t(2) by simp
      moreover from this have "buff (xmdm t) ! 0 = p ! 0" using x p(3) by (simp add: nth_append)
      ultimately show False using a p(2) by (simp add: no_control_def)
    qed
    ultimately have "t' = on_xmdm (\<lambda>x. x\<lparr>buff := (buff x)[unat (position x) := p ! n], position := position x + 1\<rparr>) t"
      using handle_stores [OF ok_t(1), of "p ! n" c env] h True ok_t(2,3) p(1) by simp
    then have "stored c s (take (n + 1) p) t'"
      using tx x buff ok_t(2) True by (simp add: stored_def min_def algebra_simps)
    then show ?thesis using True by simp
  next
    case False
    then have full: "unat (position (xmdm t)) + 1 = packet_length t" and all: "take (n + 1) p = p" "n + 1 = length p"
      using ok_t(2,3) p by auto
    obtain answer k' xs where r: "receive (fallback (xmdm s) \<noteq> 0) (last_packet (xmdm s)) p = (answer, k', xs)"
      by (metis prod_cases3)
    have q: "take (packet_length t) ((buff (xmdm t))[unat (position (xmdm t)) := p ! n]) = p"
      using buff all p(1) ok_t(2,3) by simp
    have "receive (fallback (xmdm t) \<noteq> 0) (last_packet (xmdm t))
        (take (packet_length t) ((buff (xmdm t))[unat (position (xmdm t)) := p ! n])) = (answer, k', xs)"
      unfolding q using r x by simp
    from handle_completes [OF line tx(1) ok_t(1) full refl this] h show ?thesis
      using False r tx x buff all ok_t(2) by (auto simp: answered_def)
  qed
qed

lemma handled_prefix:
  assumes "handled c env (st0, s) bs (st, t)" "bs = take (length bs) p" "length bs \<le> length p"
    and line: "served_line c 0 env xvars" and s: "tx_ok c (units s 0)" "xm_ok s" "position (xmdm s) = 0"
    and p: "length p = packet_length s" "no_control p"
  shows "if length bs < length p then stored c s bs t else answered c s p t"
  using assms(1-3)
proof (induction bs "(st, t)" arbitrary: st t rule: handled.induct)
  case nothing
  have "(xmdm s)\<lparr>buff := buff (xmdm s), position := 0\<rparr> = xmdm s" using s(3) by simp
  then show ?case using nothing s p by (auto simp: stored_def xm_ok_def)
next
  case (meanwhile bs st t t')
  then show ?case using stored_quiet answered_quiet by (metis (no_types, lifting))
next
  case (byte bs st t b st' t')
  have l: "length bs < length p" using byte.prems(2) by simp
  then have "bs @ [b] = take (length bs) p @ [p ! length bs]" using byte.prems(1) by (simp add: take_Suc_conv_app_nth)
  then have bs: "bs = take (length bs) p" "length bs < length p" "b = p ! length bs" using l by simp_all
  then have "stored c s bs t" using byte.hyps(2) [OF bs(1)] by simp
  then show ?case
    using handled_byte [OF line s(2) p bs(2), of t st' t'] byte.hyps(3) bs byte.prems by (auto split: if_splits)
qed

text \<open>
  C27: The byte by byte state machine refines the packet machine: whatever interrupts happen in between, after all bytes of
  a packet have been handled the receiver has sent exactly the answer, keeps exactly the packet number and has appended
  exactly the data that \<open>receive\<close> says, and is ready for the next packet.
\<close>

theorem packet_machine_refined:
  assumes "handled c env (st0, s) p (st, t)" "served_line c 0 env xvars"
    and "tx_ok c (units s 0)" "xm_ok s" "position (xmdm s) = 0" "length p = packet_length s" "no_control p"
    and "receive (fallback (xmdm s) \<noteq> 0) (last_packet (xmdm s)) p = (answer, k, xs)"
  shows "sent c 0 t = sent c 0 s @ [answer] \<and> last_packet (xmdm t) = k \<and> position (xmdm t) = 0 \<and> fallback (xmdm t) = fallback (xmdm s)
    \<and> file_array t = write_ring (unat (fileposition s)) xs (file_array s)
    \<and> unat (fileposition t) = (unat (fileposition s) + length xs) mod 1024 \<and> tx_ok c (units t 0) \<and> xm_ok t"
proof -
  have "answered c s p t" using handled_prefix [OF assms(1) _ _ assms(2-7)] by simp
  then show ?thesis using assms(4,6,8) by (auto simp: answered_def xm_ok_def)
qed

section \<open>A whole file\<close>

lemma putc0_prints: "served_line c 0 env keep \<Longrightarrow> prints c 0 keep (uart0_putc c env b) [b]"
  unfolding uart0_putc_def by (rule served_line.putc_prints)

lemma handle_end:
  assumes "served_line c 0 env xvars" "tx_ok c (units s 0)" "position (xmdm s) = 0"
  shows "\<exists>s'. HandleIncomingData c env EOT s = ret (transmission_completed, s') \<and> xvars s' = xvars s
    \<and> sent c 0 s' = sent c 0 s @ [ACK, ACK] \<and> tx_ok c (units s' 0)"
proof -
  obtain t where t: "uart0_putc c env ACK s = ret t" "tx_ok c (units t 0)" "sent c 0 t = sent c 0 s @ [ACK]" "xvars t = xvars s"
    by (rule printsE [OF putc0_prints [OF assms(1)] assms(2)])
  obtain u where u: "uart0_putc c env ACK t = ret u" "tx_ok c (units u 0)" "sent c 0 u = sent c 0 t @ [ACK]" "xvars u = xvars t"
    by (rule printsE [OF putc0_prints [OF assms(1)] t(2)])
  show ?thesis using t u assms(3) by (simp add: HandleIncomingData_def)
qed

text \<open>The function returns and never leaves its arrays, whatever the byte.\<close>

lemma handle_total:
  assumes line: "served_line c 0 env xvars" and tx: "tx_ok c (units s 0)" and ok: "xm_ok s"
  shows "\<exists>st s'. HandleIncomingData c env b s = ret (st, s') \<and> tx_ok c (units s' 0) \<and> xm_ok s'
    \<and> fallback (xmdm s') = fallback (xmdm s) \<and> retrycount (xmdm s') = retrycount (xmdm s)
    \<and> st \<in> {transmission_in_progres, transmission_completed, transmission_aborted}"
proof -
  consider (eot) "b = EOT" "position (xmdm s) = 0"
    | (can) "\<not> (b = EOT \<and> position (xmdm s) = 0)" "position (xmdm s) = 1 \<and> b = CAN \<and> buff (xmdm s) ! 0 = CAN"
    | (store) "\<not> (b = EOT \<and> position (xmdm s) = 0)" "\<not> (position (xmdm s) = 1 \<and> b = CAN \<and> buff (xmdm s) ! 0 = CAN)"
        "unat (position (xmdm s)) + 1 < packet_length s"
    | (full) "unat (position (xmdm s)) + 1 = packet_length s"
  proof -
    have "unat (position (xmdm s)) + 1 < packet_length s \<or> unat (position (xmdm s)) + 1 = packet_length s"
      using ok unfolding xm_ok_def by linarith
    then show ?thesis using that by blast
  qed
  then show ?thesis
  proof cases
    case eot
    then show ?thesis using handle_end [OF line tx eot(2)] ok by (auto simp: xvars_def xm_ok_def)
  next
    case can
    then show ?thesis using tx ok by (simp add: HandleIncomingData_def)
  next
    case store
    then show ?thesis
      using handle_stores [OF ok store(3,1,2)] tx ok position_inc [OF ok] by (simp add: xm_ok_def)
  next
    case full
    obtain answer k xs where "receive (fallback (xmdm s) \<noteq> 0) (last_packet (xmdm s))
        (take (packet_length s) ((buff (xmdm s))[unat (position (xmdm s)) := b])) = (answer, k, xs)" by (metis prod_cases3)
    from handle_completes [OF line tx ok full refl this] ok show ?thesis by (auto simp: xm_ok_def)
  qed
qed

lemma handled_exists:
  assumes line: "served_line c 0 env xvars" and "tx_ok c (units s 0)" "xm_ok s"
  shows "\<exists>st t. handled c env (st0, s) bs (st, t) \<and> tx_ok c (units t 0) \<and> xm_ok t"
proof (induction bs rule: rev_induct)
  case Nil
  then show ?case using assms handled.nothing by blast
next
  case (snoc b bs)
  then obtain st t where t: "handled c env (st0, s) bs (st, t)" "tx_ok c (units t 0)" "xm_ok t" by blast
  then show ?case using handle_total [OF line t(2,3), of b] handled.byte [OF t(1)] by blast
qed

text \<open>
  A sender that transmits the blocks one after the other. It goes on to the next block when it gets the answer ACK, and
  sends the block again when the answer is lost or is NACK because the packet was damaged on the line. \<open>n\<close> is the number
  of blocks it has got acknowledged.
\<close>

inductive transfer :: "usart_config \<Rightarrow> 'z xmodem_ext env \<Rightarrow> u8 list list \<Rightarrow> 'z xmodem_scheme \<Rightarrow> nat \<Rightarrow> 'z xmodem_scheme \<Rightarrow> bool"
  for c env blocks s0 where
  start: "transfer c env blocks s0 0 s0"
| acknowledged: "transfer c env blocks s0 n s \<Longrightarrow> n < length blocks \<Longrightarrow>
    handled c env (st, s) (packet (fallback (xmdm s0) \<noteq> 0) (of_nat (n + 1)) (blocks ! n)) (st', s') \<Longrightarrow>
    last (sent c 0 s') = ACK \<Longrightarrow> transfer c env blocks s0 (n + 1) s'"
| answer_lost: "transfer c env blocks s0 n s \<Longrightarrow> n < length blocks \<Longrightarrow>
    handled c env (st, s) (packet (fallback (xmdm s0) \<noteq> 0) (of_nat (n + 1)) (blocks ! n)) (st', s') \<Longrightarrow>
    transfer c env blocks s0 n s'"
| damaged: "transfer c env blocks s0 n s \<Longrightarrow> length q = packet_length s0 \<Longrightarrow> no_control q \<Longrightarrow>
    handled c env (st, s) q (st', s') \<Longrightarrow> last (sent c 0 s') = NACK \<Longrightarrow> transfer c env blocks s0 n s'"

text \<open>The receiver holds \<open>m\<close> blocks.\<close>

definition holds :: "usart_config \<Rightarrow> u8 list list \<Rightarrow> 'z xmodem_scheme \<Rightarrow> nat \<Rightarrow> 'z xmodem_scheme \<Rightarrow> bool" where
  "holds c blocks s0 m s \<longleftrightarrow> xm_ok s0 \<and> m \<le> length blocks \<and> last_packet (xmdm s) = of_nat m \<and> position (xmdm s) = 0
     \<and> fallback (xmdm s) = fallback (xmdm s0) \<and> tx_ok c (units s 0) \<and> xm_ok s
     \<and> file_array s = write_ring (unat (fileposition s0)) (concat (take m blocks)) (file_array s0)
     \<and> unat (fileposition s) = (unat (fileposition s0) + length (concat (take m blocks))) mod 1024"

lemma no_control_packet: "no_control (packet cksum k xs)"
  by (simp add: no_control_def packet_def)

lemma receive_sent_packet:
  assumes "length xs = 128"
  shows "receive cksum k (packet cksum k xs) = (ACK, k, [])" "j = k + 1 \<Longrightarrow> receive cksum k (packet cksum j xs) = (ACK, j, xs)"
  using assms by (simp_all add: receive_def packet_def Let_def)

lemma holds_answered:
  assumes h: "holds c blocks s0 m s" and a: "answered c s p s'"
    and r: "receive (fallback (xmdm s) \<noteq> 0) (last_packet (xmdm s)) p = (answer, k, xs)"
    and m': "length p = packet_length s" "k = of_nat m'" "m' \<le> length blocks" "concat (take m' blocks) = concat (take m blocks) @ xs"
  shows "holds c blocks s0 m' s'"
proof -
  let ?fp = "unat (fileposition s0)" and ?d = "concat (take m blocks)"
  have s: "file_array s = write_ring ?fp ?d (file_array s0)" "unat (fileposition s) = (?fp + length ?d) mod 1024"
    "length (file_array s) = 1024" "length (buff (xmdm s)) = 133" "fallback (xmdm s) \<in> {0, 1}" "fallback (xmdm s) = fallback (xmdm s0)"
    "?fp < 1024" "xm_ok s0"
    using h by (simp_all add: holds_def xm_ok_def)
  have t: "tx_ok c (units s' 0)" "file_array s' = write_ring (unat (fileposition s)) xs (file_array s)"
    "unat (fileposition s') = (unat (fileposition s) + length xs) mod 1024"
    "last_packet (xmdm s') = k" "position (xmdm s') = 0" "fallback (xmdm s') = fallback (xmdm s)"
    "length (buff (xmdm s')) = 133"
    using a r m'(1) s(4) by (auto simp: answered_def)
  have fp: "write_ring ?fp (?d @ xs) (file_array s0) = write_ring (unat (fileposition s)) xs (file_array s)"
    "unat (fileposition s') = (?fp + length (?d @ xs)) mod 1024"
    using write_ring_append [OF s(7), of ?d xs] s(1,2) t(3) by (simp_all add: mod_add_left_eq add.assoc)
  have "xm_ok s'" using t s by (auto simp: xm_ok_def)
  then show ?thesis using t s(6,8) m' fp by (simp add: holds_def)
qed

lemma holds_round:
  assumes line: "served_line c 0 env xvars" and h: "holds c blocks s0 m s" "n < length blocks" "m = n \<or> m = n + 1"
    and blocks: "\<forall>b\<in>set blocks. length b = 128" and fb: "xm_ok s0"
    and r: "handled c env (st, s) (packet (fallback (xmdm s0) \<noteq> 0) (of_nat (n + 1)) (blocks ! n)) (st', s')"
  shows "holds c blocks s0 (n + 1) s' \<and> last (sent c 0 s') = ACK"
proof -
  let ?p = "packet (fallback (xmdm s0) \<noteq> 0) (of_nat (n + 1)) (blocks ! n)"
  have len: "length (blocks ! n) = 128" using blocks h(2) by simp
  have s: "tx_ok c (units s 0)" "xm_ok s" "position (xmdm s) = 0" "fallback (xmdm s) = fallback (xmdm s0)"
    "last_packet (xmdm s) = of_nat m" using h(1) by (simp_all add: holds_def)
  have "fallback (xmdm s0) = 0 \<or> fallback (xmdm s0) = 1" using fb by (simp add: xm_ok_def)
  then have pl: "length ?p = packet_length s" using length_packet [OF len] s(4) by auto
  have ans: "receive (fallback (xmdm s) \<noteq> 0) (last_packet (xmdm s)) ?p = (ACK, of_nat (n + 1), if m = n then blocks ! n else [])"
  proof -
    have "receive (fallback (xmdm s0) \<noteq> 0) (of_nat n) ?p = (ACK, of_nat (n + 1), blocks ! n)"
      by (rule receive_sent_packet(2) [OF len]) simp
    then show ?thesis using h(3) receive_sent_packet(1) [OF len] s(4,5) by auto
  qed
  have "answered c s ?p s'"
    using handled_prefix [OF r _ _ line s(1-3) pl no_control_packet] by simp
  moreover have "concat (take (n + 1) blocks) = concat (take m blocks) @ (if m = n then blocks ! n else [])"
    using h(2,3) by (auto simp: take_Suc_conv_app_nth)
  moreover have "last (sent c 0 s') = ACK" using calculation(1) ans by (simp add: answered_def)
  ultimately show ?thesis using holds_answered [OF h(1) _ ans pl] h(2) by simp
qed

lemma transfer_holds:
  assumes "transfer c env blocks s0 n s" "served_line c 0 env xvars" "\<forall>b\<in>set blocks. length b = 128" "holds c blocks s0 0 s0"
    and ok0: "xm_ok s0"
  shows "\<exists>m. (m = n \<or> m = n + 1) \<and> holds c blocks s0 m s"
  using assms(1)
proof (induction rule: transfer.induct)
  case start
  then show ?case using assms(4) by blast
next
  case (acknowledged n s st st' s')
  then show ?case using holds_round [OF assms(2) _ acknowledged.hyps(2) _ assms(3) ok0 acknowledged.hyps(3)] by blast
next
  case (answer_lost n s st st' s')
  then show ?case using holds_round [OF assms(2) _ answer_lost.hyps(2) _ assms(3) ok0 answer_lost.hyps(3)] by blast
next
  case (damaged n s q st st' s')
  then obtain m where m: "m = n \<or> m = n + 1" "holds c blocks s0 m s" by blast
  obtain answer k xs where r: "receive (fallback (xmdm s) \<noteq> 0) (last_packet (xmdm s)) q = (answer, k, xs)" by (metis prod_cases3)
  have "answered c s q s'"
    using handled_prefix [OF damaged.hyps(4) _ _ assms(2)] m(2) damaged.hyps(2,3) by (simp add: holds_def)
  moreover from this have "answer = NACK" using damaged.hyps(5) r by (simp add: answered_def)
  then have "k = last_packet (xmdm s)" "xs = []" using r by (auto elim: receive_cases)
  ultimately have "holds c blocks s0 m s'" using holds_answered [OF m(2) _ r] damaged.hyps(2) m(2) by (simp add: holds_def)
  then show ?case using m(1) by blast
qed

lemma transfer_possible:
  assumes "served_line c 0 env xvars" "\<forall>b\<in>set blocks. length b = 128" "holds c blocks s0 0 s0" "n \<le> length blocks"
  shows "\<exists>s. transfer c env blocks s0 n s \<and> holds c blocks s0 n s"
  using assms(4)
proof (induction n)
  case 0
  then show ?case using assms(3) transfer.start by blast
next
  case (Suc n)
  then obtain s where s: "transfer c env blocks s0 n s" "holds c blocks s0 n s" by auto
  let ?p = "packet (fallback (xmdm s0) \<noteq> 0) (of_nat (n + 1)) (blocks ! n)"
  obtain st t where t: "handled c env (transmission_in_progres, s) ?p (st, t)"
    using handled_exists [OF assms(1), of s] s(2) unfolding holds_def by blast
  have "xm_ok s0" using assms(3) by (simp add: holds_def)
  with holds_round [OF assms(1) s(2) _ _ assms(2) _ t] Suc.prems have "holds c blocks s0 (n + 1) t" "last (sent c 0 t) = ACK" by auto
  then show ?case using transfer.acknowledged [OF s(1) _ t] Suc.prems by auto
qed


lemma xm_ok_reset: "xm_ok xmodem_reset"
  by (simp add: xm_ok_def xmodem_reset_sels)


lemma packet_machine_refined_witness:
  "\<exists>st t. handled (build_config 0x200 0x220) (board_env (build_config 0x200 0x220) 0x26 0) (transmission_in_progres, xmodem_reset)
      (packet False 1 (replicate 128 7)) (st, t)
    \<and> sent (build_config 0x200 0x220) 0 t = [0x06] \<and> last_packet (xmdm t) = 1"
proof -
  let ?c = "build_config 0x200 0x220" and ?p = "packet False 1 (replicate 128 7)"
  obtain st t where t: "handled ?c (board_env ?c 0x26 0) (transmission_in_progres, xmodem_reset) ?p (st, t)"
    using handled_exists [OF reset_ready(1,2) xm_ok_reset] by blast
  have "receive False 0 ?p = (0x06, 1, replicate 128 7)" by (rule receive_sent_packet(2)) simp_all
  then show ?thesis
    using packet_machine_refined [OF t reset_ready(1,2) xm_ok_reset _ _ no_control_packet, of "0x06" 1 "replicate 128 7"] t
    by (auto simp: xmodem_reset_sels length_packet reset_ready(3))
qed

end
