(* ===== verification/Xmodem_Dump.thy ===== *)
theory Xmodem_Dump
  imports Xmodem_Env
begin

text \<open>
  The hex dump of the file receiver prints what a reference definition of its lines says: offset, sixteen bytes in
  hexadecimal, and the same bytes as characters where they are printable.
\<close>

section \<open>The text\<close>

definition hex2 :: "usart_config \<Rightarrow> u8 \<Rightarrow> u8 list" where
  "hex2 c b = [hex_char c (drop_bit 4 b), hex_char c (b AND 0x0F)]"

definition printable :: "u8 \<Rightarrow> u8" where
  "printable b = (if b < 0x20 \<or> b > 0x7E then of_char CHR ''.'' else b)"

definition line_start :: "usart_config \<Rightarrow> nat \<Rightarrow> u8 list" where
  "line_start c offset = map of_char ''  '' @ hex2 c (lo8 (drop_bit 8 (of_nat offset))) @ hex2 c (lo8 (of_nat offset)) @ map of_char '' ''"

definition line_end :: "u8 list \<Rightarrow> u8 list" where
  "line_end xs = map of_char ''  '' @ map printable xs @ map of_char CRLF"

definition dump_line :: "usart_config \<Rightarrow> u8 list \<Rightarrow> nat \<Rightarrow> u8 list" where
  "dump_line c bs k =
     (let xs = take 16 (drop (16 * k) bs)
      in line_start c (16 * k) @ concat (map (\<lambda>b. of_char CHR '' '' # hex2 c b) xs) @ line_end xs)"

definition dump_text :: "usart_config \<Rightarrow> u8 list \<Rightarrow> nat \<Rightarrow> u8 list" where
  "dump_text c bs n = concat (map (dump_line c bs) [0..<n])"

section \<open>One byte\<close>

text \<open>What the pass for byte \<open>i\<close> prints, and the characters collected so far.\<close>

definition byte_text :: "usart_config \<Rightarrow> u8 list \<Rightarrow> nat \<Rightarrow> u8 list" where
  "byte_text c bs i =
     (if i mod 16 = 0 then (if i \<noteq> 0 then line_end (take 16 (drop (i - 16) bs)) else []) @ line_start c i else [])
     @ of_char CHR '' '' # hex2 c (bs ! i)"

definition collected :: "u8 list \<Rightarrow> nat \<Rightarrow> u8 list \<Rightarrow> bool" where
  "collected bs i line \<longleftrightarrow> length line = 17 \<and> line ! 16 = 0
     \<and> (\<forall>j<i. (i - 1) div 16 * 16 \<le> j \<longrightarrow> line ! (j mod 16) = printable (bs ! j))"

lemma printable_nonzero: "printable b \<noteq> 0"
  by (auto simp: printable_def)

lemma collected_line:
  assumes "collected bs i line" "i mod 16 = 0" "i \<noteq> 0" "i \<le> length bs"
  shows "line = map printable (take 16 (drop (i - 16) bs)) @ 0 # []"
proof (rule nth_equalityI)
  obtain k where k: "i = 16 * Suc k" using assms(2,3) by (metis dvdE mod_0_imp_dvd mult_0_right not0_implies_Suc)
  have first: "(i - 1) div 16 * 16 = 16 * k" unfolding k by simp
  show "length line = length (map printable (take 16 (drop (i - 16) bs)) @ 0 # [])"
    using assms(1,4) k by (simp add: collected_def)
  fix r assume r: "r < length line"
  show "line ! r = (map printable (take 16 (drop (i - 16) bs)) @ 0 # []) ! r"
  proof (cases "r < 16")
    case True
    have "(16 * k + r) mod 16 = r" using True by simp
    then have "line ! r = printable (bs ! (16 * k + r))"
      using assms(1) first True k unfolding collected_def by (metis add.commute le_add2 mult_Suc_right nat_add_left_cancel_less)
    then show ?thesis using True k assms(4) by (simp add: nth_append)
  next
    case False
    then have "r = 16" using r assms(1) by (simp add: collected_def)
    then show ?thesis using assms(1,4) k by (simp add: collected_def nth_append)
  qed
qed

lemma collected_next:
  assumes "collected bs i line"
  shows "collected bs (i + 1) (line[i mod 16 := printable (bs ! i)])"
proof -
  have "line[i mod 16 := printable (bs ! i)] ! (j mod 16) = printable (bs ! j)" if j: "j < i + 1" "i div 16 * 16 \<le> j" for j
  proof (cases "j = i")
    case True
    then show ?thesis using assms by (simp add: collected_def)
  next
    case False
    then have "j < i" using j by simp
    moreover have d: "j div 16 = i div 16" using div_le_mono [OF j(2), of 16] div_le_mono [of j i 16] j(1) by simp
    ultimately have m: "j mod 16 \<noteq> i mod 16" by (metis False div_mult_mod_eq)
    have "(i - 1) div 16 \<le> i div 16" by (rule div_le_mono) simp
    then have "(i - 1) div 16 * 16 \<le> j" using j(2) by linarith
    then show ?thesis using assms m \<open>j < i\<close> by (simp add: collected_def)
  qed
  then show ?thesis using assms by (simp add: collected_def)
qed

lemma in_order_prints:
  assumes "prints c n keep f as" "prints c n keep g bs" "prints c n keep h cs"
  shows "prints c n keep (in_order [f, g, h]) (as @ bs @ cs)"
  using prints_in_order [of c n keep "[f, g, h]" "[as, bs, cs]"] assms by simp

context served_line
begin

lemma cstr_prints:
  "0 \<notin> set (map of_char cs :: u8 list) \<Longrightarrow>
   prints c n keep (uart_putstr (uart_putc c (TX_BUFFER_MASK c) env n) (cstr cs)) (map of_char cs)"
  using putstr_prints [of "map of_char cs" "[]"] by (simp add: cstr_def)

lemma line_end_prints:
  "prints c n keep (in_order [uart_putstr (uart_putc c (TX_BUFFER_MASK c) env n) (cstr ''  ''),
     uart_putstr (uart_putc c (TX_BUFFER_MASK c) env n) (map printable xs @ 0 # []),
     uart_putstr (uart_putc c (TX_BUFFER_MASK c) env n) (cstr CRLF)]) (line_end xs)"
  unfolding line_end_def
  by (intro in_order_prints cstr_prints putstr_prints) (auto simp: printable_nonzero)

lemma line_start_prints:
  "prints c n keep (in_order [uart_putstr (uart_putc c (TX_BUFFER_MASK c) env n) (cstr ''  ''),
     uart_puthex c (uart_putc c (TX_BUFFER_MASK c) env n) (lo8 (drop_bit 8 (of_nat i))),
     uart_puthex c (uart_putc c (TX_BUFFER_MASK c) env n) (lo8 (of_nat i)),
     uart_putc c (TX_BUFFER_MASK c) env n (of_char CHR '' '')]) (line_start c i)"
proof -
  have "list_all2 (prints c n keep) [uart_putstr (uart_putc c (TX_BUFFER_MASK c) env n) (cstr ''  ''),
     uart_puthex c (uart_putc c (TX_BUFFER_MASK c) env n) (lo8 (drop_bit 8 (of_nat i))),
     uart_puthex c (uart_putc c (TX_BUFFER_MASK c) env n) (lo8 (of_nat i)),
     uart_putc c (TX_BUFFER_MASK c) env n (of_char CHR '' '')]
     [map of_char ''  '', hex2 c (lo8 (drop_bit 8 (of_nat i))), hex2 c (lo8 (of_nat i)), [of_char CHR '' '']]"
    using cstr_prints [of "''  ''"] puthex_prints putc_prints by (simp add: hex2_def)
  from prints_in_order [OF this] show ?thesis by (simp add: line_start_def)
qed

end

lemma dump_byte:
  assumes line: "served_line c 0 env keep" and i: "i < length bs" "i < 65536" and l: "collected bs i line"
  shows "yields c 0 keep (HexDump16_byte c env bs (of_nat i) line) (line[i mod 16 := printable (bs ! i)]) (byte_text c bs i)"
proof -
  let ?putc = "uart0_putc c env"
  have w: "unat (of_nat i :: u16) = i" using i(2) by (simp add: unat_of_nat)
  have "unat ((of_nat i :: u16) mod 16) = i mod 16" using w by (simp add: unat_mod)
  moreover from this have "(of_nat i :: u16) mod 16 = 0 \<longleftrightarrow> i mod 16 = 0" by (metis unat_eq_zero)
  moreover have "(of_nat i :: u16) = 0 \<longleftrightarrow> i = 0" using w by (metis unat_eq_zero)
  ultimately have w: "unat (of_nat i :: u16) = i" "unat ((of_nat i :: u16) mod 16) = i mod 16"
    "(of_nat i :: u16) mod 16 = 0 \<longleftrightarrow> i mod 16 = 0" "(of_nat i :: u16) = 0 \<longleftrightarrow> i = 0" using w by blast+
  have collected: "i mod 16 = 0 \<Longrightarrow> i \<noteq> 0 \<Longrightarrow> line = map printable (take 16 (drop (i - 16) bs)) @ 0 # []"
    using collected_line [OF l] i(1) by simp
  let ?tail = "\<lambda>s. if i \<noteq> 0 then in_order [uart0_putstr c env (cstr ''  ''), uart0_putstr c env line, uart0_putstr c env (cstr CRLF)] s else ret s"
  have e: "i mod 16 = 0 \<Longrightarrow> prints c 0 keep ?tail (if i \<noteq> 0 then line_end (take 16 (drop (i - 16) bs)) else [])"
    using served_line.line_end_prints [OF line, of "take 16 (drop (i - 16) bs)"] collected
    by (cases "i = 0") (simp_all add: uart0_putstr_def uart0_putc_def prints_def)
  let ?head = "\<lambda>s. if i mod 16 = 0 then obind (?tail s) (in_order
            [uart0_putstr c env (cstr ''  ''), uart0_puthex c env (lo8 (drop_bit 8 (of_nat i))), uart0_puthex c env (lo8 (of_nat i)),
             ?putc (of_char CHR '' '')]) else ret s"
  have h: "prints c 0 keep ?head
    (if i mod 16 = 0 then (if i \<noteq> 0 then line_end (take 16 (drop (i - 16) bs)) else []) @ line_start c i else [])"
  proof (cases "i mod 16 = 0")
    case True
    from prints_seq [OF e [OF True] served_line.line_start_prints [OF line, of i]] True show ?thesis
      by (simp add: uart0_putstr_def uart0_puthex_def uart0_putc_def del: in_order.simps)
  qed (simp add: prints_def)
  have b: "yields c 0 keep (\<lambda>s. obind (?putc (of_char CHR '' '') s) (\<lambda>s. obind (uart0_puthex c env (bs ! i) s) (\<lambda>s.
       ret (line[i mod 16 := printable (bs ! i)], s)))) (line[i mod 16 := printable (bs ! i)]) ([of_char CHR '' ''] @ hex2 c (bs ! i) @ [])"
    unfolding uart0_putc_def uart0_puthex_def hex2_def
    by (intro prints_yields yields_ret served_line.putc_prints [OF line] served_line.puthex_prints [OF line])
  from prints_yields [OF h b] show ?thesis
    by (simp add: HexDump16_byte_def [abs_def] byte_text_def w i(1) printable_def cong: if_cong)
qed

section \<open>The whole dump\<close>

lemma dump_loop:
  assumes line: "served_line c 0 env keep" and n: "n \<le> length bs" "n < 65536" and i: "i \<le> n" and l: "collected bs i line"
  shows "\<exists>line'. yields c 0 keep (HexDump16_loop c env bs (of_nat n) (of_nat i) line) line' (concat (map (byte_text c bs) [i..<n]))
    \<and> collected bs n line'"
  using i l
proof (induction i arbitrary: line rule: inc_induct)
  case base
  have "HexDump16_loop c env bs (of_nat n) (of_nat n) line s = ret (line, s)" for s
    by (subst HexDump16_loop.simps) simp
  then show ?case using base by (auto simp: yields_def)
next
  case (step i)
  have lt: "(of_nat i :: u16) < of_nat n" using step.hyps n by (simp add: word_less_nat_alt unat_of_nat)
  let ?line = "line[i mod 16 := printable (bs ! i)]"
  have b: "yields c 0 keep (HexDump16_byte c env bs (of_nat i) line) ?line (byte_text c bs i)"
    using dump_byte [OF assms(1) _ _ step.prems] step.hyps n by simp
  obtain line' where r: "yields c 0 keep (HexDump16_loop c env bs (of_nat n) (of_nat (Suc i)) ?line) line' (concat (map (byte_text c bs) [Suc i..<n]))"
    "collected bs n line'" using step.IH [of ?line] collected_next [OF step.prems] by auto
  have eq: "HexDump16_loop c env bs (of_nat n) (of_nat i) line = (\<lambda>s. obind (HexDump16_byte c env bs (of_nat i) line s)
      (\<lambda>(line, s). HexDump16_loop c env bs (of_nat n) (of_nat (Suc i)) line s))"
    using lt by (intro ext, subst HexDump16_loop.simps) (simp add: add.commute)
  have "yields c 0 keep (HexDump16_loop c env bs (of_nat n) (of_nat i) line) line' (byte_text c bs i @ concat (map (byte_text c bs) [Suc i..<n]))"
    unfolding eq by (rule yields_bind [OF b]) (use r(1) in simp)
  then show ?case using r(2) step.hyps by (auto simp: upt_conv_Cons)
qed

lemma map_nth_upt: "a + k \<le> length xs \<Longrightarrow> map ((!) xs) [a..<a + k] = take k (drop a xs)"
  by (rule nth_equalityI) simp_all

lemma block_text:
  assumes "16 * k + 16 \<le> length bs"
  shows "concat (map (byte_text c bs) [16 * k..<16 * k + 16]) = (if k \<noteq> 0 then line_end (take 16 (drop (16 * k - 16) bs)) else [])
    @ line_start c (16 * k) @ concat (map (\<lambda>b. of_char CHR '' '' # hex2 c b) (take 16 (drop (16 * k) bs)))"
proof -
  have "byte_text c bs j = of_char CHR '' '' # hex2 c (bs ! j)" if j: "j \<in> set [16 * k + 1..<16 * k + 16]" for j
  proof -
    obtain r where r: "j = 16 * k + r" "0 < r" "r < 16" using j by (intro that [of "j - 16 * k"]) auto
    then have "j mod 16 = r" by simp
    then show ?thesis using r by (simp add: byte_text_def)
  qed
  then have "map (byte_text c bs) [16 * k + 1..<16 * k + 16] = map (\<lambda>j. of_char CHR '' '' # hex2 c (bs ! j)) [16 * k + 1..<16 * k + 16]"
    by (rule map_cong [OF refl])
  moreover have "[16 * k..<16 * k + 16] = 16 * k # [16 * k + 1..<16 * k + 16]" by (simp add: upt_conv_Cons)
  moreover have "byte_text c bs (16 * k) = (if k \<noteq> 0 then line_end (take 16 (drop (16 * k - 16) bs)) else [])
    @ line_start c (16 * k) @ of_char CHR '' '' # hex2 c (bs ! (16 * k))" by (simp add: byte_text_def)
  ultimately have "concat (map (byte_text c bs) [16 * k..<16 * k + 16]) = (if k \<noteq> 0 then line_end (take 16 (drop (16 * k - 16) bs)) else [])
    @ line_start c (16 * k) @ concat (map (\<lambda>j. of_char CHR '' '' # hex2 c (bs ! j)) [16 * k..<16 * k + 16])"
    by (simp only: list.map concat.simps append_assoc append_Cons)
  then show ?thesis using map_nth_upt [OF assms] by (metis (no_types, lifting) map_map comp_apply map_cong)
qed

lemma dump_text_simps: "dump_text c bs 0 = []" "dump_text c bs (Suc n) = dump_text c bs n @ dump_line c bs n"
  by (simp_all add: dump_text_def)

lemma text_lines:
  assumes "16 * Suc n \<le> length bs"
  shows "concat (map (byte_text c bs) [0..<16 * Suc n]) @ line_end (take 16 (drop (16 * n) bs)) = dump_text c bs (Suc n)"
  using assms
proof (induction n)
  case 0
  then show ?case using block_text [of 0 bs c] by (simp add: dump_text_simps dump_line_def Let_def del: upt_Suc)
next
  case (Suc n)
  have "[0..<16 * Suc (Suc n)] = [0..<16 * Suc n] @ [16 * Suc n..<16 * Suc n + 16]"
    using upt_add_eq_append [of 0 "16 * Suc n" 16] by simp
  then show ?case using Suc block_text [of "Suc n" bs c]
    by (simp add: dump_text_simps dump_line_def Let_def del: upt_Suc)
qed

lemma dump_prints:
  assumes line: "served_line c 0 env keep" and n: "0 < n" "16 * n \<le> length bs" "16 * n < 65536" and u: "length uninit = 17"
  shows "prints c 0 keep (HexDump16 c env uninit bs (of_nat (16 * n))) (dump_text c bs n)"
proof -
  obtain m where m: "n = Suc m" using n(1) by (cases n) auto
  have "collected bs 0 (uninit[16 := 0])" using u by (simp add: collected_def)
  then obtain line' where l: "yields c 0 keep (HexDump16_loop c env bs (of_nat (16 * n)) 0 (uninit[16 := 0])) line'
      (concat (map (byte_text c bs) [0..<16 * n]))" "collected bs (16 * n) line'"
    using dump_loop [OF line n(2,3), of 0] by auto
  have line': "line' = map printable (take 16 (drop (16 * m) bs)) @ 0 # []"
    using collected_line [OF l(2) _ _ n(2)] m by simp
  have "unat (of_nat (16 * n) :: u16) = 16 * n" using n(3) by (simp only: unat_of_nat) simp
  then have "unat ((of_nat (16 * n) :: u16) mod 16) = 0" by (simp only: unat_mod) simp
  then have "(of_nat (16 * n) :: u16) mod 16 = 0" by (simp only: unat_eq_zero)
  then have pad: "HexDump16_pad c env (of_nat (16 * n)) line s = ret (line, s)" for line s
    by (subst HexDump16_pad.simps) simp
  have "prints c 0 keep (HexDump16 c env uninit bs (of_nat (16 * n)))
      (concat (map (byte_text c bs) [0..<16 * n]) @ line_end (take 16 (drop (16 * m) bs)))"
    unfolding HexDump16_def [abs_def] Let_def
    by (rule yields_prints [OF l(1)]) (simp only: pad prod.case obind_ret line' uart0_putstr_def uart0_putc_def
        served_line.line_end_prints [OF line])
  then show ?thesis using text_lines [of m bs c] n(2) by (simp only: m)
qed

text \<open>
  C31: The hex dump returns and prints the reference text: for every block of sixteen bytes its offset, the bytes in hexadecimal and the
  printable characters, with dots for the others. It changes no variable of the program, whatever the
  uninitialised local array holds.
\<close>

theorem hexdump_prints_lines:
  assumes "served_line c 0 env keep" "0 < n" "16 * n \<le> length bs" "16 * n < 65536" "length uninit = 17" "tx_ok c (units s 0)"
  shows "\<exists>s'. HexDump16 c env uninit bs (of_nat (16 * n)) s = ret s' \<and> sent c 0 s' = sent c 0 s @ dump_text c bs n
    \<and> keep s' = keep s \<and> tx_ok c (units s' 0)"
  using dump_prints [OF assms(1-5)] assms(6) unfolding prints_def by blast

lemma hexdump_prints_lines_witness:
  "\<exists>s'. HexDump16 (build_config 0x200 0x220) (board_env (build_config 0x200 0x220) 0x26 0) (replicate 17 9) (replicate 1024 0x41) 1024
      xmodem_reset = ret s'
    \<and> sent (build_config 0x200 0x220) 0 s' = dump_text (build_config 0x200 0x220) (replicate 1024 0x41) 64"
proof -
  let ?c = "build_config 0x200 0x220"
  have "served_line ?c 0 (board_env ?c 0x26 0) xkeep" by (rule receiver.served_line_axioms)
  from hexdump_prints_lines [OF this, of 64 "replicate 1024 0x41" "replicate 17 9" xmodem_reset] show ?thesis
    using tx_ok_reset by (simp add: units_xmodem_reset sent_def) blast
qed

end
