(* ===== verification/Xmodem_Main.thy ===== *)
theory Xmodem_Main
  imports Xmodem_Transfer Xmodem_Dump
begin

text \<open>
  The main loop of the file receiver: a pass returns, keeps the arrays and ranges (with one exception, which ends in a write
  outside the packet buffer), handles the received bytes in their order, and what the time limits do.
\<close>

section \<open>A state the loop runs in\<close>

definition sys_ok :: "usart_config \<Rightarrow> 'z xmodem_scheme \<Rightarrow> bool" where
  "sys_ok c s \<longleftrightarrow> tx_ok c (units s 0) \<and> rx_ok c (units s 0) \<and> xm_ok s"

definition rxq :: "'z xmodem_scheme \<Rightarrow> _" where
  "rxq s = (rx_Head (units s 0), rx_Tail (units s 0), rx_buffer (units s 0))"

lemma rxq_eq:
  assumes "rxq s' = rxq s"
  shows "rx_ok c (units s' 0) = rx_ok c (units s 0)" "rx_contents c (units s' 0) = rx_contents c (units s 0)"
  using assms by (simp_all add: rxq_def rx_ok_def rx_contents_def)

lemma xm_ok_xvars: "xvars s' = xvars s \<Longrightarrow> xm_ok s' = xm_ok s"
  by (simp add: xvars_def xm_ok_def)

lemma xkeep_eq: "xkeep s = (xvars s, rxq s)"
  by (simp add: xkeep_def rxq_def)

lemma xkeep_rxq: "served_line c 0 env xkeep \<Longrightarrow> served_line c 0 env rxq"
  by (rule served_coarser [where keep = xkeep]) (simp_all add: xkeep_eq)

lemma sys_ok_keep: "sys_ok c s \<Longrightarrow> tx_ok c (units s' 0) \<Longrightarrow> xkeep s' = xkeep s \<Longrightarrow> sys_ok c s'"
  using rxq_eq [of s' s c] xm_ok_xvars [of s' s] by (simp add: sys_ok_def xkeep_eq)

lemma prints_sys_ok:
  assumes "prints c 0 xkeep f bs" "sys_ok c s"
  obtains s' where "f s = ret s'" "sys_ok c s'" "sent c 0 s' = sent c 0 s @ bs" "xvars s' = xvars s" "rxq s' = rxq s"
proof -
  have "tx_ok c (units s 0)" using assms(2) by (simp add: sys_ok_def)
  with assms(1) obtain s' where "f s = ret s'" "tx_ok c (units s' 0)" "sent c 0 s' = sent c 0 s @ bs" "xkeep s' = xkeep s"
    by (rule printsE)
  then show ?thesis using that [of s'] sys_ok_keep [OF assms(2), of s'] by (simp add: xkeep_eq)
qed

lemma puts_prints:
  assumes "served_line c 0 env keep" "0 \<notin> set (map of_char cs :: u8 list)"
  shows "prints c 0 keep (uart0_putstr c env (cstr cs)) (map of_char cs)" "prints c 0 keep (uart0_puts_p c env (cstr cs)) (map of_char cs)"
  using served_line.putstr_prints [OF assms, of "[]"]
  by (simp_all add: uart0_putstr_def uart0_puts_p_def uart_puts_p_def [abs_def] uart0_putc_def cstr_def)

section \<open>Reading all bytes\<close>

lemma putc_rxq:
  assumes "served_line c 0 env rxq" "uart0_putc c env b s = ret s'" "tx_ok c (units s 0)"
  shows "rxq s' = rxq s" "tx_ok c (units s' 0)"
  using printsE [OF putc0_prints [OF assms(1), of b] assms(3)] assms(2) by auto

lemma MoveData_loop_units: "MoveData_loop p n i s = ret s' \<Longrightarrow> units s' = units s"
proof (induction p n i s rule: MoveData_loop.induct)
  case (1 p n i s)
  then show ?case by (subst (asm) (2) MoveData_loop.simps) (auto simp: Let_def split: if_splits)
qed

lemma handle_rxq:
  assumes line: "served_line c 0 env rxq" and tx: "tx_ok c (units s 0)" and h: "HandleIncomingData c env b s = ret (st, s')"
  shows "rxq s' = rxq s"
proof -
  have u: "rxq (on_xmdm f t) = rxq t" "rxq (restart_time t) = rxq t" for f and t :: "'a xmodem_scheme" by (simp_all add: rxq_def)
  have m: "rxq t' = rxq t" if "MoveData p n t = ret t'" for p n and t t' :: "'a xmodem_scheme"
    using that MoveData_loop_units by (fastforce simp: MoveData_def rxq_def)
  have st: "t' = on_xmdm (\<lambda>x. x\<lparr>buff := (buff x)[unat (position x) := b], position := position x + 1\<rparr>) t"
    if "store_byte b t = ret t'" for t t' :: "'a xmodem_scheme"
    using that by (simp add: store_byte_def split: if_splits)
  show ?thesis
    using h tx putc_rxq [OF line]
    by (fastforce simp: HandleIncomingData_def obind_eq_ret Let_def u dest: m st split: if_splits prod.splits)
qed

lemma handled_trans:
  assumes "handled c env b cs d" "handled c env a bs b"
  shows "handled c env a (bs @ cs) d"
  using assms
proof (induction rule: handled.induct)
  case (byte cs st s x st' s')
  then show ?case using handled.byte [of c env a "bs @ cs"] by fastforce
qed (auto intro: handled.intros)

lemma read_all_step:
  assumes line: "served_line c 0 env xkeep" and echo: "\<not> GETC_ECHO c" and ok: "sys_ok c s" and rx: "rx_contents c (units s 0) = b # bs"
  obtains t st1 u where "quiet c s t" "tx_ok c (units t 0)" "xm_ok t" "HandleIncomingData c env b t = ret (st1, u)"
    "read_all c env st s = read_all c env st1 (env u)" "quiet c u (env u)" "sys_ok c (env u)" "rx_contents c (units (env u) 0) = bs"
    "fallback (xmdm u) = fallback (xmdm s)" "retrycount (xmdm u) = retrycount (xmdm s)"
    "st1 \<in> {transmission_in_progres, transmission_completed, transmission_aborted}"
proof -
  note s = ok [unfolded sys_ok_def]
  obtain t where t: "uart0_getc c env s = ret (b, t)" "quiet c s t" "rx_ok c (units t 0)" "rx_contents c (units t 0) = bs"
    "uart0_AvailableBytes c s \<noteq> 0"
    using getc_takes [of c s env, unfolded rx] s echo by auto
  then have t_ok: "tx_ok c (units t 0)" "xm_ok t" "xmdm t = xmdm s" using s xm_ok_xvars [of t s] by (auto simp: quiet_def xvars_def)
  obtain st1 u where u: "HandleIncomingData c env b t = ret (st1, u)" "tx_ok c (units u 0)" "xm_ok u"
    "fallback (xmdm u) = fallback (xmdm t)" "retrycount (xmdm u) = retrycount (xmdm t)"
    "st1 \<in> {transmission_in_progres, transmission_completed, transmission_aborted}"
    using handle_total [OF xkeep_xvars [OF line] t_ok(1,2), of b] by blast
  have rx: "rxq u = rxq t" by (rule handle_rxq [OF xkeep_rxq [OF line] t_ok(1) u(1)])
  let ?v = "env u"
  have v: "xkeep ?v = xkeep u" "tx_ok c (units ?v 0)" "sent c 0 ?v = sent c 0 u"
    using served_line.env_keep [OF line] served_line.env_ok [OF line u(2)] served_line.env_sent [OF line u(2)] by auto
  have q: "rxq ?v = rxq t" "xvars ?v = xvars u" using v(1) rx by (simp_all add: xkeep_eq)
  have vok: "sys_ok c ?v" "rx_contents c (units ?v 0) = bs"
    using v(2) q rxq_eq [of ?v t c] xm_ok_xvars [of ?v u] u(3) t(3,4) by (simp_all add: sys_ok_def)
  have quiet: "quiet c u ?v" using q(2) v(2,3) by (simp add: quiet_def)
  have "read_all c env st s = read_all c env st1 ?v"
    using t(1,5) u(1) by (subst read_all.simps) (simp add: ret_def obind_def)
  then show ?thesis using that [OF t(2) t_ok(1,2) u(1) _ quiet vok] u(4-6) t_ok(3) by simp
qed

lemma read_all_pass:
  assumes line: "served_line c 0 env xkeep" and echo: "\<not> GETC_ECHO c" and ok: "sys_ok c s"
  shows "\<exists>st' s'. read_all c env st s = ret (st', s') \<and> handled c env (st, s) (rx_contents c (units s 0)) (st', s')
    \<and> rx_contents c (units s' 0) = [] \<and> sys_ok c s' \<and> fallback (xmdm s') = fallback (xmdm s)
    \<and> retrycount (xmdm s') = retrycount (xmdm s) \<and> st' \<in> {st, transmission_in_progres, transmission_completed, transmission_aborted}"
  using ok
proof (induction "rx_contents c (units s 0)" arbitrary: st s)
  case Nil
  then have "read_all c env st s = ret (st, s)"
    using getc_takes [of c s env] echo by (subst read_all.simps) (auto simp: sys_ok_def ret_def)
  then show ?case using Nil handled.nothing by (metis insertI1)
next
  case (Cons b bs)
  obtain t st1 u where t: "quiet c s t" "HandleIncomingData c env b t = ret (st1, u)"
    "read_all c env st s = read_all c env st1 (env u)" "quiet c u (env u)" "sys_ok c (env u)" "rx_contents c (units (env u) 0) = bs"
    "fallback (xmdm u) = fallback (xmdm s)" "retrycount (xmdm u) = retrycount (xmdm s)"
    "st1 \<in> {transmission_in_progres, transmission_completed, transmission_aborted}"
    using read_all_step [OF line echo Cons.prems Cons.hyps(2) [symmetric], of st] by metis
  have "handled c env (st, s) [b] (st1, env u)"
    using handled.byte [OF handled.meanwhile [OF _ t(1)] t(2), of "(st, s)" "[]" st] handled.nothing [of c env "(st, s)"]
      handled.meanwhile [of c env "(st, s)" "[b]" st1 u "env u"] t(4) by simp
  moreover obtain st' s' where r: "read_all c env st1 (env u) = ret (st', s')" "handled c env (st1, env u) bs (st', s')"
    "rx_contents c (units s' 0) = []" "sys_ok c s'" "fallback (xmdm s') = fallback (xmdm (env u))"
    "retrycount (xmdm s') = retrycount (xmdm (env u))"
    "st' \<in> {st1, transmission_in_progres, transmission_completed, transmission_aborted}"
    using Cons.hyps(1) [OF t(6) [symmetric] t(5), of st1] t(6) by auto
  ultimately have "handled c env (st, s) (b # bs) (st', s')" using handled_trans [of c env "(st1, env u)" bs] by fastforce
  moreover have "xmdm (env u) = xmdm u" using t(4) by (simp add: quiet_def xvars_def)
  ultimately show ?case using r t(3,7-9) Cons.hyps(2) by auto
qed

text \<open>
  In one pass the program handles exactly the bytes that were received, in their order, and returns with the
  receive buffer empty.
\<close>

lemma read_all_handles:
  assumes "served_line c 0 env xkeep" "\<not> GETC_ECHO c" "sys_ok c s"
  shows "\<exists>st' s'. read_all c env st s = ret (st', s') \<and> handled c env (st, s) (rx_contents c (units s 0)) (st', s')
    \<and> rx_contents c (units s' 0) = [] \<and> sys_ok c s'"
  using read_all_pass [OF assms, of st] by blast

section \<open>One pass\<close>

text \<open>The result of a pass that keeps everything.\<close>

definition runs :: "usart_config \<Rightarrow> (ProgramStatus \<times> 'z xmodem_scheme) outcome \<Rightarrow> bool" where
  "runs c r \<longleftrightarrow> (\<exists>st s. r = ret (st, s) \<and> sys_ok c s \<and> unat (retrycount (xmdm s)) \<le> 17 \<and> st \<noteq> transmission_max_retransmits)"

lemma runs_ret: "sys_ok c s \<Longrightarrow> unat (retrycount (xmdm s)) \<le> 17 \<Longrightarrow> st \<noteq> transmission_max_retransmits \<Longrightarrow> runs c (ret (st, s))"
  by (auto simp: runs_def)

lemma prints_then_runs:
  assumes "prints c 0 xkeep f bs" "sys_ok c s"
    and "\<And>s'. sys_ok c s' \<Longrightarrow> xvars s' = xvars s \<Longrightarrow> rxq s' = rxq s \<Longrightarrow> runs c (g s')"
  shows "runs c (obind (f s) g)"
  using prints_sys_ok [OF assms(1,2)] assms(3) by (metis obind_ret)

lemma prints_list: "\<forall>f\<in>set fs. \<exists>bs. prints c n keep f bs \<Longrightarrow> \<exists>bs. prints c n keep (in_order fs) bs"
proof (induction fs)
  case Nil
  have "prints c n keep (in_order []) []" by (simp add: prints_def)
  then show ?case by blast
next
  case (Cons f fs)
  then obtain as bs where "prints c n keep f as" "prints c n keep (in_order fs) bs" by auto
  then have "prints c n keep (\<lambda>s. obind (f s) (in_order fs)) (as @ bs)" by (rule prints_seq)
  then show ?case by (auto simp: prints_def)
qed

lemma sys_ok_on_xmdm:
  "sys_ok c s \<Longrightarrow> buff (f (xmdm s)) = buff (xmdm s) \<Longrightarrow> position (f (xmdm s)) = position (xmdm s) \<or> position (f (xmdm s)) = 0 \<Longrightarrow>
   fallback (f (xmdm s)) = fallback (xmdm s) \<or> fallback (f (xmdm s)) = 0 \<Longrightarrow> sys_ok c (on_xmdm f s)"
  by (auto simp: sys_ok_def xm_ok_def)

lemma sys_ok_restart: "sys_ok c s \<Longrightarrow> sys_ok c (restart_time s)"
  by (simp add: sys_ok_def xm_ok_def)

lemma retry_eq: "xvars s' = xvars s \<Longrightarrow> xmdm s' = xmdm s"
  by (simp add: xvars_def)

lemma says:
  "served_line c 0 env xkeep \<Longrightarrow> 0 \<notin> set (map of_char cs :: u8 list) \<Longrightarrow> \<exists>bs. prints c 0 xkeep (uart0_puts_p c env (cstr cs)) bs"
  "served_line c 0 env xkeep \<Longrightarrow> \<exists>bs. prints c 0 xkeep (uart0_putc c env b) bs"
  using puts_prints(2) putc0_prints by blast+

lemma message_runs:
  assumes "\<forall>f\<in>set fs. \<exists>bs. prints c 0 xkeep f bs" "sys_ok c s" "unat (retrycount (xmdm s)) \<le> 17"
    and "\<And>s'. sys_ok c s' \<Longrightarrow> xvars s' = xvars s \<Longrightarrow> runs c (g s')"
  shows "runs c (obind (in_order fs s) g)"
  using prints_list [OF assms(1)] prints_then_runs [OF _ assms(2), of "in_order fs" _ g] assms(4) by blast

lemma if_runs: "(P \<Longrightarrow> runs c a) \<Longrightarrow> (\<not> P \<Longrightarrow> runs c b) \<Longrightarrow> runs c (if P then a else b)"
  by simp

lemma message1_runs:
  assumes "\<exists>bs. prints c 0 xkeep f bs" "sys_ok c s" "unat (retrycount (xmdm s)) \<le> 17"
    and "\<And>s'. sys_ok c s' \<Longrightarrow> xvars s' = xvars s \<Longrightarrow> runs c (g s')"
  shows "runs c (obind (f s) g)"
  using assms prints_then_runs [of c f] by metis

lemma dump_runs:
  assumes line: "served_line c 0 env xkeep" and "sys_ok c s" "length uninit = 17" "unat (retrycount (xmdm s)) \<le> 17"
  shows "runs c (obind (HexDump16 c env uninit (file_array s) 1024 s) (\<lambda>s. ret (ready_for_transmission, s)))"
proof (rule message1_runs [where f = "HexDump16 c env uninit (file_array s) 1024", OF _ assms(2,4)])
  show "\<exists>bs. prints c 0 xkeep (HexDump16 c env uninit (file_array s) 1024) bs"
    using dump_prints [OF line, of 64 "file_array s" uninit] assms(2,3) by (auto simp: sys_ok_def xm_ok_def)
  show "runs c (ret (ready_for_transmission, s'))" if "sys_ok c s'" "xvars s' = xvars s" for s'
    using that assms(4) retry_eq [of s' s] by (intro runs_ret) simp_all
qed

lemma command_runs:
  assumes line: "served_line c 0 env xkeep" and ok: "sys_ok c s" "unat (retrycount (xmdm s)) \<le> 17" and u: "length uninit = 17"
  shows "runs c (command c env uninit cmd s)"
  unfolding command_def
proof (rule prints_then_runs [OF puts_prints(1) [OF line] ok(1)], goal_cases)
  case (2 t)
  then have t: "sys_ok c t" and r: "unat (retrycount (xmdm t)) \<le> 17" using ok(2) retry_eq by metis+
  have same: "unat (retrycount (xmdm s')) \<le> 17" if "xvars s' = xvars t" for s' :: "'a xmodem_scheme"
    using that r retry_eq [of s' t] by simp
  note say = says [OF line]
  show ?case
  proof (rule if_runs, goal_cases d other)
    case d
    show ?case
      by (rule message_runs [OF _ t r]) (auto simp: Let_def intro!: say runs_ret sys_ok_restart sys_ok_on_xmdm)
  next
    case other
    show ?case
    proof (rule if_runs, goal_cases t other)
      case t
      show ?case by (rule message1_runs [OF say(1) \<open>sys_ok c t\<close> r]) (auto intro!: runs_ret same)
    next
      case other
      show ?case
      proof (rule if_runs, goal_cases x usage)
        case x
        show ?case by (rule message1_runs [OF say(1) t r]) (use dump_runs [OF line _ u] same in auto)
      next
        case usage
        show ?case by (rule message_runs [OF _ t r]) (auto intro!: say runs_ret same)
      qed
    qed
  qed
qed simp

lemma setup_timeout_runs:
  assumes line: "served_line c 0 env xkeep" and ok: "sys_ok c s" "unat (retrycount (xmdm s)) \<le> 17" and st: "st \<noteq> transmission_max_retransmits"
    and pos: "fallback (xmdm s) = 0 \<Longrightarrow> position (xmdm s) \<noteq> 132"
  shows "runs c (setup_timeout c env st s)"
proof -
  let ?finish = "\<lambda>(st, s). ret (st, if retrycount (xmdm s) \<ge> SETUP_CRC_RETRIES_TO_FALLBACK then on_xmdm (\<lambda>x. x\<lparr>fallback := 1\<rparr>) s else s)"
  have pos': "unat (position (xmdm s)) + 1 < 133"
  proof (cases "fallback (xmdm s) = 0")
    case True
    have "(of_nat (unat (position (xmdm s))) :: u8) = position (xmdm s)" by simp
    then have "unat (position (xmdm s)) \<noteq> 132" using pos [OF True] by (metis of_nat_numeral)
    then show ?thesis using ok(1) by (simp add: sys_ok_def xm_ok_def)
  next
    case False
    then show ?thesis using ok(1) by (auto simp: sys_ok_def xm_ok_def)
  qed
  have finish: "runs c (?finish (st', t))"
    if "sys_ok c t" "unat (retrycount (xmdm t)) \<le> 17" "position (xmdm t) = position (xmdm s)" "st' \<noteq> transmission_max_retransmits" for st' t
    using that pos' by (auto intro!: runs_ret simp: sys_ok_def xm_ok_def)
  show ?thesis
  proof (cases "retrycount (xmdm s) < 15 + 2")
    case True
    have "runs c (obind (obind (uart0_putc c env b s) (\<lambda>s.
        let s = restart_time s; s = on_xmdm (\<lambda>x. x\<lparr>retrycount := retrycount x + 1\<rparr>) s in ret (st, s))) ?finish)" for b
      unfolding obind_assoc
    proof (rule message1_runs [OF says(2) [OF line] ok], goal_cases)
      case (1 t)
      then have x: "xmdm t = xmdm s" using retry_eq by blast
      have "unat (retrycount (xmdm t) + 1) \<le> 17"
        using True unat_inc_less [of "retrycount (xmdm s)" "15 + 2"] x by (simp add: word_less_nat_alt)
      then show ?case using 1 x st
        by (simp only: Let_def obind_ret) (rule finish, auto intro!: sys_ok_on_xmdm sys_ok_restart)
    qed
    then show ?thesis using True ok st by (auto simp: setup_timeout_def intro: runs_ret)
  next
    case False
    then show ?thesis using finish [OF ok, of preparing_timeout] ok st by (auto simp: setup_timeout_def intro: runs_ret)
  qed
qed

lemma HandleIncomingData_runs:
  assumes line: "served_line c 0 env xkeep" and ok: "sys_ok c s" "unat (retrycount (xmdm s)) \<le> 17"
  shows "runs c (HandleIncomingData c env b s)"
proof -
  obtain st t where t: "HandleIncomingData c env b s = ret (st, t)" "tx_ok c (units t 0)" "xm_ok t"
    "retrycount (xmdm t) = retrycount (xmdm s)" "st \<in> {transmission_in_progres, transmission_completed, transmission_aborted}"
    using handle_total [OF xkeep_xvars [OF line], of s b] ok(1) by (auto simp: sys_ok_def)
  moreover have "rxq t = rxq s" using handle_rxq [OF xkeep_rxq [OF line] _ t(1)] ok(1) by (simp add: sys_ok_def)
  ultimately show ?thesis using ok rxq_eq [of t s c] by (auto simp: runs_def sys_ok_def)
qed

lemma getc_runs:
  assumes "sys_ok c s" "\<not> GETC_ECHO c" and "\<And>b s'. sys_ok c s' \<Longrightarrow> xvars s' = xvars s \<Longrightarrow> runs c (g (b, s'))"
  shows "runs c (obind (uart0_getc c env s) g)"
proof -
  obtain b t where t: "uart0_getc c env s = ret (b, t)" "quiet c s t" "rx_ok c (units t 0)"
    using getc_takes [of c s env] assms(1,2) by (auto simp: sys_ok_def quiet_def split: list.splits)
  then have "sys_ok c t" "xvars t = xvars s" using assms(1) xm_ok_xvars [of t s] by (auto simp: quiet_def sys_ok_def)
  then show ?thesis using assms(3) t(1) by simp
qed

lemma preparing_runs:
  assumes line: "served_line c 0 env xkeep" and echo: "\<not> GETC_ECHO c" and ok: "sys_ok c s" "unat (retrycount (xmdm s)) \<le> 17"
    and pos: "fallback (xmdm s) = 0 \<Longrightarrow> position (xmdm s) \<noteq> 132"
  shows "runs c (preparing c env s)"
  unfolding preparing_def
proof (rule getc_runs [OF ok(1) echo], goal_cases)
  case (1 b t)
  then have x: "xmdm t = xmdm s" using retry_eq by blast
  show ?case unfolding prod.case
  proof (rule if_runs, goal_cases)
    case 1
    then show ?case unfolding Let_def using \<open>sys_ok c t\<close>
      by (intro HandleIncomingData_runs [OF line]) (auto intro!: sys_ok_restart sys_ok_on_xmdm)
  next
    case 2
    then show ?case using \<open>sys_ok c t\<close> ok(2) pos x by (intro setup_timeout_runs [OF line]) auto
  qed
qed

lemma in_progress_runs:
  assumes line: "served_line c 0 env xkeep" and echo: "\<not> GETC_ECHO c" and ok: "sys_ok c s" "unat (retrycount (xmdm s)) \<le> 17"
  shows "runs c (in_progress c env s)"
proof -
  obtain st t where t: "read_all c env transmission_in_progres s = ret (st, t)" "sys_ok c t" "retrycount (xmdm t) = retrycount (xmdm s)"
    "st \<in> {transmission_in_progres, transmission_completed, transmission_aborted}"
    using read_all_pass [OF line echo ok(1), of transmission_in_progres] by auto
  have "runs c (obind (uart0_putc c env NACK t) (\<lambda>s. ret (st, on_xmdm (\<lambda>x. x\<lparr>position := 0, retrycount := retrycount x + 1\<rparr>) s)))"
    if "retrycount (xmdm t) \<le> 15"
  proof (rule message1_runs [OF says(2) [OF line] t(2)], goal_cases)
    case (2 u)
    then have x: "xmdm u = xmdm t" using retry_eq by blast
    have "unat (retrycount (xmdm t) + 1) \<le> 17"
      using that unat_inc_less [of "retrycount (xmdm t)" 17] by (simp add: word_less_nat_alt word_le_nat_alt)
    then show ?case using 2 x t(4) by (auto intro!: runs_ret sys_ok_on_xmdm)
  qed (use t ok in simp)
  then show ?thesis
    using t ok(2) by (auto simp: in_progress_def not_less intro!: if_runs runs_ret)
qed

text \<open>
  C29: The variables keep their types: from a state with arrays of the declared lengths and indices in range, every pass of the main
  loop returns, with the arrays, indices and counters in range again, and never enters the state
  \<open>transmission_max_retransmits\<close>. The one state excepted is a handshake that begins with 132 bytes left from
  an aborted transfer.
\<close>

theorem main_pass_keeps:
  assumes "served_line c 0 env xkeep" "\<not> GETC_ECHO c" "sys_ok c s" "unat (retrycount (xmdm s)) \<le> 17" "length uninit = 17"
    and "\<not> (st = preparing_transmission \<and> fallback (xmdm s) = 0 \<and> position (xmdm s) = 132)"
  shows "\<exists>st' s'. main_iteration c env uninit st s = ret (st', s') \<and> sys_ok c s' \<and> unat (retrycount (xmdm s')) \<le> 17
    \<and> st' \<noteq> transmission_max_retransmits"
proof -
  note say = says [OF assms(1)]
  have same: "unat (retrycount (xmdm s')) \<le> 17" if "xvars s' = xvars s" for s' :: "'a xmodem_scheme"
    using that assms(4) retry_eq [of s' s] by simp
  have "runs c (main_iteration c env uninit st s)"
  proof (cases st)
    case ready_for_transmission
    show ?thesis unfolding main_iteration_def ready_for_transmission ProgramStatus.case
      by (rule message_runs [OF _ assms(3,4)]) (auto intro!: say runs_ret same)
  next
    case awaiting_for_command
    show ?thesis unfolding main_iteration_def awaiting_for_command ProgramStatus.case
      by (rule getc_runs [OF assms(3,2)]) (auto intro!: command_runs [OF assms(1) _ _ assms(5)] runs_ret same)
  next
    case preparing_transmission
    then show ?thesis using preparing_runs [OF assms(1-4)] assms(6) by (simp add: main_iteration_def)
  next
    case preparing_timeout
    show ?thesis unfolding main_iteration_def preparing_timeout ProgramStatus.case
      by (rule message_runs [OF _ assms(3,4)]) (auto intro!: say runs_ret same)
  next
    case transmission_in_progres
    then show ?thesis using in_progress_runs [OF assms(1-4)] by (simp add: main_iteration_def)
  next
    case transmission_completed
    show ?thesis unfolding main_iteration_def transmission_completed ProgramStatus.case
      by (rule message1_runs [OF _ assms(3,4)]) (auto intro!: say runs_ret same)
  next
    case transmission_max_retransmits
    show ?thesis unfolding main_iteration_def transmission_max_retransmits ProgramStatus.case
      by (rule message_runs [OF _ assms(3,4)]) (auto intro!: say runs_ret same)
  next
    case transmission_aborted
    show ?thesis unfolding main_iteration_def transmission_aborted ProgramStatus.case
      by (rule message1_runs [OF _ assms(3,4)]) (auto intro!: say runs_ret same)
  qed
  then show ?thesis by (simp add: runs_def)
qed

lemma sys_ok_reset: "sys_ok (build_config tx rx) xmodem_reset"
  by (simp add: sys_ok_def xm_ok_def xmodem_reset_sels units_xmodem_reset tx_ok_reset rx_ok_reset)

lemma no_echo: "\<not> GETC_ECHO (build_config tx rx)"
  by (simp add: build_config_def)

lemmas reset_line = receiver.served_line_axioms [where tx = "0x200" and rx = "0x220" and v = "0x26" and flags = 0]

lemma main_pass_keeps_witness:
  "\<exists>st' s'. main_iteration (build_config 0x200 0x220) (board_env (build_config 0x200 0x220) 0x26 0) (replicate 17 0)
      ready_for_transmission xmodem_reset = ret (st', s') \<and> sys_ok (build_config 0x200 0x220) s'"
  using main_pass_keeps [OF reset_line no_echo sys_ok_reset, of "replicate 17 0" ready_for_transmission]
  by (auto simp: xmodem_reset_sels)

lemma read_all_handles_example:
  "\<exists>st' s'. read_all (build_config 0x200 0x220) (board_env (build_config 0x200 0x220) 0x26 0) transmission_in_progres xmodem_reset = ret (st', s')
    \<and> sys_ok (build_config 0x200 0x220) s'"
  using read_all_handles [OF reset_line no_echo sys_ok_reset, where st = transmission_in_progres] by blast

section \<open>What is left of an aborted transfer\<close>

lemma abort_keeps_position:
  assumes "served_line c 0 env xkeep" "\<not> GETC_ECHO c" "sys_ok c s" "rx_contents c (units s 0) = []"
    and "elapsed s > 1000" "retrycount (xmdm s) > 15"
  shows "in_progress c env s = ret (transmission_aborted, s)"
proof -
  have "read_all c env transmission_in_progres s = ret (transmission_in_progres, s)"
    using getc_takes [of c s env] assms(2-4) by (subst read_all.simps) (simp add: sys_ok_def ret_def)
  then show ?thesis using assms(5,6) by (simp add: in_progress_def)
qed

lemma download_keeps_position:
  assumes line: "served_line c 0 env xkeep" and ok: "sys_ok c s"
  shows "\<exists>s'. command c env uninit (of_char CHR ''d'') s = ret (preparing_transmission, s') \<and> sys_ok c s'
    \<and> position (xmdm s') = position (xmdm s) \<and> fallback (xmdm s') = 0 \<and> retrycount (xmdm s') = 0"
proof -
  note say = says [OF line]
  obtain t where t: "uart0_putstr c env (cstr CRLF) s = ret t" "sys_ok c t" "xvars t = xvars s"
    by (rule prints_sys_ok [OF puts_prints(1) [OF line] ok, of CRLF]) auto
  obtain bs where b: "prints c 0 xkeep (in_order
         [uart0_puts_p c env (cstr (''File transfer can be terminated by double ^X sequence before waiting for receiver timeout'' @ CRLF @ [CHR 0x0A])),
          uart0_puts_p c env (cstr (''Waiting for transmission ...'' @ CRLF))]) bs"
    using prints_list [of "[uart0_puts_p c env (cstr (''File transfer can be terminated by double ^X sequence before waiting for receiver timeout'' @ CRLF @ [CHR 0x0A])),
          uart0_puts_p c env (cstr (''Waiting for transmission ...'' @ CRLF))]" c 0 xkeep] say by auto
  obtain u where u: "in_order
         [uart0_puts_p c env (cstr (''File transfer can be terminated by double ^X sequence before waiting for receiver timeout'' @ CRLF @ [CHR 0x0A])),
          uart0_puts_p c env (cstr (''Waiting for transmission ...'' @ CRLF))] t = ret u" "sys_ok c u" "xvars u = xvars t"
    by (rule prints_sys_ok [OF b t(2)])
  have "xmdm u = xmdm s" using u(3) t(3) by (simp add: xvars_def)
  then show ?thesis
    unfolding command_def t(1) obind_ret if_P [OF refl] u(1)
    using u(2) by (auto simp: Let_def intro!: sys_ok_restart sys_ok_on_xmdm)
qed



section \<open>Time limits\<close>

text \<open>\<open>n\<close> passes of the main loop.\<close>

primrec passes ::
  "usart_config \<Rightarrow> 'z xmodem_ext env \<Rightarrow> u8 list \<Rightarrow> nat \<Rightarrow> ProgramStatus \<times> 'z xmodem_scheme \<Rightarrow> (ProgramStatus \<times> 'z xmodem_scheme) outcome" where
  "passes c env uninit 0 a = ret a"
| "passes c env uninit (Suc n) a = obind (main_iteration c env uninit (fst a) (snd a)) (passes c env uninit n)"

lemma passes_snoc: "passes c env uninit (n + 1) a = obind (passes c env uninit n a) (passes c env uninit 1)"
proof (induction n arbitrary: a)
  case (Suc n)
  then have "passes c env uninit (n + 1) = (\<lambda>b. obind (passes c env uninit n b) (passes c env uninit 1))" by blast
  then show ?case by (simp add: obind_assoc del: One_nat_def)
qed simp

definition xkeep_time :: "'z xmodem_scheme \<Rightarrow> _" where
  "xkeep_time s = (xkeep s, milis s)"

lemma timed_out_pass:
  assumes line: "served_line c 0 env xkeep_time" and echo: "\<not> GETC_ECHO c" and ok: "sys_ok c s" "rx_contents c (units s 0) = []"
    and t: "elapsed s > 1000" "retrycount (xmdm s) \<le> 15"
  shows "\<exists>s'. in_progress c env s = ret (transmission_in_progres, s') \<and> sys_ok c s' \<and> rx_contents c (units s' 0) = []
    \<and> elapsed s' = elapsed s \<and> milis s' = milis s \<and> retrycount (xmdm s') = retrycount (xmdm s) + 1 \<and> sent c 0 s' = sent c 0 s @ [NACK]"
proof -
  have r: "read_all c env transmission_in_progres s = ret (transmission_in_progres, s)"
    using getc_takes [of c s env] echo ok by (subst read_all.simps) (simp add: sys_ok_def ret_def)
  obtain u where u: "uart0_putc c env NACK s = ret u" "tx_ok c (units u 0)" "sent c 0 u = sent c 0 s @ [NACK]" "xkeep_time u = xkeep_time s"
    using printsE [OF putc0_prints [OF line]] ok(1) by (auto simp: sys_ok_def)
  have k: "xvars u = xvars s" "rxq u = rxq s" "milis u = milis s" using u(4) by (simp_all add: xkeep_time_def xkeep_eq)
  have "sys_ok c u" using sys_ok_keep [OF ok(1) u(2)] k by (simp add: xkeep_eq)
  then have "sys_ok c (on_xmdm (\<lambda>x. x\<lparr>position := 0, retrycount := retrycount x + 1\<rparr>) u)" by (intro sys_ok_on_xmdm) auto
  then show ?thesis
    using r u(1,3) t k rxq_eq [of u s c] ok(2) by (auto simp: in_progress_def elapsed_def getMilis_def not_less [symmetric] xvars_def)
qed

lemma timed_out_passes:
  assumes line: "served_line c 0 env xkeep_time" and echo: "\<not> GETC_ECHO c"
    and "sys_ok c s" "rx_contents c (units s 0) = []" "elapsed s > 1000" "unat (retrycount (xmdm s)) + n = 16"
  shows "\<exists>s'. passes c env uninit n (transmission_in_progres, s) = ret (transmission_in_progres, s') \<and> sys_ok c s'
    \<and> rx_contents c (units s' 0) = [] \<and> elapsed s' = elapsed s \<and> milis s' = milis s \<and> unat (retrycount (xmdm s')) = 16
    \<and> sent c 0 s' = sent c 0 s @ replicate n NACK"
  using assms(3-6)
proof (induction n arbitrary: s)
  case (Suc n)
  then have r: "retrycount (xmdm s) \<le> 15" by (simp add: word_le_nat_alt)
  then have inc: "unat (retrycount (xmdm s) + 1) = unat (retrycount (xmdm s)) + 1"
    by (intro unat_inc_less [of _ 16]) (simp add: word_le_nat_alt word_less_nat_alt)
  obtain t where t: "in_progress c env s = ret (transmission_in_progres, t)" "sys_ok c t" "rx_contents c (units t 0) = []"
    "elapsed t = elapsed s" "milis t = milis s" "retrycount (xmdm t) = retrycount (xmdm s) + 1" "sent c 0 t = sent c 0 s @ [NACK]"
    using timed_out_pass [OF line echo Suc.prems(1-3) r] by blast
  then show ?case using Suc.IH [OF t(2,3)] Suc.prems inc by (auto simp: main_iteration_def)
qed simp

text \<open>
  C32: The time limit between retransmissions works only once. When it has passed, the program does not restart the time, so the next passes of the loop
  find it passed again: without a millisecond going by it sends the remaining of sixteen NACKs and aborts.
\<close>

theorem retransmits_without_waiting:
  assumes line: "served_line c 0 env xkeep_time" and echo: "\<not> GETC_ECHO c"
    and s: "sys_ok c s" "rx_contents c (units s 0) = []" "elapsed s > 1000" "unat (retrycount (xmdm s)) \<le> 16"
  shows "\<exists>s'. passes c env uninit (17 - unat (retrycount (xmdm s))) (transmission_in_progres, s) = ret (transmission_aborted, s')
    \<and> milis s' = milis s \<and> sent c 0 s' = sent c 0 s @ replicate (16 - unat (retrycount (xmdm s))) NACK"
proof -
  let ?n = "16 - unat (retrycount (xmdm s))"
  obtain t where t: "passes c env uninit ?n (transmission_in_progres, s) = ret (transmission_in_progres, t)" "sys_ok c t"
    "rx_contents c (units t 0) = []" "elapsed t = elapsed s" "milis t = milis s" "unat (retrycount (xmdm t)) = 16"
    "sent c 0 t = sent c 0 s @ replicate ?n NACK"
    using timed_out_passes [OF line echo s(1-3), of ?n uninit] s(4) by auto
  have "served_line c 0 env xkeep" by (rule served_coarser [OF line]) (simp add: xkeep_time_def)
  then have "in_progress c env t = ret (transmission_aborted, t)"
    using abort_keeps_position [OF _ echo t(2,3)] t(4,6) s(3) by (simp add: word_less_nat_alt)
  then have "passes c env uninit (?n + 1) (transmission_in_progres, s) = ret (transmission_aborted, t)"
    unfolding passes_snoc t(1) by (simp add: main_iteration_def)
  moreover have "?n + 1 = 17 - unat (retrycount (xmdm s))" using s(4) by simp
  ultimately show ?thesis using t(5,7) by metis
qed

lemma served_without_time:
  assumes "\<not> SOFT_CTS c" "\<not> LF_TO_CRLF c"
  shows "served_line c 0 (udre_fires c 0 v flags) xkeep_time"
proof
  show "xkeep_time (udre_fires c 0 v flags s) = xkeep_time s" for s :: "'a xmodem_scheme"
    by (rule udre_fires_frame [of c 0 v flags s]) (simp add: xkeep_time_def xkeep_def xvars_def same_rx_def)
qed (use assms in \<open>simp_all add: udre_fires_sends xkeep_time_def xkeep_def xvars_def same_rx_def\<close>)

interpretation frozen: served_line "build_config tx rx" 0 "udre_fires (build_config tx rx) 0 v flags" xkeep_time
  for tx rx v flags
  by (rule served_without_time) (simp_all add: build_config_def)

lemma retransmits_without_waiting_witness:
  "\<exists>s'. passes (build_config 0x200 0x220) (udre_fires (build_config 0x200 0x220) 0 0x26 0) [] 17
      (transmission_in_progres, on_xmdm (\<lambda>x. x\<lparr>starttime := 1\<rparr>) xmodem_reset) = ret (transmission_aborted, s')
    \<and> sent (build_config 0x200 0x220) 0 s' = replicate 16 0x15"
proof -
  let ?s = "on_xmdm (\<lambda>x. x\<lparr>starttime := 1\<rparr>) xmodem_reset"
  have "sys_ok (build_config 0x200 0x220) ?s"
    using sys_ok_reset [of "0x200" "0x220"] by (simp add: sys_ok_def xm_ok_def xmodem_reset_sels)
  moreover have "rx_contents (build_config 0x200 0x220) (units ?s 0) = []" by (simp add: units_xmodem_reset rx_ok_reset)
  moreover have "elapsed ?s > 1000" by (simp add: elapsed_def getMilis_def xmodem_reset_sels)
  moreover have "sent (build_config 0x200 0x220) 0 ?s = []" by (simp add: sent_def units_xmodem_reset tx_ok_reset)
  ultimately show ?thesis
    using retransmits_without_waiting [OF frozen.served_line_axioms [where tx = "0x200" and rx = "0x220" and v = "0x26" and flags = 0]
        no_echo, where s = ?s and uninit = "[]"] by (auto simp: xmodem_reset_sels)
qed

section \<open>The end of a transfer\<close>

text \<open>
  The end of transmission is lost when another byte is already in the receive buffer: the loop that reads all bytes goes on after
  \<open>transmission_completed\<close> and overwrites it.
\<close>

lemma completion_overwritten:
  assumes line: "served_line c 0 env xkeep" and echo: "\<not> GETC_ECHO c" and ok: "sys_ok c s" "position (xmdm s) = 0"
    and rx: "rx_contents c (units s 0) = [EOT, b]" "b \<noteq> EOT"
  shows "\<exists>s'. read_all c env transmission_in_progres s = ret (transmission_in_progres, s') \<and> sent c 0 s' = sent c 0 s @ [ACK, ACK]
    \<and> position (xmdm s') = 1"
proof -
  obtain t st1 u where t: "quiet c s t" "tx_ok c (units t 0)" "xm_ok t" "HandleIncomingData c env EOT t = ret (st1, u)"
    "read_all c env transmission_in_progres s = read_all c env st1 (env u)" "quiet c u (env u)" "sys_ok c (env u)"
    "rx_contents c (units (env u) 0) = [b]" by (rule read_all_step [OF line echo ok(1) rx(1)])
  have t0: "position (xmdm t) = 0" using t(1) ok(2) by (simp add: quiet_def xvars_def)
  obtain u' where "HandleIncomingData c env EOT t = ret (transmission_completed, u')" "xvars u' = xvars t"
    "sent c 0 u' = sent c 0 t @ [ACK, ACK]" using handle_end [OF xkeep_xvars [OF line] t(2) t0] by blast
  then have u: "xvars u = xvars t" "sent c 0 u = sent c 0 t @ [ACK, ACK]" using t(4) by auto
  obtain v st2 w where v: "quiet c (env u) v" "tx_ok c (units v 0)" "xm_ok v" "HandleIncomingData c env b v = ret (st2, w)"
    "read_all c env st1 (env u) = read_all c env st2 (env w)" "quiet c w (env w)" "sys_ok c (env w)" "rx_contents c (units (env w) 0) = []"
    by (rule read_all_step [OF line echo t(7,8)])
  have "xvars v = xvars s" using t(1,6) u(1) v(1) by (simp add: quiet_def)
  then have v0: "position (xmdm v) = 0" using ok(2) by (simp add: xvars_def)
  have "fallback (xmdm v) = 0 \<or> fallback (xmdm v) = 1" using v(3) by (simp add: xm_ok_def)
  then have "HandleIncomingData c env b v = ret (transmission_in_progres,
      on_xmdm (\<lambda>x. x\<lparr>buff := (buff x)[unat (position x) := b], position := position x + 1\<rparr>) v)"
    using v0 rx(2) by (intro handle_stores [OF v(3)]) auto
  then have w: "st2 = transmission_in_progres" "position (xmdm w) = 1" "sent c 0 w = sent c 0 v" using v(4) v0 by auto
  have "read_all c env st2 (env w) = ret (st2, env w)"
    using getc_takes [of c "env w" env] echo v(7,8) by (subst read_all.simps) (simp add: sys_ok_def ret_def)
  then show ?thesis
    using t(1,5,6) u v(1,5,6) w by (simp add: quiet_def xvars_def)
qed

lemma completion_overwritten_example:
  "\<exists>s'. read_all (build_config 0x200 0x220) (board_env (build_config 0x200 0x220) 0x26 0) transmission_in_progres
      (rx_arrives (build_config 0x200 0x220) 0 0x24 0 0x0A (rx_arrives (build_config 0x200 0x220) 0 0x24 0 0x04 xmodem_reset)) = ret (transmission_in_progres, s')"
proof -
  let ?c = "build_config 0x200 0x220"
  let ?s1 = "rx_arrives ?c 0 0x24 0 0x04 xmodem_reset"
  let ?s2 = "rx_arrives ?c 0 0x24 0 0x0A ?s1"
  have r0: "rx_ok ?c (units xmodem_reset 0)" "rx_contents ?c (units xmodem_reset 0) = []" by (simp_all add: units_xmodem_reset rx_ok_reset)
  have r1: "rx_ok ?c (units ?s1 0)" "rx_contents ?c (units ?s1 0) = [0x04]"
    using rx_arrives_queue [OF r0(1) refl, of "0x24" 0 "0x04"] r0(2) by (simp_all add: build_sizes)
  have r2: "rx_ok ?c (units ?s2 0)" "rx_contents ?c (units ?s2 0) = [0x04, 0x0A]"
    using rx_arrives_queue [OF r1(1) refl, of "0x24" 0 "0x0A"] r1(2) by (simp_all add: build_sizes)
  have q: "quiet ?c xmodem_reset ?s2" using quiet_rx [OF r0(1), of "0x24" 0 "0x04"] quiet_rx [OF r1(1), of "0x24" 0 "0x0A"] by (simp add: quiet_def)
  then have "sys_ok ?c ?s2" "position (xmdm ?s2) = 0"
    using sys_ok_reset [of "0x200" "0x220"] r2(1) xm_ok_xvars [of ?s2 xmodem_reset] xmodem_reset_sels
    by (auto simp: sys_ok_def quiet_def xvars_def)
  then show ?thesis using completion_overwritten [OF reset_line no_echo, of ?s2 "0x0A"] r2(2) by auto
qed

end
