(* ===== verification/Usart_Parts.thy ===== *)
theory Usart_Parts
  imports Prelude
begin

text \<open>
  The part of the preprocessor that \<^verbatim>\<open>lib/AVR-UART-LIB/usart.h\<close> uses, and its table of the processors with a serial unit: for each
  group of processors the units they have, and for each unit the names of its interrupts, registers and bits. The tables are those
  of the source, in its order. A unit that is enabled has all of its names.
\<close>

section \<open>Macros\<close>

text \<open>
  The macros defined at a point of the text, the latest first; a macro defined again hides the
  earlier definition. Macros without a value have the empty one.
\<close>

type_synonym macros = "(string \<times> string) list"

definition defined :: "macros \<Rightarrow> string \<Rightarrow> bool" where
  "defined m x \<longleftrightarrow> x \<in> fst ` set m"

definition undef :: "string \<Rightarrow> macros \<Rightarrow> macros" where
  "undef x m = filter (\<lambda>e. fst e \<noteq> x) m"

text \<open>Expansion of a single name: a macro is not expanded again inside its own expansion.\<close>

function expand :: "macros \<Rightarrow> string \<Rightarrow> string" where
  "expand m x = (case map_of m x of None \<Rightarrow> x | Some v \<Rightarrow> expand (undef x m) v)"
  by pat_completeness auto
termination
proof (relation "measure (\<lambda>(m, _). length m)", goal_cases)
  case (2 m x v)
  then have "(x, v) \<in> set m" by (simp add: map_of_SomeD)
  then show ?case by (auto simp: undef_def intro!: length_filter_less)
qed simp

declare expand.simps [simp del]

text \<open>A name that reaches an undefined one in \<open>n\<close> steps expands to it.\<close>

fun reaches :: "macros \<Rightarrow> nat \<Rightarrow> string \<Rightarrow> string \<Rightarrow> bool" where
  "reaches m 0 x z \<longleftrightarrow> x = z \<and> map_of m x = None"
| "reaches m (Suc n) x z \<longleftrightarrow> (case map_of m x of None \<Rightarrow> False | Some y \<Rightarrow> reaches m n y z)"

lemma map_of_undef: "map_of (undef x m) y = (if y = x then None else map_of m y)"
  unfolding undef_def by (induction m) auto

lemma reaches_unique: "reaches m n x z \<Longrightarrow> reaches m k x z' \<Longrightarrow> n = k"
proof (induction n arbitrary: x k)
  case 0
  then show ?case by (cases k) auto
next
  case (Suc n)
  then show ?case by (cases k) (auto split: option.splits)
qed

lemma reaches_undef: "reaches m n y z \<Longrightarrow> reaches m k x z' \<Longrightarrow> n < k \<Longrightarrow> reaches (undef x m) n y z"
proof (induction n arbitrary: y)
  case 0
  then show ?case by (auto simp: map_of_undef)
next
  case (Suc n)
  then have "y \<noteq> x" using reaches_unique [OF Suc.prems(1), of k z'] by auto
  then show ?case using Suc by (auto simp: map_of_undef split: option.splits)
qed

lemma reaches_expand: "reaches m n x z \<Longrightarrow> expand m x = z"
proof (induction n arbitrary: m x)
  case 0
  then show ?case by (auto simp: expand.simps)
next
  case (Suc n)
  then obtain y where y: "map_of m x = Some y" "reaches m n y z" by (auto split: option.splits)
  then have "reaches (undef x m) n y z" using reaches_undef [OF y(2) Suc.prems] by simp
  then show ?case using Suc.IH y(1) by (simp add: expand.simps [of m x])
qed

lemma map_expand: "list_all2 (reaches m n) xs zs \<Longrightarrow> map (expand m) xs = zs"
  by (induction rule: list_all2_induct) (simp_all add: reaches_expand)

text \<open>The units are numbered 0 to 3; macros are named after them.\<close>

definition unit_digit :: "nat \<Rightarrow> string" where
  "unit_digit k = [''0'', ''1'', ''2'', ''3''] ! k"

definition named :: "string \<Rightarrow> nat \<Rightarrow> string \<Rightarrow> string" where
  "named pre k post = pre @ unit_digit k @ post"

definition USE_USART :: "nat \<Rightarrow> string" where
  "USE_USART k = named ''USE_USART'' k ''''"

text \<open>The names a unit needs.\<close>

definition unit_macros :: "nat \<Rightarrow> string list" where
  "unit_macros k =
     [named ''RX'' k ''_INTERRUPT'', named ''TXC'' k ''_INTERRUPT'', named ''UDRE'' k ''_INTERRUPT'', named ''UDR'' k ''_REGISTER'',
      named ''UBRR'' k ''L_REGISTER'', named ''UBRR'' k ''H_REGISTER'', named ''UCSR'' k ''A_REGISTER'', named ''UCSR'' k ''B_REGISTER'',
      named ''UCSR'' k ''C_REGISTER'', named ''TXCIE'' k ''_BIT'', named ''UDRIE'' k ''_BIT'', named ''RXCIE'' k ''_BIT'',
      named ''TXEN'' k ''_BIT'', named ''RXEN'' k ''_BIT'', named ''UDRE'' k ''_BIT'', named ''RXC'' k ''_BIT'', named ''U2X'' k ''_BIT'',
      named ''MPCM'' k ''_BIT'', named ''UCSZ'' k ''2_BIT'', named ''TXB8'' k ''_BIT'']"

section \<open>The table\<close>

text \<open>
  A section of the table: the processors it is for, what it defines for them, and its units. A unit has its number, the processors of
  the section that lack it, and its names.
\<close>

type_synonym part_unit = "nat \<times> string list \<times> macros"
type_synonym part_section = "string list \<times> macros \<times> part_unit list"

definition macros_ATtiny102_0 :: macros where
  "macros_ATtiny102_0 =
     [(''RX0_INTERRUPT'', ''USART0_RXC_vect''), (''TXC0_INTERRUPT'', ''USART0_TXC_vect''), (''UDRE0_INTERRUPT'', ''USART0_DRE_vect''),
      (''UDR0_REGISTER'', ''UDR0''), (''UBRR0L_REGISTER'', ''UBRR0L''), (''UBRR0H_REGISTER'', ''UBRR0H''),
      (''UCSR0A_REGISTER'', ''UCSR0A''), (''UCSR0B_REGISTER'', ''UCSR0B''), (''UCSR0C_REGISTER'', ''UCSR0C''),
      (''TXCIE0_BIT'', ''TXCIE0''), (''UDRIE0_BIT'', ''UDRIE0''), (''RXCIE0_BIT'', ''RXCIE0''),
      (''TXEN0_BIT'', ''TXEN0''), (''RXEN0_BIT'', ''RXEN0''), (''UDRE0_BIT'', ''UDRE0''),
      (''RXC0_BIT'', ''RXC0''), (''U2X0_BIT'', ''U2X0''), (''MPCM0_BIT'', ''MPCM0''),
      (''UCSZ02_BIT'', ''UCSZ02''), (''TXB80_BIT'', ''TXB80'')]"

definition macros_ATtiny2313_0 :: macros where
  "macros_ATtiny2313_0 =
     [(''RX0_INTERRUPT'', ''USART_RX_vect''), (''TXC0_INTERRUPT'', ''USART_TX_vect''), (''UDRE0_INTERRUPT'', ''USART_UDRE_vect''),
      (''UDR0_REGISTER'', ''UDR''), (''UBRR0L_REGISTER'', ''UBRRL''), (''UBRR0H_REGISTER'', ''UBRRH''),
      (''UCSR0A_REGISTER'', ''UCSRA''), (''UCSR0B_REGISTER'', ''UCSRB''), (''UCSR0C_REGISTER'', ''UCSRC''),
      (''TXCIE0_BIT'', ''TXCIE''), (''UDRIE0_BIT'', ''UDRIE''), (''RXCIE0_BIT'', ''RXCIE''),
      (''TXEN0_BIT'', ''TXEN''), (''RXEN0_BIT'', ''RXEN''), (''UDRE0_BIT'', ''UDRE''),
      (''RXC0_BIT'', ''RXC''), (''U2X0_BIT'', ''U2X''), (''MPCM0_BIT'', ''MPCM''),
      (''UCSZ02_BIT'', ''UCSZ2''), (''TXB80_BIT'', ''TXB8'')]"

definition macros_ATtiny1634_0 :: macros where
  "macros_ATtiny1634_0 =
     [(''RX0_INTERRUPT'', ''USART0_RX_vect''), (''TXC0_INTERRUPT'', ''USART0_TX_vect''), (''UDRE0_INTERRUPT'', ''USART0_UDRE_vect''),
      (''UDR0_REGISTER'', ''UDR0''), (''UBRR0L_REGISTER'', ''UBRR0L''), (''UBRR0H_REGISTER'', ''UBRR0H''),
      (''UCSR0A_REGISTER'', ''UCSR0A''), (''UCSR0B_REGISTER'', ''UCSR0B''), (''UCSR0C_REGISTER'', ''UCSR0C''),
      (''TXCIE0_BIT'', ''TXCIE0''), (''UDRIE0_BIT'', ''UDRIE0''), (''RXCIE0_BIT'', ''RXCIE0''),
      (''TXEN0_BIT'', ''TXEN0''), (''RXEN0_BIT'', ''RXEN0''), (''UDRE0_BIT'', ''UDRE0''),
      (''RXC0_BIT'', ''RXC0''), (''U2X0_BIT'', ''U2X0''), (''MPCM0_BIT'', ''MPCM0''),
      (''UCSZ02_BIT'', ''UCSZ02''), (''TXB80_BIT'', ''TXB80'')]"

definition macros_ATtiny1634_1 :: macros where
  "macros_ATtiny1634_1 =
     [(''RX1_INTERRUPT'', ''USART1_RX_vect''), (''TXC1_INTERRUPT'', ''USART1_TX_vect''), (''UDRE1_INTERRUPT'', ''USART1_UDRE_vect''),
      (''UDR1_REGISTER'', ''UDR1''), (''UBRR1L_REGISTER'', ''UBRR1L''), (''UBRR1H_REGISTER'', ''UBRR1H''),
      (''UCSR1A_REGISTER'', ''UCSR1A''), (''UCSR1B_REGISTER'', ''UCSR1B''), (''UCSR1C_REGISTER'', ''UCSR1C''),
      (''TXCIE1_BIT'', ''TXCIE1''), (''UDRIE1_BIT'', ''UDRIE1''), (''RXCIE1_BIT'', ''RXCIE1''),
      (''TXEN1_BIT'', ''TXEN1''), (''RXEN1_BIT'', ''RXEN1''), (''UDRE1_BIT'', ''UDRE1''),
      (''RXC1_BIT'', ''RXC1''), (''U2X1_BIT'', ''U2X1''), (''MPCM1_BIT'', ''MPCM1''),
      (''UCSZ12_BIT'', ''UCSZ12''), (''TXB81_BIT'', ''TXB81'')]"

definition macros_ATtiny441_0 :: macros where
  "macros_ATtiny441_0 =
     [(''RX0_INTERRUPT'', ''USART0_RX_vect''), (''TXC0_INTERRUPT'', ''USART0_TX_vect''), (''UDRE0_INTERRUPT'', ''USART0_UDRE_vect''),
      (''UDR0_REGISTER'', ''UDR0''), (''UBRR0L_REGISTER'', ''UBRR0L''), (''UBRR0H_REGISTER'', ''UBRR0H''),
      (''UCSR0A_REGISTER'', ''UCSR0A''), (''UCSR0B_REGISTER'', ''UCSR0B''), (''UCSR0C_REGISTER'', ''UCSR0C''),
      (''TXCIE0_BIT'', ''TXCIE0''), (''UDRIE0_BIT'', ''UDRIE0''), (''RXCIE0_BIT'', ''RXCIE0''),
      (''TXEN0_BIT'', ''TXEN0''), (''RXEN0_BIT'', ''RXEN0''), (''UDRE0_BIT'', ''UDRE0''),
      (''RXC0_BIT'', ''RXC0''), (''U2X0_BIT'', ''U2X0''), (''MPCM0_BIT'', ''MPCM0''),
      (''UCSZ02_BIT'', ''UCSZ02''), (''TXB80_BIT'', ''TXB80'')]"

definition macros_ATtiny441_1 :: macros where
  "macros_ATtiny441_1 =
     [(''RX1_INTERRUPT'', ''USART1_RX_vect''), (''TXC1_INTERRUPT'', ''USART1_TX_vect''), (''UDRE1_INTERRUPT'', ''USART1_UDRE_vect''),
      (''UDR1_REGISTER'', ''UDR1''), (''UBRR1L_REGISTER'', ''UBRR1L''), (''UBRR1H_REGISTER'', ''UBRR1H''),
      (''UCSR1A_REGISTER'', ''UCSR1A''), (''UCSR1B_REGISTER'', ''UCSR1B''), (''UCSR1C_REGISTER'', ''UCSR1C''),
      (''TXCIE1_BIT'', ''TXCIE1''), (''UDRIE1_BIT'', ''UDRIE1''), (''RXCIE1_BIT'', ''RXCIE1''),
      (''TXEN1_BIT'', ''TXEN1''), (''RXEN1_BIT'', ''RXEN1''), (''UDRE1_BIT'', ''UDRE1''),
      (''RXC1_BIT'', ''RXC1''), (''U2X1_BIT'', ''U2X1''), (''MPCM1_BIT'', ''MPCM1''),
      (''UCSZ12_BIT'', ''UCSZ12''), (''TXB81_BIT'', ''TXB81'')]"

definition macros_ATmega48_0 :: macros where
  "macros_ATmega48_0 =
     [(''RX0_INTERRUPT'', ''USART_RX_vect''), (''TXC0_INTERRUPT'', ''USART_TX_vect''), (''UDRE0_INTERRUPT'', ''USART_UDRE_vect''),
      (''UDR0_REGISTER'', ''UDR0''), (''UBRR0L_REGISTER'', ''UBRR0L''), (''UBRR0H_REGISTER'', ''UBRR0H''),
      (''UCSR0A_REGISTER'', ''UCSR0A''), (''UCSR0B_REGISTER'', ''UCSR0B''), (''UCSR0C_REGISTER'', ''UCSR0C''),
      (''TXCIE0_BIT'', ''TXCIE0''), (''UDRIE0_BIT'', ''UDRIE0''), (''RXCIE0_BIT'', ''RXCIE0''),
      (''TXEN0_BIT'', ''TXEN0''), (''RXEN0_BIT'', ''RXEN0''), (''UDRE0_BIT'', ''UDRE0''),
      (''RXC0_BIT'', ''RXC0''), (''U2X0_BIT'', ''U2X0''), (''MPCM0_BIT'', ''MPCM0''),
      (''UCSZ02_BIT'', ''UCSZ02''), (''TXB80_BIT'', ''TXB80'')]"

definition macros_ATmega328PB_0 :: macros where
  "macros_ATmega328PB_0 =
     [(''RX0_INTERRUPT'', ''USART0_RX_vect''), (''TXC0_INTERRUPT'', ''USART0_TX_vect''), (''UDRE0_INTERRUPT'', ''USART0_UDRE_vect''),
      (''UDR0_REGISTER'', ''UDR0''), (''UBRR0L_REGISTER'', ''UBRR0L''), (''UBRR0H_REGISTER'', ''UBRR0H''),
      (''UCSR0A_REGISTER'', ''UCSR0A''), (''UCSR0B_REGISTER'', ''UCSR0B''), (''UCSR0C_REGISTER'', ''UCSR0C''),
      (''TXCIE0_BIT'', ''TXCIE0''), (''UDRIE0_BIT'', ''UDRIE0''), (''RXCIE0_BIT'', ''RXCIE0''),
      (''TXEN0_BIT'', ''TXEN0''), (''RXEN0_BIT'', ''RXEN0''), (''UDRE0_BIT'', ''UDRE0''),
      (''RXC0_BIT'', ''RXC0''), (''U2X0_BIT'', ''U2X0''), (''MPCM0_BIT'', ''MPCM0''),
      (''UCSZ02_BIT'', ''UCSZ02''), (''TXB80_BIT'', ''TXB80'')]"

definition macros_ATmega328PB_1 :: macros where
  "macros_ATmega328PB_1 =
     [(''RX1_INTERRUPT'', ''USART1_RX_vect''), (''TXC1_INTERRUPT'', ''USART1_TX_vect''), (''UDRE1_INTERRUPT'', ''USART1_UDRE_vect''),
      (''UDR1_REGISTER'', ''UDR1''), (''UBRR1L_REGISTER'', ''UBRR1L''), (''UBRR1H_REGISTER'', ''UBRR1H''),
      (''UCSR1A_REGISTER'', ''UCSR1A''), (''UCSR1B_REGISTER'', ''UCSR1B''), (''UCSR1C_REGISTER'', ''UCSR1C''),
      (''TXCIE1_BIT'', ''TXCIE1''), (''UDRIE1_BIT'', ''UDRIE1''), (''RXCIE1_BIT'', ''RXCIE1''),
      (''TXEN1_BIT'', ''TXEN1''), (''RXEN1_BIT'', ''RXEN1''), (''UDRE1_BIT'', ''UDRE1''),
      (''RXC1_BIT'', ''RXC1''), (''U2X1_BIT'', ''U2X1''), (''MPCM1_BIT'', ''MPCM1''),
      (''UCSZ12_BIT'', ''UCSZ12''), (''TXB81_BIT'', ''TXB81'')]"

definition macros_ATmega8_0 :: macros where
  "macros_ATmega8_0 =
     [(''RX0_INTERRUPT'', ''USART_RXC_vect''), (''TXC0_INTERRUPT'', ''USART_TXC_vect''), (''UDRE0_INTERRUPT'', ''USART_UDRE_vect''),
      (''UDR0_REGISTER'', ''UDR''), (''UBRR0L_REGISTER'', ''UBRRL''), (''UBRR0H_REGISTER'', ''UBRRH''),
      (''UCSR0A_REGISTER'', ''UCSRA''), (''UCSR0B_REGISTER'', ''UCSRB''), (''UCSR0C_REGISTER'', ''UCSRC''),
      (''TXCIE0_BIT'', ''TXCIE''), (''UDRIE0_BIT'', ''UDRIE''), (''RXCIE0_BIT'', ''RXCIE''),
      (''TXEN0_BIT'', ''TXEN''), (''RXEN0_BIT'', ''RXEN''), (''UDRE0_BIT'', ''UDRE''),
      (''RXC0_BIT'', ''RXC''), (''U2X0_BIT'', ''U2X''), (''MPCM0_BIT'', ''MPCM''),
      (''UCSZ02_BIT'', ''UCSZ2''), (''TXB80_BIT'', ''TXB8'')]"

definition macros_ATmega8515_0 :: macros where
  "macros_ATmega8515_0 =
     [(''RX0_INTERRUPT'', ''USART_RX_vect''), (''TXC0_INTERRUPT'', ''USART_TX_vect''), (''UDRE0_INTERRUPT'', ''USART_UDRE_vect''),
      (''UDR0_REGISTER'', ''UDR''), (''UBRR0L_REGISTER'', ''UBRRL''), (''UBRR0H_REGISTER'', ''UBRRH''),
      (''UCSR0A_REGISTER'', ''UCSRA''), (''UCSR0B_REGISTER'', ''UCSRB''), (''UCSR0C_REGISTER'', ''UCSRC''),
      (''TXCIE0_BIT'', ''TXCIE''), (''UDRIE0_BIT'', ''UDRIE''), (''RXCIE0_BIT'', ''RXCIE''),
      (''TXEN0_BIT'', ''TXEN''), (''RXEN0_BIT'', ''RXEN''), (''UDRE0_BIT'', ''UDRE''),
      (''RXC0_BIT'', ''RXC''), (''U2X0_BIT'', ''U2X''), (''MPCM0_BIT'', ''MPCM''),
      (''UCSZ02_BIT'', ''UCSZ2''), (''TXB80_BIT'', ''TXB8'')]"

definition macros_ATmega162_0 :: macros where
  "macros_ATmega162_0 =
     [(''RX0_INTERRUPT'', ''USART0_RXC_vect''), (''TXC0_INTERRUPT'', ''USART0_TXC_vect''), (''UDRE0_INTERRUPT'', ''USART0_UDRE_vect''),
      (''UDR0_REGISTER'', ''UDR0''), (''UBRR0L_REGISTER'', ''UBRR0L''), (''UBRR0H_REGISTER'', ''UBRR0H''),
      (''UCSR0A_REGISTER'', ''UCSR0A''), (''UCSR0B_REGISTER'', ''UCSR0B''), (''UCSR0C_REGISTER'', ''UCSR0C''),
      (''TXCIE0_BIT'', ''TXCIE0''), (''UDRIE0_BIT'', ''UDRIE0''), (''RXCIE0_BIT'', ''RXCIE0''),
      (''TXEN0_BIT'', ''TXEN0''), (''RXEN0_BIT'', ''RXEN0''), (''UDRE0_BIT'', ''UDRE0''),
      (''RXC0_BIT'', ''RXC0''), (''U2X0_BIT'', ''U2X0''), (''MPCM0_BIT'', ''MPCM0''),
      (''UCSZ02_BIT'', ''UCSZ02''), (''TXB80_BIT'', ''TXB80'')]"

definition macros_ATmega162_1 :: macros where
  "macros_ATmega162_1 =
     [(''RX1_INTERRUPT'', ''USART1_RXC_vect''), (''TXC1_INTERRUPT'', ''USART1_TXC_vect''), (''UDRE1_INTERRUPT'', ''USART1_UDRE_vect''),
      (''UDR1_REGISTER'', ''UDR1''), (''UBRR1L_REGISTER'', ''UBRR1L''), (''UBRR1H_REGISTER'', ''UBRR1H''),
      (''UCSR1A_REGISTER'', ''UCSR1A''), (''UCSR1B_REGISTER'', ''UCSR1B''), (''UCSR1C_REGISTER'', ''UCSR1C''),
      (''TXCIE1_BIT'', ''TXCIE1''), (''UDRIE1_BIT'', ''UDRIE1''), (''RXCIE1_BIT'', ''RXCIE1''),
      (''TXEN1_BIT'', ''TXEN1''), (''RXEN1_BIT'', ''RXEN1''), (''UDRE1_BIT'', ''UDRE1''),
      (''RXC1_BIT'', ''RXC1''), (''U2X1_BIT'', ''U2X1''), (''MPCM1_BIT'', ''MPCM1''),
      (''UCSZ12_BIT'', ''UCSZ12''), (''TXB81_BIT'', ''TXB81'')]"

definition macros_ATmega644_0 :: macros where
  "macros_ATmega644_0 =
     [(''RX0_INTERRUPT'', ''USART0_RX_vect''), (''TXC0_INTERRUPT'', ''USART0_TX_vect''), (''UDRE0_INTERRUPT'', ''USART0_UDRE_vect''),
      (''UDR0_REGISTER'', ''UDR0''), (''UBRR0L_REGISTER'', ''UBRR0L''), (''UBRR0H_REGISTER'', ''UBRR0H''),
      (''UCSR0A_REGISTER'', ''UCSR0A''), (''UCSR0B_REGISTER'', ''UCSR0B''), (''UCSR0C_REGISTER'', ''UCSR0C''),
      (''TXCIE0_BIT'', ''TXCIE0''), (''UDRIE0_BIT'', ''UDRIE0''), (''RXCIE0_BIT'', ''RXCIE0''),
      (''TXEN0_BIT'', ''TXEN0''), (''RXEN0_BIT'', ''RXEN0''), (''UDRE0_BIT'', ''UDRE0''),
      (''RXC0_BIT'', ''RXC0''), (''U2X0_BIT'', ''U2X0''), (''MPCM0_BIT'', ''MPCM0''),
      (''UCSZ02_BIT'', ''UCSZ02''), (''TXB80_BIT'', ''TXB80'')]"

definition macros_ATmega644_1 :: macros where
  "macros_ATmega644_1 =
     [(''RX1_INTERRUPT'', ''USART1_RX_vect''), (''TXC1_INTERRUPT'', ''USART1_TX_vect''), (''UDRE1_INTERRUPT'', ''USART1_UDRE_vect''),
      (''UDR1_REGISTER'', ''UDR1''), (''UBRR1L_REGISTER'', ''UBRR1L''), (''UBRR1H_REGISTER'', ''UBRR1H''),
      (''UCSR1A_REGISTER'', ''UCSR1A''), (''UCSR1B_REGISTER'', ''UCSR1B''), (''UCSR1C_REGISTER'', ''UCSR1C''),
      (''TXCIE1_BIT'', ''TXCIE1''), (''UDRIE1_BIT'', ''UDRIE1''), (''RXCIE1_BIT'', ''RXCIE1''),
      (''TXEN1_BIT'', ''TXEN1''), (''RXEN1_BIT'', ''RXEN1''), (''UDRE1_BIT'', ''UDRE1''),
      (''RXC1_BIT'', ''RXC1''), (''U2X1_BIT'', ''U2X1''), (''MPCM1_BIT'', ''MPCM1''),
      (''UCSZ12_BIT'', ''UCSZ12''), (''TXB81_BIT'', ''TXB81'')]"

definition macros_ATmega640_2 :: macros where
  "macros_ATmega640_2 =
     [(''RX2_INTERRUPT'', ''USART2_RX_vect''), (''TXC2_INTERRUPT'', ''USART2_TX_vect''), (''UDRE2_INTERRUPT'', ''USART2_UDRE_vect''),
      (''UDR2_REGISTER'', ''UDR2''), (''UBRR2L_REGISTER'', ''UBRR2L''), (''UBRR2H_REGISTER'', ''UBRR2H''),
      (''UCSR2A_REGISTER'', ''UCSR2A''), (''UCSR2B_REGISTER'', ''UCSR2B''), (''UCSR2C_REGISTER'', ''UCSR2C''),
      (''TXCIE2_BIT'', ''TXCIE2''), (''UDRIE2_BIT'', ''UDRIE2''), (''RXCIE2_BIT'', ''RXCIE2''),
      (''TXEN2_BIT'', ''TXEN2''), (''RXEN2_BIT'', ''RXEN2''), (''UDRE2_BIT'', ''UDRE2''),
      (''RXC2_BIT'', ''RXC2''), (''U2X2_BIT'', ''U2X2''), (''MPCM2_BIT'', ''MPCM2''),
      (''UCSZ22_BIT'', ''UCSZ22''), (''TXB82_BIT'', ''TXB82'')]"

definition macros_ATmega640_3 :: macros where
  "macros_ATmega640_3 =
     [(''RX3_INTERRUPT'', ''USART3_RX_vect''), (''TXC3_INTERRUPT'', ''USART3_TX_vect''), (''UDRE3_INTERRUPT'', ''USART3_UDRE_vect''),
      (''UDR3_REGISTER'', ''UDR3''), (''UBRR3L_REGISTER'', ''UBRR3L''), (''UBRR3H_REGISTER'', ''UBRR3H''),
      (''UCSR3A_REGISTER'', ''UCSR3A''), (''UCSR3B_REGISTER'', ''UCSR3B''), (''UCSR3C_REGISTER'', ''UCSR3C''),
      (''TXCIE3_BIT'', ''TXCIE3''), (''UDRIE3_BIT'', ''UDRIE3''), (''RXCIE3_BIT'', ''RXCIE3''),
      (''TXEN3_BIT'', ''TXEN3''), (''RXEN3_BIT'', ''RXEN3''), (''UDRE3_BIT'', ''UDRE3''),
      (''RXC3_BIT'', ''RXC3''), (''U2X3_BIT'', ''U2X3''), (''MPCM3_BIT'', ''MPCM3''),
      (''UCSZ32_BIT'', ''UCSZ32''), (''TXB83_BIT'', ''TXB83'')]"

definition macros_ATmega8U2_1 :: macros where
  "macros_ATmega8U2_1 =
     [(''RX1_INTERRUPT'', ''USART1_RX_vect''), (''TXC1_INTERRUPT'', ''USART1_TX_vect''), (''UDRE1_INTERRUPT'', ''USART1_UDRE_vect''),
      (''UDR1_REGISTER'', ''UDR1''), (''UBRR1L_REGISTER'', ''UBRR1L''), (''UBRR1H_REGISTER'', ''UBRR1H''),
      (''UCSR1A_REGISTER'', ''UCSR1A''), (''UCSR1B_REGISTER'', ''UCSR1B''), (''UCSR1C_REGISTER'', ''UCSR1C''),
      (''UCSR1D_REGISTER'', ''UCSR1D''), (''TXCIE1_BIT'', ''TXCIE1''), (''UDRIE1_BIT'', ''UDRIE1''),
      (''RXCIE1_BIT'', ''RXCIE1''), (''TXEN1_BIT'', ''TXEN1''), (''RXEN1_BIT'', ''RXEN1''),
      (''UDRE1_BIT'', ''UDRE1''), (''RXC1_BIT'', ''RXC1''), (''U2X1_BIT'', ''U2X1''),
      (''MPCM1_BIT'', ''MPCM1''), (''UCSZ12_BIT'', ''UCSZ12''), (''TXB81_BIT'', ''TXB81''),
      (''CTSEN1_BIT'', ''CTSEN''), (''RTSEN1_BIT'', ''RTSEN'')]"

definition macros_ATmega169A_0 :: macros where
  "macros_ATmega169A_0 =
     [(''RX0_INTERRUPT'', ''USART0_RX_vect''), (''TXC0_INTERRUPT'', ''USART0_TX_vect''), (''UDRE0_INTERRUPT'', ''USART0_UDRE_vect''),
      (''UDR0_REGISTER'', ''UDR''), (''UBRR0L_REGISTER'', ''UBRRL''), (''UBRR0H_REGISTER'', ''UBRRH''),
      (''UCSR0A_REGISTER'', ''UCSRA''), (''UCSR0B_REGISTER'', ''UCSRB''), (''UCSR0C_REGISTER'', ''UCSRC''),
      (''TXCIE0_BIT'', ''TXCIE''), (''UDRIE0_BIT'', ''UDRIE''), (''RXCIE0_BIT'', ''RXCIE''),
      (''TXEN0_BIT'', ''TXEN''), (''RXEN0_BIT'', ''RXEN''), (''UDRE0_BIT'', ''UDRE''),
      (''RXC0_BIT'', ''RXC''), (''U2X0_BIT'', ''U2X''), (''MPCM0_BIT'', ''MPCM''),
      (''UCSZ02_BIT'', ''UCSZ2''), (''TXB80_BIT'', ''TXB8'')]"

definition macros_ATmega329_0 :: macros where
  "macros_ATmega329_0 =
     [(''RX0_INTERRUPT'', ''USART0_RX_vect''), (''TXC0_INTERRUPT'', ''USART0_TX_vect''), (''UDRE0_INTERRUPT'', ''USART0_UDRE_vect''),
      (''UDR0_REGISTER'', ''UDR0''), (''UBRR0L_REGISTER'', ''UBRR0L''), (''UBRR0H_REGISTER'', ''UBRR0H''),
      (''UCSR0A_REGISTER'', ''UCSR0A''), (''UCSR0B_REGISTER'', ''UCSR0B''), (''UCSR0C_REGISTER'', ''UCSR0C''),
      (''TXCIE0_BIT'', ''TXCIE0''), (''UDRIE0_BIT'', ''UDRIE0''), (''RXCIE0_BIT'', ''RXCIE0''),
      (''TXEN0_BIT'', ''TXEN0''), (''RXEN0_BIT'', ''RXEN0''), (''UDRE0_BIT'', ''UDRE0''),
      (''RXC0_BIT'', ''RXC0''), (''U2X0_BIT'', ''U2X0''), (''MPCM0_BIT'', ''MPCM0''),
      (''UCSZ02_BIT'', ''UCSZ02''), (''TXB80_BIT'', ''TXB80'')]"

definition macros_ATmega3290_0 :: macros where
  "macros_ATmega3290_0 =
     [(''RX0_INTERRUPT'', ''USART_RX_vect''), (''TXC0_INTERRUPT'', ''USART0_TX_vect''), (''UDRE0_INTERRUPT'', ''USART0_UDRE_vect''),
      (''UDR0_REGISTER'', ''UDR0''), (''UBRR0L_REGISTER'', ''UBRR0L''), (''UBRR0H_REGISTER'', ''UBRR0H''),
      (''UCSR0A_REGISTER'', ''UCSR0A''), (''UCSR0B_REGISTER'', ''UCSR0B''), (''UCSR0C_REGISTER'', ''UCSR0C''),
      (''TXCIE0_BIT'', ''TXCIE0''), (''UDRIE0_BIT'', ''UDRIE0''), (''RXCIE0_BIT'', ''RXCIE0''),
      (''TXEN0_BIT'', ''TXEN0''), (''RXEN0_BIT'', ''RXEN0''), (''UDRE0_BIT'', ''UDRE0''),
      (''RXC0_BIT'', ''RXC0''), (''U2X0_BIT'', ''U2X0''), (''MPCM0_BIT'', ''MPCM0''),
      (''UCSZ02_BIT'', ''UCSZ02''), (''TXB80_BIT'', ''TXB80'')]"

definition macros_AT90CAN32_0 :: macros where
  "macros_AT90CAN32_0 =
     [(''RX0_INTERRUPT'', ''USART0_RX_vect''), (''TXC0_INTERRUPT'', ''USART0_TX_vect''), (''UDRE0_INTERRUPT'', ''USART0_UDRE_vect''),
      (''UDR0_REGISTER'', ''UDR0''), (''UBRR0L_REGISTER'', ''UBRR0L''), (''UBRR0H_REGISTER'', ''UBRR0H''),
      (''UCSR0A_REGISTER'', ''UCSR0A''), (''UCSR0B_REGISTER'', ''UCSR0B''), (''UCSR0C_REGISTER'', ''UCSR0C''),
      (''TXCIE0_BIT'', ''TXCIE0''), (''UDRIE0_BIT'', ''UDRIE0''), (''RXCIE0_BIT'', ''RXCIE0''),
      (''TXEN0_BIT'', ''TXEN0''), (''RXEN0_BIT'', ''RXEN0''), (''UDRE0_BIT'', ''UDRE0''),
      (''RXC0_BIT'', ''RXC0''), (''U2X0_BIT'', ''U2X0''), (''MPCM0_BIT'', ''MPCM0''),
      (''UCSZ02_BIT'', ''UCSZ02''), (''TXB80_BIT'', ''TXB80'')]"

definition macros_AT90CAN32_1 :: macros where
  "macros_AT90CAN32_1 =
     [(''RX1_INTERRUPT'', ''USART1_RX_vect''), (''TXC1_INTERRUPT'', ''USART1_TX_vect''), (''UDRE1_INTERRUPT'', ''USART1_UDRE_vect''),
      (''UDR1_REGISTER'', ''UDR1''), (''UBRR1L_REGISTER'', ''UBRR1L''), (''UBRR1H_REGISTER'', ''UBRR1H''),
      (''UCSR1A_REGISTER'', ''UCSR1A''), (''UCSR1B_REGISTER'', ''UCSR1B''), (''UCSR1C_REGISTER'', ''UCSR1C''),
      (''TXCIE1_BIT'', ''TXCIE1''), (''UDRIE1_BIT'', ''UDRIE1''), (''RXCIE1_BIT'', ''RXCIE1''),
      (''TXEN1_BIT'', ''TXEN1''), (''RXEN1_BIT'', ''RXEN1''), (''UDRE1_BIT'', ''UDRE1''),
      (''RXC1_BIT'', ''RXC1''), (''U2X1_BIT'', ''U2X1''), (''MPCM1_BIT'', ''MPCM1''),
      (''UCSZ12_BIT'', ''UCSZ12''), (''TXB81_BIT'', ''TXB81'')]"

definition macros_AT90USB646_1 :: macros where
  "macros_AT90USB646_1 =
     [(''RX1_INTERRUPT'', ''USART1_RX_vect''), (''TXC1_INTERRUPT'', ''USART1_TX_vect''), (''UDRE1_INTERRUPT'', ''USART1_UDRE_vect''),
      (''UDR1_REGISTER'', ''UDR1''), (''UBRR1L_REGISTER'', ''UBRR1L''), (''UBRR1H_REGISTER'', ''UBRR1H''),
      (''UCSR1A_REGISTER'', ''UCSR1A''), (''UCSR1B_REGISTER'', ''UCSR1B''), (''UCSR1C_REGISTER'', ''UCSR1C''),
      (''TXCIE1_BIT'', ''TXCIE1''), (''UDRIE1_BIT'', ''UDRIE1''), (''RXCIE1_BIT'', ''RXCIE1''),
      (''TXEN1_BIT'', ''TXEN1''), (''RXEN1_BIT'', ''RXEN1''), (''UDRE1_BIT'', ''UDRE1''),
      (''RXC1_BIT'', ''RXC1''), (''U2X1_BIT'', ''U2X1''), (''MPCM1_BIT'', ''MPCM1''),
      (''UCSZ12_BIT'', ''UCSZ12''), (''TXB81_BIT'', ''TXB81'')]"

definition part_sections :: "part_section list" where
  "part_sections =
     [([''__AVR_ATtiny102__'', ''__AVR_ATtiny104__''],
       [(''USART0_IN_UPPER_IO_ADDRESS_SPACE'', '''')],
       [(0, [], macros_ATtiny102_0)]),
      ([''__AVR_ATtiny2313__'', ''__AVR_ATtiny2313A__'', ''__AVR_ATtiny4313''],
       [(''USART0_IN_IO_ADDRESS_SPACE'', '''')],
       [(0, [], macros_ATtiny2313_0)]),
      ([''__AVR_ATtiny1634__''],
       [(''USART0_IN_UPPER_IO_ADDRESS_SPACE'', '''')],
       [(0, [], macros_ATtiny1634_0),
        (1, [], macros_ATtiny1634_1)]),
      ([''__AVR_ATtiny441__'', ''__AVR_ATtiny841__''],
       [],
       [(0, [], macros_ATtiny441_0),
        (1, [], macros_ATtiny441_1)]),
      ([''__AVR_ATmega48__'', ''__AVR_ATmega48P__'', ''__AVR_ATmega48PA__'', ''__AVR_ATmega48PB__'',
        ''__AVR_ATmega88__'', ''__AVR_ATmega88P__'', ''__AVR_ATmega88PA__'', ''__AVR_ATmega88PB__'',
        ''__AVR_ATmega168__'', ''__AVR_ATmega168P__'', ''__AVR_ATmega168PA__'', ''__AVR_ATmega168PB__'',
        ''__AVR_ATmega328__'', ''__AVR_ATmega328P__''],
       [],
       [(0, [], macros_ATmega48_0)]),
      ([''__AVR_ATmega328PB__''],
       [],
       [(0, [], macros_ATmega328PB_0),
        (1, [], macros_ATmega328PB_1)]),
      ([''__AVR_ATmega8__'', ''__AVR_ATmega8P__'', ''__AVR_ATmega16__'', ''__AVR_ATmega16A__'',
        ''__AVR_ATmega32__'', ''__AVR_ATmega32A__'', ''__AVR_ATmega8A__'', ''__AVR_ATmega8L__''],
       [(''USART0_IN_IO_ADDRESS_SPACE'', '''')],
       [(0, [], macros_ATmega8_0)]),
      ([''__AVR_ATmega8515__'', ''__AVR_ATmega8515L__''],
       [(''USART0_IN_IO_ADDRESS_SPACE'', '''')],
       [(0, [], macros_ATmega8515_0)]),
      ([''__AVR_ATmega162__''],
       [(''USART0_IN_IO_ADDRESS_SPACE'', ''''), (''USART1_IN_IO_ADDRESS_SPACE'', '''')],
       [(0, [], macros_ATmega162_0),
        (1, [], macros_ATmega162_1)]),
      ([''__AVR_ATmega128__'', ''__AVR_ATmega128A__'', ''__AVR_ATmega64__'', ''__AVR_ATmega64A__''],
       [(''USART0_IN_IO_ADDRESS_SPACE'', '''')],
       []),
      ([''__AVR_ATmega644__'', ''__AVR_ATmega644P__'', ''__AVR_ATmega644PA__'', ''__AVR_ATmega1284__'',
        ''__AVR_ATmega1284P__'', ''__AVR_ATmega128__'', ''__AVR_ATmega128A__'', ''__AVR_ATmega64__'',
        ''__AVR_ATmega64A__'', ''__AVR_ATmega1281__'', ''__AVR_ATmega2561__'', ''__AVR_ATmega640__'',
        ''__AVR_ATmega1280__'', ''__AVR_ATmega2560__'', ''__AVR_ATmega164P__'', ''__AVR_ATmega324P__'',
        ''__AVR_ATmega324A__'', ''__AVR_ATmega324PA__'', ''__AVR_ATmega324PB__''],
       [],
       [(0, [], macros_ATmega644_0),
        (1, [''__AVR_ATmega644__''], macros_ATmega644_1)]),
      ([''__AVR_ATmega640__'', ''__AVR_ATmega1280__'', ''__AVR_ATmega2560__'', ''__AVR_ATmega324PB__''],
       [],
       [(2, [], macros_ATmega640_2),
        (3, [''__AVR_ATmega324PB__''], macros_ATmega640_3)]),
      ([''__AVR_ATmega8U2__'', ''__AVR_ATmega16U2__'', ''__AVR_ATmega16U4__'', ''__AVR_ATmega32U2__'',
        ''__AVR_ATmega32U4__'', ''__AVR_ATmega32U6__'', ''__AVR_AT90USB82__'', ''__AVR_AT90USB162__''],
       [(''USART1_HARDWARE_FLOW_CONTROL_AVAILABLE'', '''')],
       [(1, [], macros_ATmega8U2_1)]),
      ([''__AVR_ATmega169A__'', ''__AVR_ATmega169__'', ''__AVR_ATmega169P__'', ''__AVR_ATmega169PA__''],
       [],
       [(0, [], macros_ATmega169A_0)]),
      ([''__AVR_ATmega329__'', ''__AVR_ATmega329P__'', ''__AVR_ATmega329PA__'', ''__AVR_ATmega329A__'',
        ''__AVR_ATmega649__'', ''__AVR_ATmega649A__'', ''__AVR_ATmega649P__'', ''__AVR_ATmega169P__'',
        ''__AVR_ATmega169PA__'', ''__AVR_ATmega325__'', ''__AVR_ATmega325A__'', ''__AVR_ATmega325P__'',
        ''__AVR_ATmega325PA__'', ''__AVR_ATmega645__'', ''__AVR_ATmega645A__'', ''__AVR_ATmega645P__''],
       [],
       [(0, [], macros_ATmega329_0)]),
      ([''__AVR_ATmega3290__'', ''__AVR_ATmega6490__'', ''__AVR_ATmega3290P__'', ''__AVR_ATmega3290PA__'',
        ''__AVR_ATmega3290A__'', ''__AVR_ATmega6490A__'', ''__AVR_ATmega6490P__'', ''__AVR_ATmega3250__'',
        ''__AVR_ATmega3250A__'', ''__AVR_ATmega3250P__'', ''__AVR_ATmega3250PA__'', ''__AVR_ATmega6450__'',
        ''__AVR_ATmega6450A__'', ''__AVR_ATmega6450P__''],
       [],
       [(0, [], macros_ATmega3290_0)]),
      ([''__AVR_AT90CAN32__'', ''__AVR_AT90CAN64__'', ''__AVR_AT90CAN128__'', ''__AVR_ATmega64RFR2__'',
        ''__AVR_ATmega128RFR2__'', ''__AVR_ATmega256RFR2__'', ''__AVR_ATmega644RFR2__'', ''__AVR_ATmega1284RFR2__'',
        ''__AVR_ATmega2564RFR2__'', ''__AVR_ATmega128RFA1__''],
       [],
       [(0, [], macros_AT90CAN32_0),
        (1, [], macros_AT90CAN32_1)]),
      ([''__AVR_AT90USB646__'', ''__AVR_AT90USB647__'', ''__AVR_AT90USB1286__'', ''__AVR_AT90USB1287__''],
       [],
       [(1, [], macros_AT90USB646_1)])]"

definition remap_1 :: macros where
  "remap_1 =
     [(''RX0_INTERRUPT'', ''RX1_INTERRUPT''), (''TXC0_INTERRUPT'', ''TXC1_INTERRUPT''), (''UDRE0_INTERRUPT'', ''UDRE1_INTERRUPT''),
      (''UDR0_REGISTER'', ''UDR1_REGISTER''), (''UBRR0L_REGISTER'', ''UBRR1L_REGISTER''), (''UBRR0H_REGISTER'', ''UBRR1H_REGISTER''),
      (''UCSR0A_REGISTER'', ''UCSR1A_REGISTER''), (''UCSR0B_REGISTER'', ''UCSR1B_REGISTER''), (''UCSR0C_REGISTER'', ''UCSR1C_REGISTER''),
      (''TXCIE0_BIT'', ''TXCIE1_BIT''), (''UDRIE0_BIT'', ''UDRIE1_BIT''), (''RXCIE0_BIT'', ''RXCIE1_BIT''),
      (''TXEN0_BIT'', ''TXEN1_BIT''), (''RXEN0_BIT'', ''RXEN1_BIT''), (''UDRE0_BIT'', ''UDRE1_BIT''),
      (''RXC0_BIT'', ''RXC1_BIT''), (''U2X0_BIT'', ''U2X1_BIT''), (''MPCM0_BIT'', ''MPCM1_BIT''),
      (''UCSZ02_BIT'', ''UCSZ12_BIT''), (''TXB80_BIT'', ''TXB81_BIT'')]"

definition remap_2 :: macros where
  "remap_2 =
     [(''RX0_INTERRUPT'', ''RX2_INTERRUPT''), (''TXC0_INTERRUPT'', ''TXC2_INTERRUPT''), (''UDRE0_INTERRUPT'', ''UDRE2_INTERRUPT''),
      (''UDR0_REGISTER'', ''UDR2_REGISTER''), (''UBRR0L_REGISTER'', ''UBRR2L_REGISTER''), (''UBRR0H_REGISTER'', ''UBRR2H_REGISTER''),
      (''UCSR0A_REGISTER'', ''UCSR2A_REGISTER''), (''UCSR0B_REGISTER'', ''UCSR2B_REGISTER''), (''UCSR0C_REGISTER'', ''UCSR2C_REGISTER''),
      (''TXCIE0_BIT'', ''TXCIE2_BIT''), (''UDRIE0_BIT'', ''UDRIE2_BIT''), (''RXCIE0_BIT'', ''RXCIE2_BIT''),
      (''TXEN0_BIT'', ''TXEN2_BIT''), (''RXEN0_BIT'', ''RXEN2_BIT''), (''UDRE0_BIT'', ''UDRE2_BIT''),
      (''RXC0_BIT'', ''RXC2_BIT''), (''U2X0_BIT'', ''U2X2_BIT''), (''MPCM0_BIT'', ''MPCM2_BIT''),
      (''UCSZ02_BIT'', ''UCSZ22_BIT''), (''TXB80_BIT'', ''TXB82_BIT'')]"

definition remap_3 :: macros where
  "remap_3 =
     [(''RX0_INTERRUPT'', ''RX3_INTERRUPT''), (''TXC0_INTERRUPT'', ''TXC3_INTERRUPT''), (''UDRE0_INTERRUPT'', ''UDRE3_INTERRUPT''),
      (''UDR0_REGISTER'', ''UDR3_REGISTER''), (''UBRR0L_REGISTER'', ''UBRR3L_REGISTER''), (''UBRR0H_REGISTER'', ''UBRR3H_REGISTER''),
      (''UCSR0A_REGISTER'', ''UCSR3A_REGISTER''), (''UCSR0B_REGISTER'', ''UCSR3B_REGISTER''), (''UCSR0C_REGISTER'', ''UCSR3C_REGISTER''),
      (''TXCIE0_BIT'', ''TXCIE3_BIT''), (''UDRIE0_BIT'', ''UDRIE3_BIT''), (''RXCIE0_BIT'', ''RXCIE3_BIT''),
      (''TXEN0_BIT'', ''TXEN3_BIT''), (''RXEN0_BIT'', ''RXEN3_BIT''), (''UDRE0_BIT'', ''UDRE3_BIT''),
      (''RXC0_BIT'', ''RXC3_BIT''), (''U2X0_BIT'', ''U2X3_BIT''), (''MPCM0_BIT'', ''MPCM3_BIT''),
      (''UCSZ02_BIT'', ''UCSZ32_BIT''), (''TXB80_BIT'', ''TXB83_BIT'')]"

definition remap_flow_control :: macros where
  "remap_flow_control =
     [(''USART0_HARDWARE_FLOW_CONTROL_AVAILABLE'', ''''), (''UCSR0D_REGISTER'', ''UCSR1D_REGISTER''), (''CTSEN0_BIT'', ''CTSEN1_BIT''),
      (''RTSEN0_BIT'', ''RTSEN1_BIT'')]"

section \<open>Selecting the units\<close>

definition select_unit :: "part_unit \<Rightarrow> macros \<Rightarrow> macros" where
  "select_unit u m =
     (case u of (k, lacking, names) \<Rightarrow>
        if \<not> defined m (named ''NO_USART'' k '''') \<and> \<not> list_ex (defined m) lacking then names @ (USE_USART k, '''') # m else m)"

definition select_section :: "part_section \<Rightarrow> macros \<Rightarrow> macros" where
  "select_section sec m =
     (case sec of (parts, ds, us) \<Rightarrow> if list_ex (defined m) parts then fold select_unit us (ds @ m) else m)"

definition select_part :: "macros \<Rightarrow> macros" where
  "select_part m = fold select_section part_sections m"

text \<open>\<open>USART_REMAP_LAST_INTERFACE\<close>: if \<open>k\<close> is the only unit, it becomes unit 0.\<close>

definition only_unit :: "nat \<Rightarrow> macros \<Rightarrow> bool" where
  "only_unit k m \<longleftrightarrow> list_all (\<lambda>j. defined m (USE_USART j) \<longleftrightarrow> j = k) [0, 1, 2, 3]"

definition remap_unit :: "nat \<Rightarrow> macros \<Rightarrow> macros \<Rightarrow> macros" where
  "remap_unit k names m =
     (if defined m ''USART_REMAP_LAST_INTERFACE'' \<and> only_unit k m
      then
        let m = (USE_USART 0, '''') # undef (USE_USART k) m;
            m = (if k = 1 \<and> defined m ''USART1_HARDWARE_FLOW_CONTROL_AVAILABLE'' then remap_flow_control @ m else m)
        in names @ m
      else m)"

definition remap :: "macros \<Rightarrow> macros" where
  "remap m = remap_unit 3 remap_3 (remap_unit 2 remap_2 (remap_unit 1 remap_1 m))"

section \<open>Enabled units are complete\<close>

lemma defined_simps [simp]:
  "\<not> defined [] x" "defined (e # m) x \<longleftrightarrow> fst e = x \<or> defined m x" "defined (m @ m') x \<longleftrightarrow> defined m x \<or> defined m' x"
  "defined (undef y m) x \<longleftrightarrow> x \<noteq> y \<and> defined m x"
  by (auto simp: defined_def undef_def)

lemma all_less_4: "(\<forall>k<4. P k) \<longleftrightarrow> P 0 \<and> P 1 \<and> P 2 \<and> P (3 :: nat)"
proof -
  have "{..<4} = {0, 1, 2, 3 :: nat}" by auto
  then have "(\<forall>k\<in>{..<4}. P k) \<longleftrightarrow> P 0 \<and> P 1 \<and> P 2 \<and> P 3" by simp
  then show ?thesis by (simp add: Ball_def)
qed

lemma digit_eq:
  assumes "j < 4" "k < 4"
  shows "unit_digit j = unit_digit k \<longleftrightarrow> j = k"
proof -
  have "\<forall>j<4. \<forall>k<4. unit_digit j = unit_digit k \<longleftrightarrow> j = k" unfolding all_less_4 by (simp add: unit_digit_def)
  then show ?thesis using assms by simp
qed

lemma USE_eq [simp]: "j < 4 \<Longrightarrow> k < 4 \<Longrightarrow> USE_USART j = USE_USART k \<longleftrightarrow> j = k"
  by (simp add: USE_USART_def named_def digit_eq)

definition complete :: "macros \<Rightarrow> bool" where
  "complete m \<longleftrightarrow> list_all (\<lambda>k. defined m (USE_USART k) \<longrightarrow> list_all (defined m) (unit_macros k)) [0, 1, 2, 3]"

lemma units_complete_iff: "complete m \<longleftrightarrow> (\<forall>k<4. defined m (USE_USART k) \<longrightarrow> (\<forall>x\<in>set (unit_macros k). defined m x))"
  by (simp add: complete_def list_all_iff all_less_4)

text \<open>Names that the table and the remapping must not define.\<close>

definition reserved :: "string list" where
  "reserved = map USE_USART [0, 1, 2, 3] @ map (\<lambda>k. named ''USART'' k ''_USE_SOFT_RTS'') [0, 1, 2, 3]"

definition free_of :: "string list \<Rightarrow> macros \<Rightarrow> bool" where
  "free_of xs m \<longleftrightarrow> list_all (\<lambda>x. \<not> defined m x) xs"

definition unit_ok :: "part_unit \<Rightarrow> bool" where
  "unit_ok u \<longleftrightarrow> (case u of (k, _, names) \<Rightarrow> k < 4 \<and> list_all (defined names) (unit_macros k) \<and> free_of reserved names)"

definition section_ok :: "part_section \<Rightarrow> bool" where
  "section_ok sec \<longleftrightarrow> (case sec of (_, ds, us) \<Rightarrow> free_of reserved ds \<and> list_all unit_ok us)"

lemma table_ok: "list_all section_ok part_sections"
  by code_simp

lemma remap_ok:
  "list_all (\<lambda>names. list_all (defined names) (unit_macros 0) \<and> free_of reserved names) [remap_1, remap_2, remap_3]"
  "free_of reserved remap_flow_control"
  by code_simp+

lemma free_ofD: "free_of xs m \<Longrightarrow> x \<in> set xs \<Longrightarrow> \<not> defined m x"
  by (simp add: free_of_def list_all_iff)

lemma reserved_use: "k < 4 \<Longrightarrow> USE_USART k \<in> set reserved"
proof -
  have "\<forall>k<4. USE_USART k \<in> set reserved" unfolding all_less_4 by (simp add: reserved_def)
  then show "k < 4 \<Longrightarrow> ?thesis" by simp
qed

lemma select_unit_complete:
  assumes "complete m" "unit_ok u"
  shows "complete (select_unit u m)"
proof -
  obtain k lacking names where u: "u = (k, lacking, names)" by (cases u)
  have k: "k < 4" "\<forall>x\<in>set (unit_macros k). defined names x" and free: "free_of reserved names"
    using assms(2) by (simp_all add: unit_ok_def u list_all_iff)
  have "complete (names @ (USE_USART k, '''') # m)" unfolding units_complete_iff
  proof (intro allI impI ballI)
    fix j x
    assume j: "j < 4" "defined (names @ (USE_USART k, '''') # m) (USE_USART j)" "x \<in> set (unit_macros j)"
    then have "j = k \<or> defined m (USE_USART j)" using free_ofD [OF free reserved_use [OF j(1)]] k(1) by auto
    then show "defined (names @ (USE_USART k, '''') # m) x" using j k(2) assms(1) unfolding units_complete_iff by auto
  qed
  then show ?thesis using assms(1) by (simp add: select_unit_def u)
qed

lemma select_units_complete: "complete m \<Longrightarrow> list_all unit_ok us \<Longrightarrow> complete (fold select_unit us m)"
  by (induction us arbitrary: m) (simp_all add: select_unit_complete)

lemma complete_append: "complete m \<Longrightarrow> free_of reserved ds \<Longrightarrow> complete (ds @ m)"
  using free_ofD [OF _ reserved_use, of ds] by (simp add: units_complete_iff)

lemma select_part_complete: "complete m \<Longrightarrow> complete (select_part m)"
proof -
  have "complete m \<Longrightarrow> list_all section_ok secs \<Longrightarrow> complete (fold select_section secs m)" for secs
  proof (induction secs arbitrary: m)
    case (Cons sec secs)
    then have "complete (select_section sec m)"
      by (auto simp: select_section_def section_ok_def split: prod.splits intro!: select_units_complete complete_append)
    then show ?case using Cons by simp
  qed simp
  then show "complete m \<Longrightarrow> ?thesis" using table_ok by (simp add: select_part_def)
qed

lemma remap_unit_complete:
  assumes "complete m" "k < 4" "list_all (defined names) (unit_macros 0)" "free_of reserved names"
  shows "complete (remap_unit k names m)"
proof (cases "defined m ''USART_REMAP_LAST_INTERFACE'' \<and> only_unit k m")
  case True
  then have only: "\<forall>j<4. defined m (USE_USART j) \<longleftrightarrow> j = k" unfolding all_less_4 by (simp add: only_unit_def)
  have "defined (remap_unit k names m) (USE_USART j) \<longleftrightarrow> j = 0" if "j < 4" for j
    using True only that assms(2) free_ofD [OF assms(4) reserved_use [OF that]] free_ofD [OF remap_ok(2) reserved_use [OF that]]
    by (auto simp: remap_unit_def Let_def)
  moreover have "defined (remap_unit k names m) x" if "x \<in> set (unit_macros 0)" for x
    using True that assms(3) by (simp add: remap_unit_def Let_def list_all_iff)
  ultimately show ?thesis by (auto simp: units_complete_iff)
next
  case False
  then show ?thesis using assms(1) by (auto simp: remap_unit_def)
qed

lemma remap_complete: "complete m \<Longrightarrow> complete (remap m)"
  using remap_ok(1) by (auto simp: remap_def intro!: remap_unit_complete)

text \<open>Neither the table nor the remapping touches a reserved option.\<close>

lemma select_part_reserved:
  assumes "x \<in> set reserved" "\<forall>k<4. x \<noteq> USE_USART k"
  shows "defined (select_part m) x \<longleftrightarrow> defined m x"
proof -
  have unit_same: "defined (select_unit u m) x \<longleftrightarrow> defined m x" if "unit_ok u" for u m
    using that assms free_ofD [OF _ assms(1)] by (auto simp: select_unit_def unit_ok_def split: prod.splits)
  have units: "list_all unit_ok us \<Longrightarrow> defined (fold select_unit us m) x \<longleftrightarrow> defined m x" for us m
    by (induction us arbitrary: m) (simp_all add: unit_same)
  have "section_ok sec \<Longrightarrow> defined (select_section sec m) x \<longleftrightarrow> defined m x" for sec m
    using free_ofD [OF _ assms(1)] by (auto simp: select_section_def section_ok_def units split: prod.splits)
  then have "list_all section_ok secs \<Longrightarrow> defined (fold select_section secs m) x \<longleftrightarrow> defined m x" for secs
    by (induction secs arbitrary: m) simp_all
  then show ?thesis using table_ok by (simp add: select_part_def)
qed

lemma remap_reserved:
  assumes "x \<in> set reserved" "\<forall>k<4. x \<noteq> USE_USART k"
  shows "defined (remap m) x \<longleftrightarrow> defined m x"
proof -
  have "defined (remap_unit k names m) x \<longleftrightarrow> defined m x" if "free_of reserved names" "k < 4" for k names m
  proof -
    have "x \<noteq> USE_USART 0" "x \<noteq> USE_USART k" using assms(2) that(2) by simp_all
    then show ?thesis
      using free_ofD [OF that(1) assms(1)] free_ofD [OF remap_ok(2) assms(1)] by (cases "k = 1") (simp_all add: remap_unit_def Let_def)
  qed
  then show ?thesis using remap_ok(1) by (simp add: remap_def)
qed

lemma select_part_mono: "defined m x \<Longrightarrow> defined (select_part m) x"
proof -
  have u: "defined m x \<Longrightarrow> defined (select_unit u m) x" for u m by (simp add: select_unit_def split: prod.splits)
  have "defined m x \<Longrightarrow> defined (fold select_unit us m) x" for us m by (induction us arbitrary: m) (simp_all add: u)
  then have sec: "defined m x \<Longrightarrow> defined (select_section sec m) x" for sec m by (simp add: select_section_def split: prod.splits)
  have "defined m x \<Longrightarrow> defined (fold select_section secs m) x" for secs m
    by (induction secs arbitrary: m) (simp_all add: sec)
  then show "defined m x \<Longrightarrow> ?thesis" by (simp add: select_part_def)
qed

lemma remap_mono: "defined m x \<Longrightarrow> \<forall>k<4. x \<noteq> USE_USART k \<Longrightarrow> defined (remap m) x"
proof -
  have "defined (remap_unit k names m) x" if "defined m x" "\<forall>k<4. x \<noteq> USE_USART k" "k < 4" for k names m
  proof -
    have "x \<noteq> USE_USART k" using that by simp
    then show ?thesis using that(1) by (cases "k = 1") (simp_all add: remap_unit_def Let_def)
  qed
  then show "defined m x \<Longrightarrow> \<forall>k<4. x \<noteq> USE_USART k \<Longrightarrow> ?thesis" by (simp add: remap_def)
qed

section \<open>Processors in two sections\<close>

text \<open>
  Two sections that name the same processor and define different names for the same unit: the later one hides the earlier. It
  happens for the ATmega169P and the ATmega169PA, which get the register names of the larger group.
\<close>

definition conflicting :: "part_section \<Rightarrow> part_section \<Rightarrow> string list" where
  "conflicting a b =
     (if list_ex (\<lambda>(j, _, ms). list_ex (\<lambda>(k, _, ns). j = k \<and> ms \<noteq> ns) (snd (snd b))) (snd (snd a))
      then filter (\<lambda>p. p \<in> set (fst b)) (fst a) else [])"

fun conflicts :: "part_section list \<Rightarrow> string list" where
  "conflicts [] = []"
| "conflicts (a # secs) = concat (map (conflicting a) secs) @ conflicts secs"

lemma parts_in_conflict: "conflicts part_sections = [''__AVR_ATmega169P__'', ''__AVR_ATmega169PA__'']"
  by code_simp

end
