(* ===== verification/Usart_Options.thy ===== *)
theory Usart_Options
  imports Usart Usart_Parts
begin

text \<open>
  How \<^verbatim>\<open>lib/AVR-UART-LIB/usart.h\<close> turns the macros of \<^verbatim>\<open>usart_config.h\<close>, the build and the compiler into the options of each unit: the
  passages of the header in their order, each a function on the defined macros. \<open>unit_config\<close> reads off the
  record of options that the driver is modelled with. For this build the result is the record that the
  other theories use.
\<close>

section \<open>The passages of the header\<close>

definition default_macro :: "string \<times> string \<Rightarrow> macros \<Rightarrow> macros" where
  "default_macro e m = (if defined m (fst e) then m else e # m)"

definition abi_options :: "macros \<Rightarrow> macros" where
  "abi_options m =
     (let m = (if defined m ''DEBUG'' then (''USART_NO_ABI_BREAKING_PREMATURES'', '''') # m else m)
      in if \<not> defined m ''__AVR_ARCH__'' then (''USART_NO_ABI_BREAKING_PREMATURES'', '''') # m else m)"

definition buffer_sizes :: "macros \<Rightarrow> macros" where
  "buffer_sizes m =
     fold default_macro
       ([(''RX_BUFFER_SIZE'', ''32''), (''TX_BUFFER_SIZE'', ''32'')]
        @ concat (map (\<lambda>k. [(named ''TX'' k ''_BUFFER_SIZE'', ''TX_BUFFER_SIZE''), (named ''RX'' k ''_BUFFER_SIZE'', ''RX_BUFFER_SIZE'')])
            [0, 1, 2, 3]))
       m"

text \<open>An option for all units.\<close>

definition for_all_units :: "string \<times> string \<times> string \<Rightarrow> macros \<Rightarrow> macros" where
  "for_all_units e m =
     (case e of (x, pre, post) \<Rightarrow> if defined m x then map (\<lambda>k. (named pre k post, '''')) [3, 2, 1, 0] @ m else m)"

definition global_options :: "macros \<Rightarrow> macros" where
  "global_options m =
     fold for_all_units
       [(''NO_USART_RX'', ''NO_RX'', ''_INTERRUPT''), (''NO_USART_TX'', ''NO_TX'', ''_INTERRUPT''),
        (''USE_DOUBLE_SPEED'', ''USART'', ''_U2X_SPEED''), (''RX_GETC_ECHO'', ''RX'', ''_GETC_ECHO''),
        (''PUTC_CONVERT_LF_TO_CRLF'', ''PUTC'', ''_CONVERT_LF_TO_CRLF''), (''USART_EXTEND_RX_BUFFER'', ''USART'', ''_EXTEND_RX_BUFFER''),
        (''USART_PUTC_FAST_INSERTIONS'', ''USART'', ''_PUTC_FAST_INSERTIONS''), (''USART_MPCM_MODE'', ''USART'', ''_MPCM_MODE'')]
       m"

text \<open>A line that has a pin is used; request-to-send extends the receive buffer.\<close>

definition pin_option :: "string \<Rightarrow> string \<Rightarrow> nat \<Rightarrow> macros \<Rightarrow> macros" where
  "pin_option pin post k m =
     (if list_all (\<lambda>p. defined m (named pin k p)) [''_DDR'', ''_PORT'', ''_PIN'', ''_IONUM'']
      then (named ''USART'' k post, '''') # m else m)"

definition flow_options :: "macros \<Rightarrow> macros" where
  "flow_options m =
     fold (pin_option ''RS485_CONTROL'' ''_RS485_MODE'') [0, 1, 2, 3]
       (fold (pin_option ''RTS'' ''_USE_SOFT_RTS'') [0, 1, 2, 3]
         (fold (pin_option ''CTS'' ''_USE_SOFT_CTS'') [0, 1, 2, 3] m))"

definition extend_for_rts :: "nat \<Rightarrow> macros \<Rightarrow> macros" where
  "extend_for_rts k m =
     (if defined m (named ''USART'' k ''_USE_SOFT_RTS'') \<and> \<not> defined m (named ''USART'' k ''_EXTEND_RX_BUFFER'')
      then (named ''USART'' k ''_EXTEND_RX_BUFFER'', '''') # m else m)"

definition rts_options :: "macros \<Rightarrow> macros" where
  "rts_options m = fold extend_for_rts [0, 1, 2, 3] m"

text \<open>The number that a literal stands for.\<close>

definition digit_value :: "char \<Rightarrow> nat" where
  "digit_value c = (let n = of_char c in if n < 58 then n - 48 else if n < 71 then n - 55 else n - 87)"

definition literal :: "string \<Rightarrow> nat" where
  "literal ds =
     (if take 2 ds = ''0x'' then fold (\<lambda>c n. 16 * n + digit_value c) (drop 2 ds) 0
      else fold (\<lambda>c n. 10 * n + digit_value c) ds 0)"

definition macro_value :: "macros \<Rightarrow> string \<Rightarrow> nat" where
  "macro_value m x = (if defined m x then literal (expand m x) else 0)"

definition newline_option :: "macros \<Rightarrow> macros" where
  "newline_option m =
     (if defined m ''RX_NEWLINE_MODE''
      then
        if macro_value m ''RX_NEWLINE_MODE'' = 0 then (''RX_NEWLINE_MODE_R'', '''') # m
        else if macro_value m ''RX_NEWLINE_MODE'' = 1 then (''RX_NEWLINE_MODE_N'', '''') # m
        else (''RX_NEWLINE_MODE_RN'', '''') # m
      else (''RX_NEWLINE_MODE_RN'', '''') # m)"

text \<open>A unit that is not used has no interrupts; the interrupt at the end of a transmission is for RS485.\<close>

definition unused_unit :: "nat \<Rightarrow> macros \<Rightarrow> macros" where
  "unused_unit k m =
     (if \<not> defined m (USE_USART k)
      then (named ''NO_RX'' k ''_INTERRUPT'', '''') # (named ''NO_TX'' k ''_INTERRUPT'', '''') # m else m)"

definition single_unit :: "macros \<Rightarrow> macros" where
  "single_unit m =
     (if only_unit 0 m
      then
        let m = (if defined m ''NO_TX0_INTERRUPT'' then (''NO_USART_TX'', '''') # m else m)
        in if defined m ''NO_RX0_INTERRUPT'' then (''NO_USART_RX'', '''') # m else m
      else m)"

definition txc_option :: "nat \<Rightarrow> macros \<Rightarrow> macros" where
  "txc_option k m =
     (if defined m (named ''USART'' k ''_RS485_MODE'') \<and> \<not> defined m (named ''NO_TX'' k ''_INTERRUPT'')
      then (named ''USART'' k ''_USE_TXC_INTERRUPT'', '''') # m else m)"

definition unit_options :: "macros \<Rightarrow> macros" where
  "unit_options m = fold txc_option [0, 1, 2, 3] (single_unit (fold unused_unit [0, 1, 2, 3] m))"

text \<open>The header as a whole.\<close>

definition usart_h :: "macros \<Rightarrow> macros" where
  "usart_h m =
     unit_options (remap (select_part (newline_option (rts_options (flow_options (global_options (buffer_sizes (abi_options m))))))))"

section \<open>Frame formats\<close>

text \<open>
  Values of the control register UCSRnC. Processors with a register shared with the high byte of the baud rate have a bit
  \<open>URSEL\<close> that must be set to write it.
\<close>

definition frame_bits :: "bool \<Rightarrow> (string \<times> u8) list" where
  "frame_bits ursel =
     (if ursel
      then [(''USART_XCK_RISING_EDGE'', 0x80), (''USART_XCK_FALLING_EDGE'', 0x81),
            (''USART_5BIT_DATA'', 0x80), (''USART_6BIT_DATA'', 0x82), (''USART_7BIT_DATA'', 0x84), (''USART_8BIT_DATA'', 0x86),
            (''USART_1STOP_BIT'', 0x80), (''USART_2STOP_BITS'', 0x88),
            (''USART_NO_PARITY'', 0x80), (''USART_EVEN_PARITY'', 0xA0), (''USART_ODD_PARITY'', 0xB0),
            (''USART_ASYNC_MODE'', 0x80), (''USART_SYNC_MODE'', 0xC0)]
      else [(''USART_XCK_RISING_EDGE'', 0x00), (''USART_XCK_FALLING_EDGE'', 0x01),
            (''USART_5BIT_DATA'', 0x00), (''USART_6BIT_DATA'', 0x02), (''USART_7BIT_DATA'', 0x04), (''USART_8BIT_DATA'', 0x06),
            (''USART_1STOP_BIT'', 0x00), (''USART_2STOP_BITS'', 0x08),
            (''USART_NO_PARITY'', 0x00), (''USART_EVEN_PARITY'', 0x20), (''USART_ODD_PARITY'', 0x30),
            (''USART_ASYNC_MODE'', 0x00), (''USART_SYNC_MODE'', 0x40), (''USART_MSPI_MODE'', 0xC0)])"

definition frame_formats :: "(string \<times> string list) list" where
  "frame_formats =
     [(''USART_8N1'', [''USART_8BIT_DATA'', ''USART_NO_PARITY'', ''USART_1STOP_BIT'']),
      (''USART_8N2'', [''USART_8BIT_DATA'', ''USART_NO_PARITY'', ''USART_2STOP_BITS'']),
      (''USART_8E1'', [''USART_8BIT_DATA'', ''USART_EVEN_PARITY'', ''USART_1STOP_BIT'']),
      (''USART_8E2'', [''USART_8BIT_DATA'', ''USART_EVEN_PARITY'', ''USART_2STOP_BITS'']),
      (''USART_8O1'', [''USART_8BIT_DATA'', ''USART_ODD_PARITY'', ''USART_1STOP_BIT'']),
      (''USART_8O2'', [''USART_8BIT_DATA'', ''USART_ODD_PARITY'', ''USART_2STOP_BITS'']),
      (''USART_7N1'', [''USART_7BIT_DATA'', ''USART_NO_PARITY'', ''USART_1STOP_BIT'']),
      (''USART_7N2'', [''USART_7BIT_DATA'', ''USART_NO_PARITY'', ''USART_2STOP_BITS'']),
      (''USART_7E1'', [''USART_7BIT_DATA'', ''USART_EVEN_PARITY'', ''USART_1STOP_BIT'']),
      (''USART_7E2'', [''USART_7BIT_DATA'', ''USART_EVEN_PARITY'', ''USART_2STOP_BITS'']),
      (''USART_7O1'', [''USART_7BIT_DATA'', ''USART_ODD_PARITY'', ''USART_1STOP_BIT'']),
      (''USART_7O2'', [''USART_7BIT_DATA'', ''USART_ODD_PARITY'', ''USART_2STOP_BITS''])]"

definition frame_value :: "bool \<Rightarrow> string list \<Rightarrow> u8 option" where
  "frame_value ursel names =
     fold (\<lambda>x acc. case (acc, map_of (frame_bits ursel) x) of (Some v, Some b) \<Rightarrow> Some (v OR b) | _ \<Rightarrow> None) names (Some 0)"

text \<open>
  What the hardware makes of the register: data bits, parity (0 none, 2 even, 3 odd), stop bits. The name of each format says the same, with both
  register layouts.
\<close>

definition frame_of :: "u8 \<Rightarrow> nat \<times> nat \<times> nat" where
  "frame_of v = (5 + unat (drop_bit 1 v AND 3), unat (drop_bit 4 v AND 3), 1 + (if bit v 3 then 1 else 0))"

lemma frame_formats_correct:
  "map (\<lambda>e. map_option frame_of (frame_value ursel (snd e))) frame_formats =
     map Some [(8, 0, 1), (8, 0, 2), (8, 2, 1), (8, 2, 2), (8, 3, 1), (8, 3, 2),
               (7, 0, 1), (7, 0, 2), (7, 2, 1), (7, 2, 2), (7, 3, 1), (7, 3, 2)]"
  by (cases ursel) (simp_all add: frame_formats_def frame_value_def frame_bits_def frame_of_def)

section \<open>The options of a unit\<close>

definition unit_config :: "nat \<Rightarrow> macros \<Rightarrow> ptr \<Rightarrow> ptr \<Rightarrow> usart_config" where
  "unit_config k m tx rx =
     \<lparr>NO_ABI_BREAKING = defined m ''USART_NO_ABI_BREAKING_PREMATURES'',
      LF_TO_CRLF = defined m (named ''PUTC'' k ''_CONVERT_LF_TO_CRLF''),
      FAST_INSERTIONS = defined m (named ''USART'' k ''_PUTC_FAST_INSERTIONS''),
      SOFT_CTS = defined m (named ''USART'' k ''_USE_SOFT_CTS''),
      SOFT_RTS = defined m (named ''USART'' k ''_USE_SOFT_RTS''),
      RS485_MODE = defined m (named ''USART'' k ''_RS485_MODE''),
      U2X_SPEED = defined m (named ''USART'' k ''_U2X_SPEED''),
      MPCM_MODE = defined m (named ''USART'' k ''_MPCM_MODE''),
      EXTEND_RX = defined m (named ''USART'' k ''_EXTEND_RX_BUFFER''),
      GETC_ECHO = defined m (named ''RX'' k ''_GETC_ECHO''),
      GETCHAR_ECHO = defined m ''RX_STDIO_GETCHAR_ECHO'',
      NEWLINE_MODE = (if defined m ''RX_NEWLINE_MODE_R'' then NEWLINE_R
                      else if defined m ''RX_NEWLINE_MODE_N'' then NEWLINE_N else NEWLINE_RN),
      UPPERCASE_HEX = defined m ''USART_PUTHEX_IN_UPPERCASE'',
      NO_RX_INTERRUPT = defined m (named ''NO_RX'' k ''_INTERRUPT''),
      NO_TX_INTERRUPT = defined m (named ''NO_TX'' k ''_INTERRUPT''),
      TX_BUFFER_SIZE = macro_value m (named ''TX'' k ''_BUFFER_SIZE''),
      RX_BUFFER_SIZE = macro_value m (named ''RX'' k ''_BUFFER_SIZE''),
      CTS_IONUM = macro_value m (named ''CTS'' k ''_IONUM''),
      RTS_IONUM = macro_value m (named ''RTS'' k ''_IONUM''),
      RS485_IONUM = macro_value m (named ''RS485_CONTROL'' k ''_IONUM''),
      MPCM_ADDRESS = of_nat (macro_value m (named ''MPCM'' k ''_ADDRESS'')),
      MPCM_GCALL = (if defined m (named ''MPCM'' k ''_GCALL_ADDRESS'')
                    then Some (of_nat (macro_value m (named ''MPCM'' k ''_GCALL_ADDRESS''))) else None),
      TX_BUF_ADDR = tx, RX_BUF_ADDR = rx\<rparr>"

text \<open>What \<^verbatim>\<open>usart_config.h\<close> defines before the hooks for the interrupt routines; everything else is commented out.\<close>

definition mpcm_addresses :: macros where
  "mpcm_addresses = [(''MPCM0_ADDRESS'', ''0x01''), (''MPCM1_ADDRESS'', ''0x02''), (''MPCM2_ADDRESS'', ''0x03''), (''MPCM3_ADDRESS'', ''0x04'')]"

definition usart_config_h :: macros where
  "usart_config_h =
     [(''RX_STDIO_GETCHAR_ECHO'', ''''), (''RX_NEWLINE_MODE'', ''2''), (''USART_SREG_SAVE_REG_NAME'', ''G_sreg_save''),
      (''USART_SREG_SAVE_REG_NUM'', ''r4''), (''USART_Z_SAVE_REG_NAME'', ''G_z_save''), (''USART_Z_SAVE_REG_NUM'', ''r2'')]
     @ mpcm_addresses"

text \<open>
  The hooks: text that is pasted into the interrupt routines and the operands that it uses. As delivered every hook is a line break and
  a tab, and no operands are added, so the routines consist of the instructions of the library.
\<close>

definition event_hooks :: "nat \<Rightarrow> macros" where
  "event_hooks k =
     [(named ''TX'' k ''_EVERYCAL_EVENT'', [CHR 0x0A, CHR 0x09]), (named ''TX'' k ''_TRANSMIT_EVENT'', [CHR 0x0A, CHR 0x09]),
      (named ''TX'' k ''_INPUT_OPERAND_LIST'', ''''), (named ''RX'' k ''_FRAMING_EVENT'', [CHR 0x0A, CHR 0x09]),
      (named ''RX'' k ''_EVERYCALL_EVENT'', [CHR 0x0A, CHR 0x09]), (named ''RX'' k ''_EARLY_RECEIVE_EVENT'', [CHR 0x0A, CHR 0x09]),
      (named ''RX'' k ''_LATE_RECEIVE_EVENT'', [CHR 0x0A, CHR 0x09]), (named ''RX'' k ''_INPUT_OPERAND_LIST'', '''')]"

lemma hooks_add_no_instructions: "list_all (\<lambda>e. set (snd e) \<subseteq> {CHR 0x0A, CHR 0x09}) (event_hooks k)"
  by (simp add: event_hooks_def)

text \<open>The compiler for the ATmega328P defines the name of the processor and its architecture.\<close>

definition build_macros :: macros where
  "build_macros = usart_config_h @ [(''__AVR_ATmega328P__'', ''1''), (''__AVR_ARCH__'', ''5''), (''__OPTIMIZE__'', ''1'')]"

section \<open>The header for this build and for a remapped unit\<close>

definition remap_macros :: macros where
  "remap_macros = usart_config_h @ [(''USART_REMAP_LAST_INTERFACE'', ''''), (''__AVR_ATmega32U4__'', ''1''), (''__AVR_ARCH__'', ''5'')]"

definition default_options :: macros where
  "default_options =
     [(''RX_NEWLINE_MODE_RN'', ''''), (''RX3_BUFFER_SIZE'', ''RX_BUFFER_SIZE''), (''TX3_BUFFER_SIZE'', ''TX_BUFFER_SIZE''),
      (''RX2_BUFFER_SIZE'', ''RX_BUFFER_SIZE''), (''TX2_BUFFER_SIZE'', ''TX_BUFFER_SIZE''), (''RX1_BUFFER_SIZE'', ''RX_BUFFER_SIZE''),
      (''TX1_BUFFER_SIZE'', ''TX_BUFFER_SIZE''), (''RX0_BUFFER_SIZE'', ''RX_BUFFER_SIZE''), (''TX0_BUFFER_SIZE'', ''TX_BUFFER_SIZE''),
      (''TX_BUFFER_SIZE'', ''32''), (''RX_BUFFER_SIZE'', ''32'')]"

definition only_unit_0 :: macros where
  "only_unit_0 =
     [(''NO_RX3_INTERRUPT'', ''''), (''NO_TX3_INTERRUPT'', ''''), (''NO_RX2_INTERRUPT'', ''''), (''NO_TX2_INTERRUPT'', ''''),
      (''NO_RX1_INTERRUPT'', ''''), (''NO_TX1_INTERRUPT'', '''')]"

lemma build_options: "newline_option (rts_options (flow_options (global_options (buffer_sizes (abi_options build_macros))))) = default_options @ build_macros"
  by code_simp

lemma remap_options: "newline_option (rts_options (flow_options (global_options (buffer_sizes (abi_options remap_macros))))) = default_options @ remap_macros"
  by code_simp

lemma build_part: "select_part (default_options @ build_macros) = macros_ATmega48_0 @ (''USE_USART0'', '''') # default_options @ build_macros"
  by code_simp

lemma build_units: "unit_options (remap (macros_ATmega48_0 @ (''USE_USART0'', '''') # default_options @ build_macros))
    = only_unit_0 @ macros_ATmega48_0 @ (''USE_USART0'', '''') # default_options @ build_macros"
  by code_simp

lemmas build_header = usart_h_def [of build_macros, unfolded build_options build_part build_units]

lemma build_unit: "unit_config 0 (usart_h build_macros) tx rx = build_config tx rx"
  unfolding build_header by code_simp

lemma build_names:
  "filter (\<lambda>k. defined (usart_h build_macros) (USE_USART k)) [0, 1, 2, 3] = [0]"
  "list_all2 (reaches (usart_h build_macros) 1) (unit_macros 0)
     [''USART_RX_vect'', ''USART_TX_vect'', ''USART_UDRE_vect'', ''UDR0'', ''UBRR0L'', ''UBRR0H'', ''UCSR0A'', ''UCSR0B'', ''UCSR0C'',
      ''TXCIE0'', ''UDRIE0'', ''RXCIE0'', ''TXEN0'', ''RXEN0'', ''UDRE0'', ''RXC0'', ''U2X0'', ''MPCM0'', ''UCSZ02'', ''TXB80'']"
  unfolding build_header by code_simp+

lemma remap_part: "select_part (default_options @ remap_macros)
    = macros_ATmega8U2_1 @ (''USE_USART1'', '''') # (''USART1_HARDWARE_FLOW_CONTROL_AVAILABLE'', '''') # default_options @ remap_macros"
  by code_simp

lemma remap_units: "unit_options (remap (macros_ATmega8U2_1 @ (''USE_USART1'', '''') # (''USART1_HARDWARE_FLOW_CONTROL_AVAILABLE'', '''')
      # default_options @ remap_macros))
    = only_unit_0 @ remap_1 @ remap_flow_control @ (''USE_USART0'', '''') # macros_ATmega8U2_1
      @ (''USART1_HARDWARE_FLOW_CONTROL_AVAILABLE'', '''') # default_options @ remap_macros"
  by code_simp

lemmas remap_header = usart_h_def [of remap_macros, unfolded remap_options remap_part remap_units]

lemma remap_names:
  "filter (\<lambda>k. defined (usart_h remap_macros) (USE_USART k)) [0, 1, 2, 3] = [0]"
  "list_all2 (reaches (usart_h remap_macros) 2) (unit_macros 0)
     [''USART1_RX_vect'', ''USART1_TX_vect'', ''USART1_UDRE_vect'', ''UDR1'', ''UBRR1L'', ''UBRR1H'', ''UCSR1A'', ''UCSR1B'', ''UCSR1C'',
      ''TXCIE1'', ''UDRIE1'', ''RXCIE1'', ''TXEN1'', ''RXEN1'', ''UDRE1'', ''RXC1'', ''U2X1'', ''MPCM1'', ''UCSZ12'', ''TXB81'']"
  unfolding remap_header by code_simp+


section \<open>Consistency of the options\<close>

text \<open>What the passages define, and that none of them enables a unit.\<close>

lemma defined_default [simp]: "defined (default_macro e m) x \<longleftrightarrow> fst e = x \<or> defined m x"
  by (auto simp: default_macro_def)

lemma defined_for_all_units [simp]:
  "defined (for_all_units (y, pre, post) m) x \<longleftrightarrow>
     defined m x \<or> defined m y \<and> (x = named pre 0 post \<or> x = named pre 1 post \<or> x = named pre 2 post \<or> x = named pre 3 post)"
  by (auto simp: for_all_units_def)

lemmas spelled = USE_USART_def named_def

text \<open>The passages before the table enable no unit.\<close>

lemma options_enable_no_unit:
  "defined (abi_options m) (USE_USART k) \<longleftrightarrow> defined m (USE_USART k)"
  "defined (buffer_sizes m) (USE_USART k) \<longleftrightarrow> defined m (USE_USART k)"
  "defined (global_options m) (USE_USART k) \<longleftrightarrow> defined m (USE_USART k)"
  "defined (newline_option m) (USE_USART k) \<longleftrightarrow> defined m (USE_USART k)"
  by (simp_all add: abi_options_def buffer_sizes_def global_options_def newline_option_def spelled Let_def)

lemma pin_option_use [simp]: "defined (pin_option pin post j m) (USE_USART k) \<longleftrightarrow> defined m (USE_USART k)"
  by (simp add: pin_option_def spelled)

lemma extend_use [simp]: "defined (extend_for_rts j m) (USE_USART k) \<longleftrightarrow> defined m (USE_USART k)"
  by (simp add: extend_for_rts_def spelled)

lemma flow_options_use: "defined (flow_options m) (USE_USART k) \<longleftrightarrow> defined m (USE_USART k)"
  "defined (rts_options m) (USE_USART k) \<longleftrightarrow> defined m (USE_USART k)"
  by (simp_all add: flow_options_def rts_options_def)

text \<open>Request-to-send extends the receive buffer.\<close>

lemma extend_for_rts_simps:
  "defined (extend_for_rts j m) (named ''USART'' k ''_USE_SOFT_RTS'') \<longleftrightarrow> defined m (named ''USART'' k ''_USE_SOFT_RTS'')"
  "defined m x \<Longrightarrow> defined (extend_for_rts j m) x"
  "defined m (named ''USART'' k ''_USE_SOFT_RTS'') \<Longrightarrow> defined (extend_for_rts k m) (named ''USART'' k ''_EXTEND_RX_BUFFER'')"
  by (simp_all add: extend_for_rts_def named_def)

lemma rts_options_extend:
  assumes "k < 4" "defined (rts_options m) (named ''USART'' k ''_USE_SOFT_RTS'')"
  shows "defined (rts_options m) (named ''USART'' k ''_EXTEND_RX_BUFFER'')"
proof -
  have "\<forall>k<4. defined (rts_options m) (named ''USART'' k ''_USE_SOFT_RTS'')
      \<longrightarrow> defined (rts_options m) (named ''USART'' k ''_EXTEND_RX_BUFFER'')"
    unfolding all_less_4 rts_options_def by (simp add: extend_for_rts_simps)
  then show ?thesis using assms by simp
qed

text \<open>The passage behind the table.\<close>

lemma unused_unit_simps [simp]:
  "defined (unused_unit j m) (USE_USART k) \<longleftrightarrow> defined m (USE_USART k)"
  "defined m x \<Longrightarrow> defined (unused_unit j m) x"
  "defined (unused_unit j m) (named ''USART'' k post) \<longleftrightarrow> defined m (named ''USART'' k post)"
  by (simp_all add: unused_unit_def spelled)

lemma single_unit_simps [simp]:
  "defined (single_unit m) (USE_USART k) \<longleftrightarrow> defined m (USE_USART k)"
  "defined m x \<Longrightarrow> defined (single_unit m) x"
  "defined (single_unit m) (named ''USART'' k post) \<longleftrightarrow> defined m (named ''USART'' k post)"
  by (simp_all add: single_unit_def spelled Let_def)

lemma txc_option_simps [simp]:
  "defined (txc_option j m) (USE_USART k) \<longleftrightarrow> defined m (USE_USART k)"
  "defined m x \<Longrightarrow> defined (txc_option j m) x"
  "defined (txc_option j m) (named ''USART'' k ''_USE_SOFT_RTS'') \<longleftrightarrow> defined m (named ''USART'' k ''_USE_SOFT_RTS'')"
  "defined (txc_option j m) (named ''USART'' k ''_RS485_MODE'') \<longleftrightarrow> defined m (named ''USART'' k ''_RS485_MODE'')"
  "defined (txc_option j m) (named ''NO_TX'' k post) \<longleftrightarrow> defined m (named ''NO_TX'' k post)"
  by (simp_all add: txc_option_def spelled)

lemma unit_options_simps [simp]:
  "defined (unit_options m) (USE_USART k) \<longleftrightarrow> defined m (USE_USART k)"
  "defined m x \<Longrightarrow> defined (unit_options m) x"
  "defined (unit_options m) (named ''USART'' k ''_USE_SOFT_RTS'') \<longleftrightarrow> defined m (named ''USART'' k ''_USE_SOFT_RTS'')"
  by (simp_all add: unit_options_def)

lemma unit_options_unused:
  assumes "k < 4" "\<not> defined m (USE_USART k)"
  shows "defined (unit_options m) (named ''NO_TX'' k ''_INTERRUPT'')" "defined (unit_options m) (named ''NO_RX'' k ''_INTERRUPT'')"
proof -
  have unused: "\<not> defined m (USE_USART k) \<Longrightarrow> defined (unused_unit k m) (named ''NO_TX'' k ''_INTERRUPT'')"
    "\<not> defined m (USE_USART k) \<Longrightarrow> defined (unused_unit k m) (named ''NO_RX'' k ''_INTERRUPT'')" for k m
    by (simp_all add: unused_unit_def)
  have "\<forall>k<4. \<not> defined m (USE_USART k) \<longrightarrow>
      defined (unit_options m) (named ''NO_TX'' k ''_INTERRUPT'') \<and> defined (unit_options m) (named ''NO_RX'' k ''_INTERRUPT'')"
    unfolding all_less_4 unit_options_def by (simp add: unused)
  then show "defined (unit_options m) (named ''NO_TX'' k ''_INTERRUPT'')" "defined (unit_options m) (named ''NO_RX'' k ''_INTERRUPT'')"
    using assms by simp_all
qed

lemma unit_options_txc:
  assumes "k < 4" "defined (unit_options m) (named ''USART'' k ''_RS485_MODE'')"
    and "\<not> defined (unit_options m) (named ''NO_TX'' k ''_INTERRUPT'')"
  shows "defined (unit_options m) (named ''USART'' k ''_USE_TXC_INTERRUPT'')"
proof -
  have txc: "defined m (named ''USART'' k ''_RS485_MODE'') \<Longrightarrow> \<not> defined m (named ''NO_TX'' k ''_INTERRUPT'')
      \<Longrightarrow> defined (txc_option k m) (named ''USART'' k ''_USE_TXC_INTERRUPT'')" for k m by (simp add: txc_option_def)
  have "\<forall>k<4. defined (unit_options m) (named ''USART'' k ''_RS485_MODE'') \<and> \<not> defined (unit_options m) (named ''NO_TX'' k ''_INTERRUPT'')
      \<longrightarrow> defined (unit_options m) (named ''USART'' k ''_USE_TXC_INTERRUPT'')"
    unfolding all_less_4 unit_options_def by (simp add: txc)
  then show ?thesis using assms by simp
qed

lemma soft_rts_reserved:
  assumes "k < 4"
  shows "named ''USART'' k ''_USE_SOFT_RTS'' \<in> set reserved"
proof -
  have "\<forall>k<4. named ''USART'' k ''_USE_SOFT_RTS'' \<in> set reserved" unfolding all_less_4 by (simp add: reserved_def)
  then show ?thesis using assms by simp
qed

text \<open>
  C33: Whatever the configuration file defines, the options that the header derives are consistent: a unit that it enables has the names of
  all its interrupts, registers and bits, also after remapping; a unit that it does not enable has no interrupts; request-to-send
  comes with the extended receive buffer; and RS485 with the interrupt at the end of a transmission, unless the unit
  does not transmit.
\<close>

theorem header_consistent:
  assumes "\<forall>j<4. \<not> defined m (USE_USART j)" "k < 4"
  shows "(if defined (usart_h m) (USE_USART k) then list_all (defined (usart_h m)) (unit_macros k)
      else NO_TX_INTERRUPT (unit_config k (usart_h m) tx rx) \<and> NO_RX_INTERRUPT (unit_config k (usart_h m) tx rx))
    \<and> (SOFT_RTS (unit_config k (usart_h m) tx rx) \<longrightarrow> EXTEND_RX (unit_config k (usart_h m) tx rx))
    \<and> (RS485_MODE (unit_config k (usart_h m) tx rx) \<and> \<not> NO_TX_INTERRUPT (unit_config k (usart_h m) tx rx)
        \<longrightarrow> defined (usart_h m) (named ''USART'' k ''_USE_TXC_INTERRUPT''))"
proof -
  let ?r = "rts_options (flow_options (global_options (buffer_sizes (abi_options m))))"
  let ?t = "remap (select_part (newline_option ?r))"
  have h: "usart_h m = unit_options ?t" by (simp add: usart_h_def)
  have "complete (newline_option ?r)" using assms(1) by (simp add: units_complete_iff options_enable_no_unit flow_options_use)
  then have "complete ?t" by (intro remap_complete select_part_complete)
  then have "defined ?t (USE_USART k) \<Longrightarrow> list_all (defined ?t) (unit_macros k)"
    using assms(2) by (simp add: units_complete_iff list_all_iff)
  then have units: "defined (usart_h m) (USE_USART k) \<Longrightarrow> list_all (defined (usart_h m)) (unit_macros k)"
    unfolding h by (auto simp: list_all_iff)
  have not_use: "\<forall>j<4. named ''USART'' k post \<noteq> USE_USART j" for post by (simp add: spelled)
  note reserved = soft_rts_reserved [OF assms(2)] not_use
  have "defined (usart_h m) (named ''USART'' k ''_EXTEND_RX_BUFFER'')" if "defined (usart_h m) (named ''USART'' k ''_USE_SOFT_RTS'')"
  proof -
    have "defined (newline_option ?r) (named ''USART'' k ''_USE_SOFT_RTS'')"
      using that by (simp add: h remap_reserved [OF reserved] select_part_reserved [OF reserved])
    then have "defined ?r (named ''USART'' k ''_USE_SOFT_RTS'')" by (simp add: newline_option_def named_def split: if_splits)
    then have "defined (newline_option ?r) (named ''USART'' k ''_EXTEND_RX_BUFFER'')"
      using rts_options_extend [OF assms(2)] by (simp add: newline_option_def)
    then show ?thesis unfolding h by (intro unit_options_simps(2) remap_mono select_part_mono not_use)
  qed
  then show ?thesis
    using units unit_options_unused [OF assms(2), of ?t] unit_options_txc [OF assms(2), of ?t] by (simp add: unit_config_def h)
qed

lemma header_consistent_witness:
  "list_all (defined (usart_h build_macros)) (unit_macros 0) \<and> NO_TX_INTERRUPT (unit_config 1 (usart_h build_macros) 0 0)"
proof -
  have m: "\<forall>j<4. \<not> defined build_macros (USE_USART j)"
    unfolding all_less_4 by (simp add: build_macros_def usart_config_h_def mpcm_addresses_def spelled unit_digit_def)
  have "defined (usart_h build_macros) (USE_USART 0)" "\<not> defined (usart_h build_macros) (USE_USART 1)"
    using build_names(1) by (simp_all split: if_splits)
  then show ?thesis using header_consistent [OF m, of 0 0 0] header_consistent [OF m, of 1 0 0] by simp
qed

end
