(* ===== verification/Usart_Streams.thy ===== *)
theory Usart_Streams
  imports Serial_Client Usart_Options
begin

text \<open>
  The \<open>FILE\<close> objects that \<^verbatim>\<open>lib/AVR-UART-LIB/usart.c\<close> defines for the units, writing through them, and the setup of hardware flow
  control that some processors have. A byte written to a stream comes out of the unit that the stream is named after.
\<close>

section \<open>Streams\<close>

datatype stream_flags = FDEV_SETUP_READ | FDEV_SETUP_WRITE | FDEV_SETUP_RW

text \<open>Whether the functions are set; a stream has \<open>uart_putchar\<close>, \<open>uart_getchar\<close> or the null pointer.\<close>

record FILE =
  file_put :: bool
  file_get :: bool
  file_flags :: stream_flags
  file_udata :: u16

text \<open>\<open>FDEV_SETUP_STREAM_U\<close>; the macro of the C library for a single unit sets \<open>udata\<close> to zero.\<close>

definition unit_streams :: "macros \<Rightarrow> nat \<Rightarrow> (string \<times> FILE) list" where
  "unit_streams m k =
     (let stream_in = (named ''uart'' k ''_in'', \<lparr>file_put = False, file_get = True, file_flags = FDEV_SETUP_READ, file_udata = of_nat k\<rparr>);
          stream_out = (named ''uart'' k ''_out'', \<lparr>file_put = True, file_get = False, file_flags = FDEV_SETUP_WRITE, file_udata = of_nat k\<rparr>);
          stream_io = (named ''uart'' k ''_io'', \<lparr>file_put = True, file_get = True, file_flags = FDEV_SETUP_RW, file_udata = of_nat k\<rparr>)
      in if defined m (named ''NO_RX'' k ''_INTERRUPT'') then [stream_out]
         else if defined m (named ''NO_TX'' k ''_INTERRUPT'') then [stream_in]
         else [stream_io, stream_in, stream_out])"

definition several_units :: "macros \<Rightarrow> bool" where
  "several_units m \<longleftrightarrow> list_ex (\<lambda>k. defined m (USE_USART k)) [1, 2, 3]"

definition stream_files :: "macros \<Rightarrow> (string \<times> FILE) list" where
  "stream_files m =
     (if several_units m then concat (map (\<lambda>k. if defined m (USE_USART k) then unit_streams m k else []) [0, 1, 2, 3])
      else unit_streams m 0)"

text \<open>\<open>uart_putchar\<close> as the build selects it, and \<open>fputc\<close> of the C library; the result is whether the byte was written.\<close>

definition stream_putchar ::
  "macros \<Rightarrow> (nat \<Rightarrow> usart_config) \<Rightarrow> 'z env \<Rightarrow> FILE \<Rightarrow> u8 \<Rightarrow> 'z board_scheme \<Rightarrow> 'z board_scheme outcome" where
  "stream_putchar m cs env stream data =
     (if several_units m then uart_putchar_multi cs env (file_udata stream) data else uart_putchar (uart0_putc (cs 0) env) data)"

definition fputc ::
  "macros \<Rightarrow> (nat \<Rightarrow> usart_config) \<Rightarrow> 'z env \<Rightarrow> u8 \<Rightarrow> FILE \<Rightarrow> 'z board_scheme \<Rightarrow> (bool \<times> 'z board_scheme) outcome" where
  "fputc m cs env data stream s =
     (if file_flags stream = FDEV_SETUP_READ then ret (False, s)
      else obind (stream_putchar m cs env stream data s) (\<lambda>s. ret (True, s)))"

section \<open>Hardware flow control\<close>

record flow_board = board +
  UCSRD :: "nat \<Rightarrow> u8"

text \<open>The positions of the two bits are those of the processor.\<close>

definition uart_hardware_flow_control_init ::
  "nat \<Rightarrow> nat \<Rightarrow> nat \<Rightarrow> bool \<Rightarrow> bool \<Rightarrow> 'z flow_board_scheme \<Rightarrow> 'z flow_board_scheme" where
  "uart_hardware_flow_control_init CTSEN_BIT RTSEN_BIT n ctsenable rtsenable s =
     (if ctsenable \<and> rtsenable then s\<lparr>UCSRD := (UCSRD s)(n := bv CTSEN_BIT OR bv RTSEN_BIT)\<rparr>
      else if ctsenable then s\<lparr>UCSRD := (UCSRD s)(n := bv CTSEN_BIT)\<rparr>
      else s\<lparr>UCSRD := (UCSRD s)(n := bv RTSEN_BIT)\<rparr>)"

definition uart0_hardware_flow_control_init ::
  "nat \<Rightarrow> nat \<Rightarrow> bool \<Rightarrow> bool \<Rightarrow> 'z flow_board_scheme \<Rightarrow> 'z flow_board_scheme" where
  "uart0_hardware_flow_control_init CTSEN_BIT RTSEN_BIT = uart_hardware_flow_control_init CTSEN_BIT RTSEN_BIT 0"

definition uart1_hardware_flow_control_init ::
  "nat \<Rightarrow> nat \<Rightarrow> bool \<Rightarrow> bool \<Rightarrow> 'z flow_board_scheme \<Rightarrow> 'z flow_board_scheme" where
  "uart1_hardware_flow_control_init CTSEN_BIT RTSEN_BIT = uart_hardware_flow_control_init CTSEN_BIT RTSEN_BIT 1"

text \<open>
  Clear-to-send is enabled as asked. Request-to-send is enabled also if neither line is asked for, so hardware
  flow control cannot be switched off with this function.
\<close>

lemma hardware_flow_control_bits:
  assumes "CTSEN < 8" "RTSEN < 8" "CTSEN \<noteq> RTSEN"
  shows "bit (UCSRD (uart_hardware_flow_control_init CTSEN RTSEN n cts rts s) n) CTSEN \<longleftrightarrow> cts"
    "bit (UCSRD (uart_hardware_flow_control_init CTSEN RTSEN n cts rts s) n) RTSEN \<longleftrightarrow> rts \<or> \<not> cts"
  using assms by (auto simp: uart_hardware_flow_control_init_def bit_simps)

section \<open>A stream is its unit\<close>

lemma switch_unit_present: "k < 4 \<Longrightarrow> present k \<Longrightarrow> switch_unit present (of_nat k) = Some k"
proof -
  assume k: "k < 4" "present k"
  then have "unat (of_nat k :: u16) = k" by (simp add: unat_of_nat)
  moreover have "(of_nat k :: u16) < 4" using k(1) by (simp add: word_less_nat_alt unat_of_nat)
  ultimately show ?thesis using k(2) by (simp add: switch_unit_def)
qed

context served_line
begin

lemma putchar_prints: "prints c n keep (uart_putchar (uart_putc c (TX_BUFFER_MASK c) env n) b) (if b = 10 then [13, 10] else [b])"
proof (cases "b = 10")
  case True
  then show ?thesis using prints_seq [OF putc_prints putc_prints, of 13 10] by (simp add: prints_def uart_putchar_def)
next
  case False
  then show ?thesis using putc_prints [of b] by (simp add: prints_def uart_putchar_def)
qed

end

lemma fputc_prints:
  assumes k: "k < 4" "(x, f) \<in> set (unit_streams m k)" "file_flags f \<noteq> FDEV_SETUP_READ"
    and unit: "several_units m \<or> k = 0" "\<not> NO_TX_INTERRUPT (cs k)" "\<not> FAST_INSERTIONS (cs k)"
    and line: "served_line (cs k) k env keep"
  shows "yields (cs k) k keep (fputc m cs env b f) True (if b = 10 then [13, 10] else [b])"
proof -
  have udata: "file_udata f = of_nat k" using k(2) by (auto simp: unit_streams_def Let_def split: if_splits)
  have "switch_unit (\<lambda>k. \<not> NO_TX_INTERRUPT (cs k)) (of_nat k) = Some k" using switch_unit_present k(1) unit(2) by simp
  moreover have "k = 0 \<or> k = 1 \<or> k = 2 \<or> k = 3" using k(1) by linarith
  ultimately have "uart_putchar_multi cs env (of_nat k) b s = uart_putchar (uart_putc (cs k) (TX_BUFFER_MASK (cs k)) env k) b s" for s
    unfolding uart_putchar_multi_def using unit(3) by (auto simp: uart0_putc_def uart1_putc_def uart2_putc_def uart3_putc_def)
  then have "stream_putchar m cs env f b = uart_putchar (uart_putc (cs k) (TX_BUFFER_MASK (cs k)) env k) b"
    using unit(1) by (intro ext) (auto simp: stream_putchar_def udata uart0_putc_def)
  then have "fputc m cs env b f = (\<lambda>s. obind (uart_putchar (uart_putc (cs k) (TX_BUFFER_MASK (cs k)) env k) b s) (\<lambda>s. ret (True, s)))"
    using k(3) by (intro ext) (simp add: fputc_def)
  then show ?thesis
    using prints_yields [OF served_line.putchar_prints [OF line] yields_ret, of b True] by simp
qed

end
