(* ===== verification/Singly_Linked_List.thy ===== *)
theory Singly_Linked_List
  imports Prelude
begin

text \<open>
  The singly linked list template \<^verbatim>\<open>lib/singly_linked_list/singly_linked_list.h\<close>. Nodes live in a store; a null
  or dangling pointer that is dereferenced is a fault, and a search that never ends is \<^term>\<open>None\<close>.
  The loops of the source test their conditions the wrong way round, and the properties say what the operations do
  in consequence: they are right for lists of at most two nodes and for nothing longer.
\<close>

section \<open>Structure and operations\<close>

record node =
  data :: ptr
  next_node :: ptr

record sl_list =
  head_ptr :: ptr
  nodes :: "ptr \<rightharpoonup> node"

definition node_at :: "sl_list \<Rightarrow> ptr \<Rightarrow> node outcome" where
  "node_at l p = (case nodes l p of None \<Rightarrow> fail Null_deref | Some x \<Rightarrow> ret x)"

definition sl_next :: "sl_list \<Rightarrow> ptr \<Rightarrow> ptr outcome" where
  "sl_next l current_pos =
     (if current_pos = nullptr then ret current_pos
      else obind (node_at l current_pos) (\<lambda>x. ret (next_node x)))"

partial_function (option) find_loop :: "sl_list \<Rightarrow> ptr \<Rightarrow> ptr \<Rightarrow> ptr outcome" where
  "find_loop l node seek_node =
     (if seek_node = nullptr
      then (if seek_node = node then Some (Inr seek_node)
            else case sl_next l seek_node of
                   None \<Rightarrow> None
                 | Some (Inl e) \<Rightarrow> Some (Inl e)
                 | Some (Inr p) \<Rightarrow> find_loop l node p)
      else Some (Inr seek_node))"

definition sl_find :: "sl_list \<Rightarrow> ptr \<Rightarrow> ptr outcome" where
  "sl_find l node =
     (let seek_node = head_ptr l in
      if seek_node = node then ret (head_ptr l) else find_loop l node seek_node)"

definition clean_next_ptr :: "ptr \<Rightarrow> sl_list \<Rightarrow> sl_list outcome" where
  "clean_next_ptr node l =
     obind (node_at l node) (\<lambda>x. ret (l\<lparr>nodes := (nodes l)(node \<mapsto> x\<lparr>next_node := nullptr\<rparr>)\<rparr>))"

partial_function (option) preceding_loop :: "sl_list \<Rightarrow> ptr \<Rightarrow> ptr \<Rightarrow> ptr outcome" where
  "preceding_loop l target_node seek_head =
     (if seek_head = target_node \<or> seek_head = nullptr
      then (case node_at l seek_head of
              None \<Rightarrow> None
            | Some (Inl e) \<Rightarrow> Some (Inl e)
            | Some (Inr x) \<Rightarrow> preceding_loop l target_node (next_node x))
      else Some (Inr seek_head))"

definition find_preceding_node :: "sl_list \<Rightarrow> ptr \<Rightarrow> ptr outcome" where
  "find_preceding_node l target_node =
     (let seek_head = head_ptr l in
      if seek_head = nullptr then ret nullptr else preceding_loop l target_node seek_head)"

definition sl_head :: "sl_list \<Rightarrow> ptr" where
  "sl_head l = head_ptr l"

definition sl_tail :: "sl_list \<Rightarrow> ptr outcome" where
  "sl_tail l = sl_find l nullptr"

definition set_next :: "ptr \<Rightarrow> ptr \<Rightarrow> sl_list \<Rightarrow> sl_list outcome" where
  "set_next p q l = obind (node_at l p) (\<lambda>x. ret (l\<lparr>nodes := (nodes l)(p \<mapsto> x\<lparr>next_node := q\<rparr>)\<rparr>))"

definition sl_append :: "ptr \<Rightarrow> sl_list \<Rightarrow> sl_list outcome" where
  "sl_append new_node l =
     (if head_ptr l = nullptr then ret (l\<lparr>head_ptr := new_node\<rparr>)
      else obind (sl_tail l) (\<lambda>p. set_next p new_node l))"

text \<open>The first result is the return value: \<^term>\<open>True\<close> means that nothing was removed.\<close>

definition sl_remove :: "ptr \<Rightarrow> sl_list \<Rightarrow> (bool \<times> sl_list) outcome" where
  "sl_remove node l =
     (if node = head_ptr l then ret (True, l\<lparr>head_ptr := nullptr\<rparr>)
      else
        obind (find_preceding_node l node) (\<lambda>preceding_node.
        if preceding_node = nullptr then ret (True, l)
        else
          obind (node_at l preceding_node) (\<lambda>x.
          obind (sl_next l (next_node x)) (\<lambda>q.
          obind (set_next preceding_node q l) (\<lambda>l.
          obind (clean_next_ptr node l) (\<lambda>l. ret (False, l)))))))"

section \<open>Lists in the store\<close>

fun linked :: "(ptr \<rightharpoonup> node) \<Rightarrow> ptr \<Rightarrow> ptr list \<Rightarrow> bool" where
  "linked m p [] \<longleftrightarrow> p = nullptr"
| "linked m p (x # xs) \<longleftrightarrow> p = x \<and> x \<noteq> nullptr \<and> (\<exists>n. m x = Some n \<and> linked m (next_node n) xs)"

definition holds :: "sl_list \<Rightarrow> ptr list \<Rightarrow> bool" where
  "holds l xs \<longleftrightarrow> linked (nodes l) (head_ptr l) xs \<and> distinct xs"

lemma linked_upd: "a \<notin> set xs \<Longrightarrow> linked (m(a := v)) p xs = linked m p xs"
  by (induction xs arbitrary: p) auto

lemma find_head: "head_ptr l \<noteq> nullptr \<Longrightarrow> sl_find l p = ret (head_ptr l)"
  by (simp add: sl_find_def Let_def find_loop.simps ret_def)

lemma preceding_head:
  "head_ptr l \<noteq> nullptr \<Longrightarrow> head_ptr l \<noteq> p \<Longrightarrow> find_preceding_node l p = ret (head_ptr l)"
  by (simp add: find_preceding_node_def Let_def preceding_loop.simps ret_def)

definition three_nodes :: sl_list where
  "three_nodes = \<lparr>head_ptr = 0x100, nodes = [0x100 \<mapsto> \<lparr>data = 0, next_node = 0x200\<rparr>, 0x200 \<mapsto> \<lparr>data = 0, next_node = 0x300\<rparr>,
     0x300 \<mapsto> \<lparr>data = 0, next_node = nullptr\<rparr>, 0x400 \<mapsto> \<lparr>data = 0, next_node = nullptr\<rparr>]\<rparr>"

lemma holds_three_nodes: "holds three_nodes [0x100, 0x200, 0x300]"
  by (simp add: holds_def three_nodes_def)

section \<open>Properties\<close>

text \<open>
  \<open>find\<close> does not search. On a non-empty list it returns the head, whatever it is asked for;
  on an empty list it finds the null pointer and for any other node never returns.
\<close>

lemma find_returns_head:
  "sl_find l p = (if head_ptr l \<noteq> nullptr then ret (head_ptr l) else if p = nullptr then ret nullptr else None)"
proof -
  have loop: "find_loop l p nullptr = None" if "p \<noteq> nullptr"
  proof -
    have "False" if "find_loop l p nullptr = Some y" for y
    proof -
      have "(\<lambda>((l, q), s) y. q \<noteq> nullptr \<longrightarrow> s \<noteq> nullptr) ((l, p), nullptr) y"
        by (rule find_loop.raw_induct [OF _ that]) (auto simp: sl_next_def ret_def split: if_splits)
      then show False using \<open>p \<noteq> nullptr\<close> by simp
    qed
    then show ?thesis by (cases "find_loop l p nullptr") auto
  qed
  then show ?thesis using find_head [of l p] by (auto simp: sl_find_def Let_def)
qed

lemma append_effect:
  assumes "holds l xs" "nodes l a = Some n" "next_node n = nullptr" "a \<noteq> nullptr" "a \<notin> set xs"
  shows "\<exists>l'. sl_append a l = ret l' \<and> holds l' (take 1 xs @ [a])"
proof (cases xs)
  case Nil
  then show ?thesis using assms by (auto simp: sl_append_def holds_def)
next
  case (Cons x ys)
  then obtain m where x: "head_ptr l = x" "x \<noteq> nullptr" "nodes l x = Some m" using assms(1) by (auto simp: holds_def)
  have "sl_append a l = ret (l\<lparr>nodes := (nodes l)(x \<mapsto> m\<lparr>next_node := a\<rparr>)\<rparr>)"
    using x by (simp add: sl_append_def sl_tail_def find_head set_next_def node_at_def)
  then show ?thesis using x Cons assms by (auto simp: holds_def)
qed

lemma remove_effect:
  assumes "holds l (x # xs)" "p \<in> set (x # xs)"
  shows "if p = x then sl_remove p l = ret (True, l\<lparr>head_ptr := nullptr\<rparr>)
    else \<exists>l'. sl_remove p l = ret (False, l') \<and> (p = hd xs \<longrightarrow> holds l' (x # tl xs))
      \<and> (\<exists>m. nodes l' x = Some m \<and> next_node m = (case tl xs of [] \<Rightarrow> nullptr | q # _ \<Rightarrow> q))"
proof (cases "p = x")
  case True
  then show ?thesis using assms by (simp add: sl_remove_def holds_def)
next
  case False
  then obtain y ys where xs: "xs = y # ys" using assms(2) by (cases xs) auto
  then obtain m n where st: "head_ptr l = x" "x \<noteq> nullptr" "nodes l x = Some m" "next_node m = y" "y \<noteq> nullptr"
    "nodes l y = Some n" "linked (nodes l) (next_node n) ys" and d: "distinct (x # y # ys)"
    using assms(1) by (auto simp: holds_def)
  obtain k where k: "nodes l p = Some k"
  proof -
    have "linked mm q zs \<Longrightarrow> p \<in> set zs \<Longrightarrow> mm p \<noteq> None" for mm q zs by (induction zs arbitrary: q) auto
    then show ?thesis using assms that by (fastforce simp: holds_def)
  qed
  let ?l = "l\<lparr>nodes := (nodes l)(x \<mapsto> m\<lparr>next_node := next_node n\<rparr>, p \<mapsto> k\<lparr>next_node := nullptr\<rparr>)\<rparr>"
  have r: "sl_remove p l = ret (False, ?l)"
    using st False k
    by (simp add: sl_remove_def preceding_head node_at_def sl_next_def set_next_def clean_next_ptr_def)
  have "holds ?l (x # ys)" if "p = y"
    using st d False that by (auto simp: holds_def linked_upd)
  moreover have "next_node n = (case ys of [] \<Rightarrow> nullptr | q # _ \<Rightarrow> q)" using st(7) by (cases ys) auto
  ultimately show ?thesis using r False xs by auto
qed

text \<open>
  C40: \<open>append\<close> puts the new node at the end of a list of at most one node; of a longer list it drops every node
  behind the head. \<open>remove\<close> takes the second node out of the list whichever node behind the head it is given; only if it is given
  the second node is that the removal of the node. Given the head it empties the list and reports failure.
\<close>

theorem list_operations_effect:
  assumes "holds l xs"
  shows "(nodes l a = Some n \<and> next_node n = nullptr \<and> a \<noteq> nullptr \<and> a \<notin> set xs \<longrightarrow>
        (\<exists>l'. sl_append a l = ret l' \<and> holds l' (take 1 xs @ [a])))
    \<and> (p \<in> set xs \<longrightarrow>
        (if p = hd xs then sl_remove p l = ret (True, l\<lparr>head_ptr := nullptr\<rparr>)
         else \<exists>l'. sl_remove p l = ret (False, l') \<and> (p = hd (tl xs) \<longrightarrow> holds l' (hd xs # tl (tl xs)))
           \<and> (\<exists>m. nodes l' (hd xs) = Some m \<and> next_node m = (case tl (tl xs) of [] \<Rightarrow> nullptr | q # _ \<Rightarrow> q))))"
proof (cases xs)
  case Nil
  then show ?thesis using append_effect [OF assms, of a n] by simp
next
  case (Cons x ys)
  then show ?thesis using append_effect [OF assms, of a n] remove_effect [of l x ys p] assms by auto
qed

lemma list_operations_effect_witness:
  "(\<exists>l'. sl_append 0x400 three_nodes = ret l' \<and> holds l' [0x100, 0x400])
   \<and> (\<exists>l'. sl_remove 0x200 three_nodes = ret (False, l') \<and> holds l' [0x100, 0x300])
   \<and> (\<exists>l' m. sl_remove 0x300 three_nodes = ret (False, l') \<and> nodes l' 0x100 = Some m \<and> next_node m = 0x300)
   \<and> sl_remove 0x100 three_nodes = ret (True, three_nodes\<lparr>head_ptr := nullptr\<rparr>)"
proof -
  note effect = list_operations_effect [OF holds_three_nodes, of "0x400" "\<lparr>data = 0, next_node = nullptr\<rparr>"]
  have "nodes three_nodes 0x400 = Some \<lparr>data = 0, next_node = nullptr\<rparr>" by (simp add: three_nodes_def)
  then show ?thesis using effect [of "0x200"] effect [of "0x300"] effect [of "0x100"] by simp blast
qed

end
