(* ===== verification/Spec2Isabelle.thy ===== *)
theory Spec2Isabelle
  imports Scheduler Boot Ipc_Fifo Uart Xmodem_Main Usart_Streams Singly_Linked_List
begin

text \<open>
  A verification of the preemptive round robin scheduler for the ATmega328P under \<^verbatim>\<open>src/\<close>, with its
  drivers and the two libraries it carries.

  \<^bold>\<open>The program.\<close> Tasks are created with a stack of their own and linked into a ready list
  (\<^verbatim>\<open>src/src/scheduler.cpp\<close>, \<^verbatim>\<open>task.cpp\<close>). Timer 0 counts with prescaler 64; its overflow interrupt drives the
  clock (\<^verbatim>\<open>drivers/clock\<close>) and its compare interrupt the task switches (\<^verbatim>\<open>kernel.cpp\<close>): an assembly block saves
  the registers, status register and stack pointer in the structure of the running task, C code accounts its execution
  time, re-arms the compare unit and asks the scheduling algorithm (\<^verbatim>\<open>drivers/scheduling\<close>) for the next task, and a second assembly block
  loads that task's context. \<open>yield\<close> does the same from a call. Tasks synchronise with mutexes
  (\<^verbatim>\<open>drivers/synchronization\<close>) and exchange data through a FIFO guarded by a mutex (\<^verbatim>\<open>drivers/data_types\<close>,
  \<^verbatim>\<open>drivers/ipc\<close>). The console is a serial unit with two ring buffers and interrupts (\<^verbatim>\<open>drivers/uart\<close>,
  \<^verbatim>\<open>lib/AVR-UART-LIB\<close>), whose header \<^verbatim>\<open>usart.h\<close> derives the options of each unit and the names of its registers from a
  configuration file and the processor. \<^verbatim>\<open>example(xmodem).c\<close> of that library is a program of its own, a
  file receiver on top of the serial unit. \<^verbatim>\<open>lib/singly_linked_list\<close> is a list template that nothing uses.

  \<^bold>\<open>The state.\<close> One record grows from theory to theory: the processor (\<open>AVR\<close>), the timer registers (\<open>MCU\<close>), the
  clock variables (\<open>Clock\<close>), task structures and ready list (\<open>Task\<close>), the serial units (\<open>Usart\<close>), the standard
  streams (\<open>Uart\<close>) or the variables of the file receiver (\<open>Xmodem\<close>); the mutexes extend the task state in \<open>Mutex\<close>. Operations work on every extension of the
  record they need. Integers have their width on the target (\<open>u8\<close>, \<open>u16\<close>, \<open>u32\<close>) and wrap. A function that may
  dereference a bad pointer or not return has the type \<open>outcome\<close> of \<open>Prelude\<close>: \<^term>\<open>None\<close> is no
  return, \<^term>\<open>Some (Inl f)\<close> a fault, \<^term>\<open>Some (Inr x)\<close> a result. Unbounded loops are partial functions, no fuel
  is used.

  \<^bold>\<open>The theories.\<close>
  \<^item> \<open>Prelude\<close>, \<open>AVR\<close>, \<open>MCU\<close>: words, outcomes, instructions, stack, interrupts, timer hardware.
  \<^item> \<open>Timer\<close>, \<open>Clock\<close>: register fields of timer 0; overflow interrupt, \<open>get_ms\<close>, \<open>get_us\<close>. The clock does not drift
    and \<open>get_us\<close> is exact also with a pending overflow.
  \<^item> \<open>Task\<close>, \<open>Sched\<close>: \<open>task_data_t\<close>, the list operations of \<^verbatim>\<open>task.cpp\<close> refined to lists of pointers; round robin
    is fair.
  \<^item> \<open>Kernel\<close>: the assembly blocks instruction by instruction, the compare interrupt, \<open>yield\<close>, time slices and
    accounting. \<open>Preemption\<close>: the invariant of the system (\<open>system_ok\<close>), switches as a step relation; a switch loads
    the context saved for the successor, and a preempted task gets back all it had, whatever the other tasks do.
  \<^item> \<open>Scheduler\<close>: creating tasks with and without arguments, removing them, starting. \<open>Boot\<close>: \<open>init_scheduler\<close>, any
    number of \<open>create_task\<close> and \<open>start_scheduler\<close> in sequence give a well-formed running system, and each task's first
    turn starts at its entry point.
  \<^item> \<open>Mutex\<close>: the lock operations and the locale \<open>lock_interface\<close>; mutual exclusion for any interleaving.
  \<^item> \<open>Bounded_Queue\<close>: the locales \<open>bounded_queue\<close> and \<open>strict_queue\<close>, with what follows for sequences of operations.
    \<open>Fifo\<close> interprets the second for \<^verbatim>\<open>fifo.h\<close>; \<open>Ipc_Fifo\<close> puts FIFO and mutex together.
  \<^item> \<open>Usart\<close>, \<open>Usart_Numbers\<close>, \<open>Usart_Rx\<close>, \<open>Usart_Isr\<close>: the serial driver for a unit and a configuration: setup,
    transmission, number output, reception, and the interrupt routines register by register. \<open>Ring\<close>, \<open>Usart_Queue\<close>: the ring
    buffers as queues (interpretations of the two locales), the order and completeness of the transmitted stream, the
    equality of assembly and C versions. \<open>Usart_Text\<close>: array bounds of the string readers, numbers read back.
    \<open>Usart_Instances\<close>: the units 0 to 3 as the source writes them out. \<open>Uart\<close>: the console and \<open>init_scheduler\<close>.
  \<^item> \<open>Usart_Parts\<close>, \<open>Usart_Options\<close>, \<open>Usart_Streams\<close>: the header as functions on the defined macros. The table of processors and the
    remapping of the last unit; the passages that derive the options; the record of options that they give a unit. Enabled units have all their
    names, the options are consistent, and this build selects the configuration that the driver is verified with
    (\<open>build_config\<close>). The \<open>FILE\<close> objects, and that a byte written to one leaves through its unit; hardware flow control.
  \<^item> \<open>Serial_Client\<close>: the locale \<open>served_line\<close>, what a program may rely on when it prints through a unit whose interrupts are
    served: the blocking functions return and append exactly their bytes. It is interpreted for the
    interrupts of the driver here, and for those of the receiver's board in \<open>Xmodem_Env\<close> and \<open>Xmodem_Main\<close>.
  \<^item> \<open>Xmodem_Packet\<close>, \<open>Xmodem\<close>: checksums and packets, the functions of the receiver, one pass of its main loop.
    \<open>Xmodem_Transfer\<close>: the machine that takes bytes refines one that takes packets, and a file gets through a line that
    damages packets and loses answers. \<open>Xmodem_Dump\<close>: the hex dump prints a reference text. \<open>Xmodem_Main\<close>: every pass returns and
    keeps the types of the variables, and the cases where the program goes wrong.
  \<^item> \<open>Singly_Linked_List\<close>: the list template and what its inverted loop conditions make of it.
  \<^item> This theory: serial interrupts and the scheduler together.

  \<^bold>\<open>Hardware and compiler.\<close> Between two accesses of the program the timer may run for any number of ticks; compiled C code may
  leave anything in the registers it uses; a waiting loop calls an environment function that stands for the
  interrupts served meanwhile. Variables of the program that are not on a task's stack are record fields, so that a stack
  does not overlap them is part of the model. What arithmetic instructions leave in the status register is a
  parameter wherever it is restored afterwards. Conversions of floating point numbers belong to the C
  library and are parameters; \<open>itoa\<close>, \<open>atoi\<close> and their relatives are modelled.

  \<^bold>\<open>Not modelled.\<close> Options of the serial driver that this build leaves undefined and that change the register allocation or leave
  interrupts enabled in the routines; units addressed in the lower I/O space; the code that a user may paste into the event hooks, which are
  empty; the warnings of the preprocessor; \<open>FILE\<close> operations of the C library other than writing a byte; the two demonstration
  programs of the serial library, which have no logic beyond calling its functions and \<open>printf\<close> and \<open>scanf\<close> one after the other; unit
  tests and build scripts. Preemption inside the serial functions is considered where it matters (a task preempted in
  the transmit function), not at every instruction. In the receiver, interrupts happen between the bytes it handles and in the loops that wait.
\<close>

section \<open>Serial interrupts and the scheduler\<close>

lemma unit_change_is_task_code:
  assumes ok: "system_ok stk ps s"
    and s': "s' = s\<lparr>SREG := x, SRAM := m, units := u\<rparr>"
    and m: "\<forall>a. a \<notin> below d (SP s) \<longrightarrow> m a = SRAM s a" and stack: "below d (SP s) \<subseteq> stk (c_task s)"
  shows "task_code stk ps s s' \<and> system_ok stk ps s'"
proof -
  have same: "c_task s' = c_task s" "tasks s' = tasks s" "ready_list_head s' = ready_list_head s"
    by (simp_all add: s')
  have "SRAM s' a = SRAM s a" if "q \<in> set ps" "q \<noteq> c_task s" "a \<in> stk q" for q a
  proof -
    have "stk q \<inter> stk (c_task s) = {}" using ok that unfolding system_ok_def by blast
    then have "a \<notin> below d (SP s)" using that stack by blast
    then show ?thesis using m by (simp add: s')
  qed
  moreover have ctx: "task_context s' q = task_context s q" for q by (simp add: task_context_def same)
  moreover have "ready_list s' ps" using ok by (simp add: system_ok_def ready_list_def same)
  ultimately show ?thesis
    using ok by (simp add: task_code_def system_ok_def suspended_ok_def same)
qed

text \<open>
  C6: Serial interrupts and task switches do not disturb each other: taken while a task runs with six free bytes on its
  stack, the transmit and the receive interrupt keep the system of tasks well-formed, count as code of the
  running task (so preemption stays transparent), and return to the same instruction with the same registers and stack pointer.
\<close>

theorem serial_interrupt_keeps_system:
  assumes ok: "system_ok stk ps s" and stack: "below 6 (SP s) \<subseteq> stk (c_task s)"
  shows "\<forall>s' \<in> {ISR_UDRE c n flags (irq_enter v s), ISR_RX c n flags (irq_enter v s)}.
    task_code stk ps s s' \<and> system_ok stk ps s' \<and> R s' = R s \<and> SP s' = SP s \<and> PC s' = PC s
    \<and> SREG s' = SREG s OR 0x80"
proof -
  obtain m where t: "ISR_UDRE c n flags (irq_enter v s)
      = s\<lparr>SREG := SREG s OR 0x80, SRAM := m, units := (units s)(n := ISR_TX_C c (units s n))\<rparr>"
    "\<forall>a. a \<notin> below 5 (SP s) \<longrightarrow> m a = SRAM s a" using ISR_UDRE_frame [of c n flags v s] by blast
  obtain m' where r: "ISR_RX c n flags (irq_enter v s)
      = s\<lparr>SREG := SREG s OR 0x80, SRAM := m', units := RX_effect c n s\<rparr>"
    "\<forall>a. a \<notin> below 6 (SP s) \<longrightarrow> m' a = SRAM s a" using ISR_RX_frame [of c n flags v s] by blast
  have "below 5 (SP s) \<subseteq> stk (c_task s)" using below_mono [of 5 6 "SP s"] stack by auto
  then show ?thesis
    using unit_change_is_task_code [OF ok t(1,2)] unit_change_is_task_code [OF ok r(1,2) stack] t(1) r(1) by simp
qed

text \<open>The two tasks of \<open>Preemption\<close> on a board with serial units.\<close>

definition two_tasks_board :: board where
  "two_tasks_board = kernel.extend two_tasks (board.fields (\<lambda>_. usart_reset))"

definition board_stacks :: stacks where
  "board_stacks p = (if p = 0x100 then insert 0x21A (two_stacks p) else two_stacks p)"

lemma serial_interrupt_keeps_system_witness:
  "system_ok board_stacks [0x100, 0x180] (ISR_RX (build_config 0x200 0x220) 0 0 (irq_enter 0x24 two_tasks_board))
   \<and> PC (ISR_RX (build_config 0x200 0x220) 0 0 (irq_enter 0x24 two_tasks_board)) = 0x1234"
proof -
  have f: "c_task two_tasks_board = c_task two_tasks" "tasks two_tasks_board = tasks two_tasks"
    "ready_list_head two_tasks_board = ready_list_head two_tasks" "SP two_tasks_board = SP two_tasks" "PC two_tasks_board = 0x1234"
    by (simp_all add: two_tasks_board_def two_tasks_def kernel.defs board.defs)
  have "system_ok board_stacks [0x100, 0x180] two_tasks_board"
    using two_tasks_ok(1)
    by (simp add: system_ok_def ready_list_def suspended_ok_def task_context_def f board_stacks_def)
      (simp add: two_stacks_def two_tasks_def)
  moreover have "below 6 (SP two_tasks_board) \<subseteq> board_stacks (c_task two_tasks_board)"
    by (simp add: f two_tasks_def board_stacks_def two_stacks_def below_def lessThan_nat_numeral lessThan_Suc)
  ultimately show ?thesis
    using serial_interrupt_keeps_system [of board_stacks "[0x100, 0x180]" two_tasks_board "build_config 0x200 0x220" 0 0 "0x24"] f(5)
    by simp
qed

end
